(* ===== verification/Ffi_Prelude.thy ===== *)
theory Ffi_Prelude
  imports Main "HOL-Library.Word"
begin

text \<open>
  Shared vocabulary of the development.

  \<^item> machine integers of the C ABI at their width (64-bit target), raw pointers and
    slice pointers, code addresses of C functions;
  \<^item> the outcome of running Rust code: it returns, it unwinds with a panic, or it has
    undefined behaviour (an invalid pointer is dereferenced);
  \<^item> reading and writing typed memory through a \<^emph>\<open>heap lens\<close>, which is how the model
    says which part of the state a C pointer type stands for;
  \<^item> the generic lemmas and collections the component theories share.
\<close>

named_theorems outcome_simps "evaluation of outcomes and of their sequencing"
named_theorems ffi_defs "definitions of the entry points, for unfolding"
named_theorems balanced_intros "computations that leave the thread-local stack as they found it"

section \<open>Integers, pointers, bytes\<close>

type_synonym u8 = "8 word"
type_synonym u16 = "16 word"
type_synonym u32 = "32 word"
type_synonym usize = "64 word"
type_synonym c_int = "32 word"

type_synonym bytes = "u8 list"

text \<open>
  A Rust \<open>&str\<close> literal as the bytes it occupies in memory. All literals of the sources
  are ASCII, so the encoding is one byte for each character.
\<close>

definition as_bytes :: "string \<Rightarrow> bytes" where
  "as_bytes s = map of_char s"

lemma length_as_bytes [simp]: "length (as_bytes s) = length s"
  by (simp add: as_bytes_def)

text \<open>
  A raw pointer to an object the library allocated, or to an output parameter: null, or an
  address. The type parameter is the pointee, as in \<open>*mut T\<close>.
\<close>

datatype 'a ptr = Null | Ptr nat

primrec is_null :: "'a ptr \<Rightarrow> bool" where
  "is_null Null = True"
| "is_null (Ptr a) = False"

text \<open>
  A \<open>*const T\<close> that is read together with a length. It is null, an address in memory that
  the C program owns, or the start of a slice that Rust lends out for the time of a call
  (\<open>as_ptr\<close> of a slice, never null, readable up to the end of that slice).
\<close>

datatype 'a sptr = SNull | SMem nat | SBorrow "'a list"

text \<open>The code address of a C function; a nullable one is an \<open>Option\<close>, as in the sources.\<close>

type_synonym c_fn = nat

text \<open>A \<open>*mut c_void\<close>: the userdata the application hands to the library.\<close>

type_synonym void_ptr = "unit ptr"

section \<open>Outcomes\<close>

datatype ('a, 'w) outcome = Returned 'a 'w | Unwound 'w | Undefined

type_synonym ('w, 'a) comp = "'w \<Rightarrow> ('a, 'w) outcome"

definition and_then :: "('a, 'w) outcome \<Rightarrow> ('a \<Rightarrow> 'w \<Rightarrow> ('b, 'w) outcome) \<Rightarrow> ('b, 'w) outcome" where
  "and_then r k = (case r of Returned a w \<Rightarrow> k a w | Unwound w \<Rightarrow> Unwound w | Undefined \<Rightarrow> Undefined)"

lemma and_then_simps [simp, outcome_simps]:
  "and_then (Returned a w) k = k a w"
  "and_then (Unwound w) k = Unwound w"
  "and_then Undefined k = Undefined"
  by (simp_all add: and_then_def)

lemma and_then_assoc:
  "and_then (and_then r k) l = and_then r (\<lambda>a w. and_then (k a w) l)"
  by (cases r) simp_all

lemma and_then_eq_Returned:
  "and_then r k = Returned b w' \<longleftrightarrow> (\<exists>a w. r = Returned a w \<and> k a w = Returned b w')"
  by (cases r) simp_all

text \<open>The outcome is not undefined behaviour.\<close>

definition defined :: "('a, 'w) outcome \<Rightarrow> bool" where
  "defined r = (r \<noteq> Undefined)"

lemma defined_simps [simp, outcome_simps]:
  "defined (Returned a w)" "defined (Unwound w)" "\<not> defined Undefined"
  by (simp_all add: defined_def)

text \<open>The state an outcome leaves behind satisfies a relation to the state before.\<close>

definition leaves :: "('w \<Rightarrow> bool) \<Rightarrow> ('a, 'w) outcome \<Rightarrow> bool" where
  "leaves P r = (case r of Returned a w \<Rightarrow> P w | Unwound w \<Rightarrow> P w | Undefined \<Rightarrow> True)"

lemma leaves_simps [simp, outcome_simps]:
  "leaves P (Returned a w) = P w" "leaves P (Unwound w) = P w" "leaves P Undefined"
  by (simp_all add: leaves_def)

lemma leaves_and_then:
  assumes "leaves P r" and "\<And>a w. P w \<Longrightarrow> leaves P (k a w)"
  shows "leaves P (and_then r k)"
  using assms by (cases r) simp_all

section \<open>Typed memory\<close>

text \<open>
  Memory is kept by pointee type: each type has its own finite map from addresses to
  values inside the state. A heap lens selects one such map.
\<close>

record ('w, 'v) heap_lens =
  hget :: "'w \<Rightarrow> nat \<rightharpoonup> 'v"
  hupd :: "((nat \<rightharpoonup> 'v) \<Rightarrow> (nat \<rightharpoonup> 'v)) \<Rightarrow> 'w \<Rightarrow> 'w"

definition hput :: "('w, 'v) heap_lens \<Rightarrow> nat \<Rightarrow> 'v \<Rightarrow> 'w \<Rightarrow> 'w" where
  "hput L a v = hupd L (\<lambda>h. h(a \<mapsto> v))"

definition hdel :: "('w, 'v) heap_lens \<Rightarrow> nat \<Rightarrow> 'w \<Rightarrow> 'w" where
  "hdel L a = hupd L (\<lambda>h. h(a := None))"

text \<open>The laws every part of the state satisfies; the client lemmas follow from them.\<close>

locale typed_heap =
  fixes L :: "('w, 'v) heap_lens"
  assumes get_upd: "hget L (hupd L f w) = f (hget L w)"
    and upd_upd: "hupd L f (hupd L g w) = hupd L (\<lambda>h. f (g h)) w"
    and upd_id: "hupd L (\<lambda>h. h) w = w"
    and upd_cong: "f (hget L w) = g (hget L w) \<Longrightarrow> hupd L f w = hupd L g w"
begin

lemma hget_hput: "hget L (hput L a v w) = (hget L w)(a \<mapsto> v)"
  by (simp add: hput_def get_upd fun_upd_def)

lemma hget_hdel: "hget L (hdel L a w) = (hget L w)(a := None)"
  by (simp add: hdel_def get_upd fun_upd_def)

lemma hput_hput: "hput L a v (hput L a v' w) = hput L a v w"
  by (simp add: hput_def upd_upd fun_upd_upd)

lemma hdel_hput: "hdel L a (hput L a v w) = hdel L a w"
  by (simp add: hput_def hdel_def upd_upd)

lemma hput_hdel: "hput L a v (hdel L a w) = hput L a v w"
  by (simp add: hput_def hdel_def upd_upd)

lemma hput_same: "hget L w a = Some v \<Longrightarrow> hput L a v w = w"
  using upd_cong [of "\<lambda>h. h(a \<mapsto> v)" w "\<lambda>h. h"] by (simp add: hput_def upd_id fun_upd_idem)

lemma hdel_absent: "hget L w a = None \<Longrightarrow> hdel L a w = w"
  using upd_cong [of "\<lambda>h. h(a := None)" w "\<lambda>h. h"] by (simp add: hdel_def upd_id fun_upd_idem)

end

subsection \<open>Single cells\<close>

text \<open>\<open>*p = v\<close> through an output parameter.\<close>

definition write_cell :: "('w, 'v) heap_lens \<Rightarrow> 'v ptr \<Rightarrow> 'v \<Rightarrow> ('w, unit) comp" where
  "write_cell L p v w =
     (case p of
        Null \<Rightarrow> Undefined
      | Ptr a \<Rightarrow> (case hget L w a of None \<Rightarrow> Undefined | Some _ \<Rightarrow> Returned () (hput L a v w)))"

definition valid_cell :: "('w, 'v) heap_lens \<Rightarrow> 'w \<Rightarrow> 'v ptr \<Rightarrow> bool" where
  "valid_cell L w p = (case p of Null \<Rightarrow> False | Ptr a \<Rightarrow> hget L w a \<noteq> None)"

lemma write_cell_valid:
  "valid_cell L w (Ptr a) \<Longrightarrow> write_cell L (Ptr a) v w = Returned () (hput L a v w)"
  by (auto simp: write_cell_def valid_cell_def)

lemma write_cell_invalid: "\<not> valid_cell L w p \<Longrightarrow> write_cell L p v w = Undefined"
  by (auto simp: write_cell_def valid_cell_def split: ptr.splits)

subsection \<open>Slices\<close>

text \<open>
  \<open>slice::from_raw_parts\<close>: the elements at \<open>n\<close> consecutive places, \<open>None\<close> when one of
  them is not readable.
\<close>

definition read_range :: "(nat \<rightharpoonup> 'v) \<Rightarrow> nat \<Rightarrow> nat \<Rightarrow> 'v list option" where
  "read_range h a n = those (map (\<lambda>i. h (a + i)) [0..<n])"

definition from_raw_parts :: "('w, 'v) heap_lens \<Rightarrow> 'w \<Rightarrow> 'v sptr \<Rightarrow> usize \<Rightarrow> 'v list option" where
  "from_raw_parts L w p n =
     (case p of
        SNull \<Rightarrow> None
      | SMem a \<Rightarrow> read_range (hget L w) a (unat n)
      | SBorrow xs \<Rightarrow> (if unat n \<le> length xs then Some (take (unat n) xs) else None))"

lemma from_raw_parts_SNull [simp]: "from_raw_parts L w SNull n = None"
  by (simp add: from_raw_parts_def)

lemma from_raw_parts_cong: "hget L w = hget L w' \<Longrightarrow> from_raw_parts L w p n = from_raw_parts L w' p n"
  by (cases p) (simp_all add: from_raw_parts_def)

lemma from_raw_parts_SBorrow [simp]:
  "from_raw_parts L w (SBorrow xs) n = (if unat n \<le> length xs then Some (take (unat n) xs) else None)"
  by (simp add: from_raw_parts_def)

text \<open>Writing consecutive places, \<open>None\<close> when one of them is not writable.\<close>

fun write_range :: "(nat \<rightharpoonup> 'v) \<Rightarrow> nat \<Rightarrow> 'v list \<Rightarrow> (nat \<rightharpoonup> 'v) option" where
  "write_range h a [] = Some h"
| "write_range h a (x # xs) =
     (case h a of None \<Rightarrow> None | Some _ \<Rightarrow> write_range (h(a \<mapsto> x)) (Suc a) xs)"

text \<open>\<open>ptr::copy_nonoverlapping\<close> of Rust-owned data to memory of the C program.\<close>

definition copy_to :: "('w, 'v) heap_lens \<Rightarrow> 'v ptr \<Rightarrow> 'v list \<Rightarrow> ('w, unit) comp" where
  "copy_to L p xs w =
     (case p of
        Null \<Rightarrow> Undefined
      | Ptr a \<Rightarrow> (case write_range (hget L w) a xs of
                   None \<Rightarrow> Undefined
                 | Some h \<Rightarrow> Returned () (hupd L (\<lambda>_. h) w)))"

lemma those_eq_Some: "those xs = Some ys \<longleftrightarrow> xs = map Some ys"
  by (induction xs arbitrary: ys) (auto split: option.splits)

lemma read_range_Some_iff:
  "read_range h a n = Some xs \<longleftrightarrow> length xs = n \<and> (\<forall>i < n. h (a + i) = Some (xs ! i))"
  by (auto simp: read_range_def those_eq_Some list_eq_iff_nth_eq)

lemma write_range_defined:
  "(\<exists>h'. write_range h a xs = Some h') \<longleftrightarrow> (\<forall>i < length xs. h (a + i) \<noteq> None)"
proof (induction xs arbitrary: h a)
  case (Cons x xs)
  have shift: "(\<forall>i < Suc n. h (a + i) \<noteq> None) \<longleftrightarrow>
      h a \<noteq> None \<and> (\<forall>i < n. (h(a \<mapsto> x)) (Suc a + i) \<noteq> None)" for n
    by (auto simp: less_Suc_eq_0_disj)
  show ?case
    using Cons.IH [of "h(a \<mapsto> x)" "Suc a"] shift [of "length xs"]
    by (cases "h a") (simp_all add: fun_upd_def)
qed simp

lemma write_range_apply:
  "write_range h a xs = Some h' \<Longrightarrow>
     h' b = (if a \<le> b \<and> b < a + length xs then Some (xs ! (b - a)) else h b)"
proof (induction xs arbitrary: h a)
  case (Cons x xs)
  then have "write_range (h(a \<mapsto> x)) (Suc a) xs = Some h'"
    by (auto split: option.splits)
  from Cons.IH [OF this] show ?case
    by (auto simp: nth_Cons' Suc_le_eq)
qed auto

lemma write_then_read:
  "write_range h a xs = Some h' \<Longrightarrow> read_range h' a (length xs) = Some xs"
  by (auto simp: read_range_Some_iff write_range_apply)

lemma write_range_dom: "write_range h a xs = Some h' \<Longrightarrow> dom h' = dom h"
  by (induction xs arbitrary: h a) (auto split: option.splits)

lemma write_range_None:
  "\<lbrakk>i < length xs; h (a + i) = None\<rbrakk> \<Longrightarrow> write_range h a xs = None"
  using write_range_defined [of h a xs] by (metis not_None_eq)

section \<open>Small facts on words and lists\<close>

lemma unat_word_less_eq_nth: "unat (n :: usize) < length xs \<Longrightarrow> xs ! unat n \<in> set xs"
  by simp

text \<open>\<open>slice::get\<close>: the element at an index, \<open>None\<close> when the index is out of range.\<close>

definition slice_get :: "'a list \<Rightarrow> usize \<Rightarrow> 'a option" where
  "slice_get xs n = (if unat n < length xs then Some (xs ! unat n) else None)"

lemma slice_get_Some_iff: "slice_get xs n = Some x \<longleftrightarrow> unat n < length xs \<and> xs ! unat n = x"
  by (auto simp: slice_get_def)

lemma slice_get_None_iff: "slice_get xs n = None \<longleftrightarrow> length xs \<le> unat n"
  by (auto simp: slice_get_def)

text \<open>The first element that satisfies a test, as a position.\<close>

lemma find_Some_nth:
  "find P xs = Some x \<longleftrightarrow> (\<exists>i < length xs. xs ! i = x \<and> P x \<and> (\<forall>j < i. \<not> P (xs ! j)))"
  unfolding find_Some_iff by blast

end
