(* ===== verification/Ffi_Userdata.thy ===== *)
theory Ffi_Userdata
  imports Ffi_Prelude
begin

text \<open>
  The thread-local stack of userdata (\<open>src/lib.rs\<close>, lines 42-187): before the library
  calls into rustls, it pushes the userdata pointer and the log callback of the current
  connection; a guard pops them again, on the normal path and when a panic unwinds.

  The model of the thread-local has what the code can observe of it: whether the
  \<open>LocalKey\<close> was already destroyed, whether its \<open>RefCell\<close> is borrowed, and the
  vector, whose last element is the top of the stack.
\<close>

section \<open>Data\<close>

record Userdata =
  ud_userdata :: void_ptr
  ud_log_callback :: "c_fn option"

record userdata_cell =
  destroyed :: bool
  borrowed :: bool
  stack :: "Userdata list"

record UserdataGuard =
  guard_data :: "Userdata option"

datatype UserdataError = AlreadyPopped | AlreadyBorrowed | EmptyStack | AccessError | WrongData

section \<open>Operations\<close>

definition UserdataGuard_new :: "void_ptr \<Rightarrow> UserdataGuard" where
  "UserdataGuard_new u = \<lparr>guard_data = Some \<lparr>ud_userdata = u, ud_log_callback = None\<rparr>\<rparr>"

text \<open>
  \<open>try_pop(&mut self)\<close>: the result, the guard afterwards and the cell afterwards. The
  expected pointer is read first; the vector is popped before the comparison, and from then
  on the guard is empty.
\<close>

definition try_pop ::
  "UserdataGuard \<Rightarrow> userdata_cell \<Rightarrow> (UserdataError + unit) \<times> UserdataGuard \<times> userdata_cell" where
  "try_pop g c =
     (case guard_data g of
        None \<Rightarrow> (Inl AlreadyPopped, g, c)
      | Some d \<Rightarrow>
          if destroyed c then (Inl AccessError, g, c)
          else if borrowed c then (Inl AlreadyBorrowed, g, c)
          else if stack c = [] then (Inl EmptyStack, g, c)
          else (if ud_userdata (last (stack c)) = ud_userdata d then Inr () else Inl WrongData,
                g\<lparr>guard_data := None\<rparr>, c\<lparr>stack := butlast (stack c)\<rparr>))"

text \<open>\<open>Drop::drop\<close> ignores the result of \<open>try_pop\<close>.\<close>

definition guard_drop :: "UserdataGuard \<Rightarrow> userdata_cell \<Rightarrow> userdata_cell" where
  "guard_drop g c = snd (snd (try_pop g c))"

text \<open>
  \<open>try_drop(mut self)\<close> pops and returns that result; since it owns the guard, the guard
  is dropped when the function returns, so \<open>Drop::drop\<close> runs on what is left of it.
\<close>

definition try_drop :: "UserdataGuard \<Rightarrow> userdata_cell \<Rightarrow> (UserdataError + unit) \<times> userdata_cell" where
  "try_drop g c = (case try_pop g c of (r, g', c') \<Rightarrow> (r, guard_drop g' c'))"

definition userdata_push ::
  "void_ptr \<Rightarrow> c_fn option \<Rightarrow> userdata_cell \<Rightarrow> (UserdataError + UserdataGuard) \<times> userdata_cell" where
  "userdata_push u cb c =
     (if destroyed c then (Inl AccessError, c)
      else if borrowed c then (Inl AlreadyBorrowed, c)
      else (Inr (UserdataGuard_new u),
            c\<lparr>stack := stack c @ [\<lparr>ud_userdata = u, ud_log_callback = cb\<rparr>]\<rparr>))"

definition userdata_get :: "userdata_cell \<Rightarrow> UserdataError + void_ptr" where
  "userdata_get c =
     (if destroyed c then Inl AccessError
      else if borrowed c then Inl AlreadyBorrowed
      else if stack c = [] then Inl EmptyStack
      else Inr (ud_userdata (last (stack c))))"

definition log_callback_get :: "userdata_cell \<Rightarrow> UserdataError + (c_fn option \<times> void_ptr)" where
  "log_callback_get c =
     (if destroyed c then Inl AccessError
      else if borrowed c then Inl AlreadyBorrowed
      else if stack c = [] then Inl EmptyStack
      else Inr (ud_log_callback (last (stack c)), ud_userdata (last (stack c))))"

lemmas userdata_defs = UserdataGuard_new_def try_pop_def guard_drop_def try_drop_def
  userdata_push_def userdata_get_def log_callback_get_def

text \<open>The cell is usable: the thread is alive and nothing holds a borrow.\<close>

definition usable :: "userdata_cell \<Rightarrow> bool" where
  "usable c = (\<not> destroyed c \<and> \<not> borrowed c)"

section \<open>The interface the callers rely on\<close>

primrec leave_all :: "('k \<Rightarrow> 'c \<Rightarrow> 'c option) \<Rightarrow> 'k list \<Rightarrow> 'c \<Rightarrow> 'c option" where
  "leave_all leave [] c = Some c"
| "leave_all leave (k # ks) c =
     (case leave k c of None \<Rightarrow> None | Some c' \<Rightarrow> leave_all leave ks c')"

lemma leave_all_append:
  "leave_all leave (ks @ ls) c =
     (case leave_all leave ks c of None \<Rightarrow> None | Some c' \<Rightarrow> leave_all leave ls c')"
  by (induction ks arbitrary: c) (simp_all split: option.splits)

text \<open>
  A scoped resource is entered with a key and left with the same key. Entering keeps it
  usable, the key is visible on top until it is left, and leaving right after entering
  restores the state exactly.
\<close>

locale scoped_stack =
  fixes ok :: "'c \<Rightarrow> bool" and enter :: "'k \<Rightarrow> 'c \<Rightarrow> 'c" and leave :: "'k \<Rightarrow> 'c \<Rightarrow> 'c option"
    and top :: "'c \<Rightarrow> 'k option"
  assumes ok_enter: "ok c \<Longrightarrow> ok (enter k c)"
    and top_enter: "ok c \<Longrightarrow> top (enter k c) = Some k"
    and leave_enter: "ok c \<Longrightarrow> leave k (enter k c) = Some c"
begin

lemma ok_fold_enter: "ok c \<Longrightarrow> ok (fold enter ks c)"
  by (induction ks arbitrary: c) (auto intro: ok_enter)

text \<open>Any number of nested scopes, left from the innermost to the outermost.\<close>

lemma nested_scopes: "ok c \<Longrightarrow> leave_all leave (rev ks) (fold enter ks c) = Some c"
proof (induction ks arbitrary: c)
  case (Cons k ks)
  then show ?case
    by (simp add: leave_all_append ok_enter leave_enter)
qed simp

lemma top_of_nested: "ok c \<Longrightarrow> top (fold enter (ks @ [k]) c) = Some k"
  by (simp add: top_enter ok_fold_enter)

end

text \<open>The userdata stack as such a resource: entering pushes, leaving drops the guard.\<close>

definition enter_userdata :: "void_ptr \<times> c_fn option \<Rightarrow> userdata_cell \<Rightarrow> userdata_cell" where
  "enter_userdata k c = snd (userdata_push (fst k) (snd k) c)"

definition leave_userdata :: "void_ptr \<times> c_fn option \<Rightarrow> userdata_cell \<Rightarrow> userdata_cell option" where
  "leave_userdata k c =
     (case try_drop (UserdataGuard_new (fst k)) c of (Inl _, _) \<Rightarrow> None | (Inr _, c') \<Rightarrow> Some c')"

definition top_userdata :: "userdata_cell \<Rightarrow> (void_ptr \<times> c_fn option) option" where
  "top_userdata c = (case log_callback_get c of Inl _ \<Rightarrow> None | Inr (cb, u) \<Rightarrow> Some (u, cb))"

interpretation uds: scoped_stack usable enter_userdata leave_userdata top_userdata
  by unfold_locales
    (auto simp: usable_def enter_userdata_def leave_userdata_def top_userdata_def userdata_defs)

section \<open>Lemmas\<close>

lemma push_usable:
  "usable c \<Longrightarrow> userdata_push u cb c =
     (Inr (UserdataGuard_new u), c\<lparr>stack := stack c @ [\<lparr>ud_userdata = u, ud_log_callback = cb\<rparr>]\<rparr>)"
  by (simp add: usable_def userdata_push_def)

lemma push_fails_iff: "(\<exists>e. fst (userdata_push u cb c) = Inl e) \<longleftrightarrow> \<not> usable c"
  by (simp add: usable_def userdata_push_def)

lemma push_get_top:
  assumes "userdata_push u cb c = (Inr g, c')"
  shows "usable c'" and "userdata_get c' = Inr u" and "log_callback_get c' = Inr (cb, u)"
  using assms by (auto simp: userdata_defs usable_def split: if_splits)

lemma try_drop_pushed:
  assumes "userdata_push u cb c = (Inr g, c')"
  shows "try_drop g c' = (Inr (), c)" and "guard_drop g c' = c"
  using assms by (auto simp: userdata_defs split: if_splits)

lemma guard_drop_empty: "guard_data g = None \<Longrightarrow> guard_drop g c = c"
  by (simp add: guard_drop_def try_pop_def)

lemma try_pop_flags:
  "destroyed (snd (snd (try_pop g c))) = destroyed c"
  "borrowed (snd (snd (try_pop g c))) = borrowed c"
  by (simp_all add: try_pop_def split: option.splits)

section \<open>Several threads, guards in scope order\<close>

text \<open>
  A thread is its thread-local cell and the guards its Rust frames own, innermost last.
  Rust drops locals in the reverse order of their creation, so a step creates a guard on
  top, or drops the top guard, either explicitly (\<open>try_drop\<close>) or by unwinding
  (\<open>Drop\<close>). Threads move independently.
\<close>

record thread_state =
  t_cell :: userdata_cell
  t_guards :: "UserdataGuard list"

type_synonym threads = "nat \<Rightarrow> thread_state"

definition initial_threads :: threads where
  "initial_threads = (\<lambda>_. \<lparr>t_cell = \<lparr>destroyed = False, borrowed = False, stack = []\<rparr>, t_guards = []\<rparr>)"

inductive thread_step :: "threads \<Rightarrow> threads \<Rightarrow> bool" where
  push_step:
    "userdata_push u cb (t_cell (s i)) = (Inr g, c) \<Longrightarrow>
     thread_step s (s(i := \<lparr>t_cell = c, t_guards = t_guards (s i) @ [g]\<rparr>))"
| try_drop_step:
    "\<lbrakk>t_guards (s i) = gs @ [g]; try_drop g (t_cell (s i)) = (r, c)\<rbrakk> \<Longrightarrow>
     thread_step s (s(i := \<lparr>t_cell = c, t_guards = gs\<rparr>))"
| unwind_step:
    "\<lbrakk>t_guards (s i) = gs @ [g]; guard_drop g (t_cell (s i)) = c\<rbrakk> \<Longrightarrow>
     thread_step s (s(i := \<lparr>t_cell = c, t_guards = gs\<rparr>))"

inductive threads_reachable :: "threads \<Rightarrow> bool" where
  reach_init: "threads_reachable initial_threads"
| reach_step: "\<lbrakk>threads_reachable s; thread_step s t\<rbrakk> \<Longrightarrow> threads_reachable t"

inductive_cases thread_stepE: "thread_step s t"

text \<open>
  The documented invariant of a live guard: the stack has an item for it, that item is the
  one the guard was built with, and the guard's own data is still there.
\<close>

definition guard_matches :: "UserdataGuard \<Rightarrow> Userdata \<Rightarrow> bool" where
  "guard_matches g u = (map_option ud_userdata (guard_data g) = Some (ud_userdata u))"

definition guards_match :: "thread_state \<Rightarrow> bool" where
  "guards_match ts = (usable (t_cell ts) \<and> list_all2 guard_matches (t_guards ts) (stack (t_cell ts)))"

lemma guards_match_top:
  assumes "guards_match ts" and "t_guards ts = gs @ [g]"
  obtains us u d where "stack (t_cell ts) = us @ [u]" and "list_all2 guard_matches gs us"
    and "guard_data g = Some d" and "ud_userdata d = ud_userdata u"
  using assms unfolding guards_match_def guard_matches_def
  by (auto simp: list_all2_append1 list_all2_Cons1)

lemma guards_match_drop:
  assumes "guards_match ts" and "t_guards ts = gs @ [g]"
  shows "try_drop g (t_cell ts) = (Inr (), (t_cell ts)\<lparr>stack := butlast (stack (t_cell ts))\<rparr>)"
    and "guard_drop g (t_cell ts) = (t_cell ts)\<lparr>stack := butlast (stack (t_cell ts))\<rparr>"
    and "guards_match \<lparr>t_cell = (t_cell ts)\<lparr>stack := butlast (stack (t_cell ts))\<rparr>, t_guards = gs\<rparr>"
proof -
  obtain us u d where "stack (t_cell ts) = us @ [u]" "list_all2 guard_matches gs us"
    "guard_data g = Some d" "ud_userdata d = ud_userdata u"
    using guards_match_top [OF assms] .
  then show "try_drop g (t_cell ts) = (Inr (), (t_cell ts)\<lparr>stack := butlast (stack (t_cell ts))\<rparr>)"
    and "guard_drop g (t_cell ts) = (t_cell ts)\<lparr>stack := butlast (stack (t_cell ts))\<rparr>"
    and "guards_match \<lparr>t_cell = (t_cell ts)\<lparr>stack := butlast (stack (t_cell ts))\<rparr>, t_guards = gs\<rparr>"
    using assms(1) by (auto simp: userdata_defs guards_match_def usable_def)
qed

lemma guards_match_push:
  assumes "guards_match ts" and "userdata_push u cb (t_cell ts) = (Inr g, c)"
  shows "guards_match \<lparr>t_cell = c, t_guards = t_guards ts @ [g]\<rparr>"
  using assms
  by (auto simp: guards_match_def usable_def userdata_push_def UserdataGuard_new_def guard_matches_def
      intro!: list_all2_appendI)

lemma thread_step_match: "\<lbrakk>thread_step s t; \<forall>i. guards_match (s i)\<rbrakk> \<Longrightarrow> guards_match (t i)"
proof (induction rule: thread_step.induct)
  case (push_step u cb s j g c)
  then show ?case by (auto intro: guards_match_push)
next
  case (try_drop_step s j gs g r c)
  then show ?case using guards_match_drop [of "s j" gs g] by auto
next
  case (unwind_step s j gs g c)
  then show ?case using guards_match_drop [of "s j" gs g] by auto
qed

lemma threads_reachable_match: "threads_reachable s \<Longrightarrow> guards_match (s i)"
proof (induction arbitrary: i rule: threads_reachable.induct)
  case reach_init
  show ?case by (simp add: initial_threads_def guards_match_def usable_def)
next
  case (reach_step s t)
  then show ?case by (blast intro: thread_step_match)
qed

section \<open>Properties\<close>

text \<open>
  Whatever the guard and the cell, \<open>try_drop\<close> removes at most one entry, although it
  attempts a pop twice (explicitly and through \<open>Drop\<close>), and it succeeds exactly when the
  cell is accessible, the guard still has its data and the top entry carries the same
  pointer; every other case is reported with its own error.
\<close>

theorem try_drop_exact:
  "try_drop g c =
     (case guard_data g of
        None \<Rightarrow> (Inl AlreadyPopped, c)
      | Some d \<Rightarrow>
          if destroyed c then (Inl AccessError, c)
          else if borrowed c then (Inl AlreadyBorrowed, c)
          else case rev (stack c) of
                 [] \<Rightarrow> (Inl EmptyStack, c)
               | u # us \<Rightarrow> (if ud_userdata u = ud_userdata d then Inr () else Inl WrongData,
                           c\<lparr>stack := rev us\<rparr>))"
proof (cases "rev (stack c)")
  case Nil
  then show ?thesis by (simp add: userdata_defs split: option.splits)
next
  case (Cons u us)
  then have "stack c = rev us @ [u]" by (simp add: rev_eq_Cons_iff)
  then show ?thesis by (simp add: userdata_defs split: option.splits)
qed

text \<open>
  Nested calls, to any depth: pushing any sequence of userdata and then dropping the
  guards from the innermost to the outermost succeeds at every step and gives back exactly
  the stack there was before the first push.
\<close>

theorem nested_guards_restore:
  "usable c \<Longrightarrow> leave_all leave_userdata (rev ks) (fold enter_userdata ks c) = Some c"
  by (rule uds.nested_scopes)

theorem nested_guards_restore_witness:
  "leave_all leave_userdata (rev [(Ptr 1, None), (Ptr 2, Some 7)])
     (fold enter_userdata [(Ptr 1, None), (Ptr 2, Some 7)]
        \<lparr>destroyed = False, borrowed = False, stack = []\<rparr>) =
   Some \<lparr>destroyed = False, borrowed = False, stack = []\<rparr>"
  by (rule nested_guards_restore) (simp add: usable_def)


definition two_threads :: threads where
  "two_threads = initial_threads(1 :=
     \<lparr>t_cell = \<lparr>destroyed = False, borrowed = False,
                stack = [\<lparr>ud_userdata = Ptr 5, ud_log_callback = None\<rparr>]\<rparr>,
      t_guards = [UserdataGuard_new (Ptr 5)]\<rparr>)"

lemma two_threads_reachable: "threads_reachable two_threads"
proof -
  have "thread_step initial_threads two_threads"
    using push_step [of "Ptr 5" None initial_threads 1 "UserdataGuard_new (Ptr 5)"
        "\<lparr>destroyed = False, borrowed = False, stack = [\<lparr>ud_userdata = Ptr 5, ud_log_callback = None\<rparr>]\<rparr>"]
    by (simp add: two_threads_def initial_threads_def userdata_push_def)
  then show ?thesis by (rule reach_step [OF reach_init])
qed


end
