(* ===== verification/Ffi_Std.thy ===== *)
theory Ffi_Std
  imports Ffi_Prelude
begin

text \<open>
  The parts of the Rust standard library the sources use: \<open>std::io::Error\<close> with its
  kinds, C strings, and the UTF-8 check behind \<open>str::from_utf8\<close> and
  \<open>CStr::to_str\<close>.
\<close>

section \<open>I/O errors\<close>

text \<open>
  An error is made from an operating system code or from a kind. Only the kinds the sources
  look at are told apart.
\<close>

datatype ErrorKind = UnexpectedEofKind | WouldBlockKind | OtherKind

datatype io_Error = from_raw_os_error c_int | from_kind ErrorKind

primrec raw_os_error :: "io_Error \<Rightarrow> c_int option" where
  "raw_os_error (from_raw_os_error e) = Some e"
| "raw_os_error (from_kind k) = None"

text \<open>The error numbers of the Linux ABI.\<close>

definition EINVAL :: c_int where "EINVAL = 22"
definition EIO :: c_int where "EIO = 5"
definition EAGAIN :: c_int where "EAGAIN = 11"

primrec io_kind :: "io_Error \<Rightarrow> ErrorKind" where
  "io_kind (from_raw_os_error e) = (if e = EAGAIN then WouldBlockKind else OtherKind)"
| "io_kind (from_kind k) = k"

section \<open>C strings\<close>

text \<open>
  \<open>CStr::from_ptr(p).to_bytes()\<close>: the bytes before the first NUL. \<open>None\<close> when the
  scan reads outside readable memory, or never meets a NUL.
\<close>

partial_function (option) cstr_bytes :: "(nat \<rightharpoonup> u8) \<Rightarrow> nat \<Rightarrow> bytes option" where
  "cstr_bytes h a =
     (case h a of
        None \<Rightarrow> None
      | Some b \<Rightarrow> if b = 0 then Some []
                 else Option.bind (cstr_bytes h (Suc a)) (\<lambda>bs. Some (b # bs)))"

lemma cstr_bytes_terminated:
  "\<lbrakk>\<forall>i < length s. h (a + i) = Some (s ! i); 0 \<notin> set s; h (a + length s) = Some 0\<rbrakk> \<Longrightarrow>
     cstr_bytes h a = Some s"
proof (induction s arbitrary: a)
  case Nil
  then show ?case by (simp add: cstr_bytes.simps)
next
  case (Cons b s)
  have "cstr_bytes h (Suc a) = Some s"
  proof (rule Cons.IH)
    show "\<forall>i < length s. h (Suc a + i) = Some (s ! i)"
      using Cons.prems(1) by auto
  qed (use Cons.prems in auto)
  moreover have "h a = Some b" using Cons.prems(1) by force
  ultimately show ?case using Cons.prems(2)
    by (subst cstr_bytes.simps) auto
qed

section \<open>UTF-8\<close>

text \<open>Well-formed byte sequences, by the table of the Unicode standard.\<close>

definition utf8_cont :: "u8 \<Rightarrow> bool" where
  "utf8_cont b = (0x80 \<le> b \<and> b \<le> 0xBF)"

fun utf8_valid :: "bytes \<Rightarrow> bool" where
  "utf8_valid [] = True"
| "utf8_valid (b # bs) =
     (if b \<le> 0x7F then utf8_valid bs
      else if 0xC2 \<le> b \<and> b \<le> 0xDF then
        (case bs of c # r \<Rightarrow> utf8_cont c \<and> utf8_valid r | _ \<Rightarrow> False)
      else if 0xE0 \<le> b \<and> b \<le> 0xEF then
        (case bs of
           c # d # r \<Rightarrow>
             (if b = 0xE0 then 0xA0 \<le> c \<and> c \<le> 0xBF
              else if b = 0xED then 0x80 \<le> c \<and> c \<le> 0x9F
              else utf8_cont c) \<and> utf8_cont d \<and> utf8_valid r
         | _ \<Rightarrow> False)
      else if 0xF0 \<le> b \<and> b \<le> 0xF4 then
        (case bs of
           c # d # e # r \<Rightarrow>
             (if b = 0xF0 then 0x90 \<le> c \<and> c \<le> 0xBF
              else if b = 0xF4 then 0x80 \<le> c \<and> c \<le> 0x8F
              else utf8_cont c) \<and> utf8_cont d \<and> utf8_cont e \<and> utf8_valid r
         | _ \<Rightarrow> False)
      else False)"

text \<open>Bytes below \<open>0x80\<close> (ASCII) are well-formed UTF-8.\<close>

lemma utf8_valid_ascii: "\<forall>b \<in> set bs. b \<le> 0x7F \<Longrightarrow> utf8_valid bs"
  by (induction bs) auto

end
