(* ===== verification/Ffi_Rslice.thy ===== *)
theory Ffi_Rslice
  imports Ffi_Std
begin

text \<open>
  The views of Rust data that are handed to C (\<open>src/rslice.rs\<close>): byte slices, slices of
  byte slices, strings without NUL bytes, slices of strings and slices of 16-bit integers,
  with their constructors and accessors.

  A \<open>&str\<close> is the list of its UTF-8 bytes. A \<open>*const\<close> to an opaque view struct is an
  \<open>option\<close>: \<open>None\<close> is the null pointer, \<open>Some\<close> a pointer to a live view.
\<close>

section \<open>Byte slices\<close>

record rustls_slice_bytes =
  rsb_data :: "u8 sptr"
  rsb_len :: usize

definition rustls_slice_bytes_from :: "bytes \<Rightarrow> rustls_slice_bytes" where
  "rustls_slice_bytes_from s = \<lparr>rsb_data = SBorrow s, rsb_len = of_nat (length s)\<rparr>"

record rustls_slice_slice_bytes =
  rssb_inner :: "bytes list"

definition rustls_slice_slice_bytes_len :: "rustls_slice_slice_bytes option \<Rightarrow> usize" where
  "rustls_slice_slice_bytes_len input =
     (case input of Some c \<Rightarrow> of_nat (length (rssb_inner c)) | None \<Rightarrow> 0)"

definition rustls_slice_slice_bytes_get ::
  "rustls_slice_slice_bytes option \<Rightarrow> usize \<Rightarrow> rustls_slice_bytes" where
  "rustls_slice_slice_bytes_get input n =
     (case input of
        None \<Rightarrow> \<lparr>rsb_data = SNull, rsb_len = 0\<rparr>
      | Some c \<Rightarrow> (case slice_get (rssb_inner c) n of
                    Some rsb \<Rightarrow> rustls_slice_bytes_from rsb
                  | None \<Rightarrow> \<lparr>rsb_data = SNull, rsb_len = 0\<rparr>))"

section \<open>Strings\<close>

record rustls_str =
  rs_data :: "u8 sptr"
  rs_len :: usize

datatype NulByte = NulByte

definition rustls_str_try_from :: "bytes \<Rightarrow> NulByte + rustls_str" where
  "rustls_str_try_from s =
     (if 0 \<in> set s then Inl NulByte
      else Inr \<lparr>rs_data = SBorrow s, rs_len = of_nat (length s)\<rparr>)"

definition from_str_unchecked :: "bytes \<Rightarrow> rustls_str" where
  "from_str_unchecked s = \<lparr>rs_data = SBorrow s, rs_len = of_nat (length s)\<rparr>"

text \<open>The version string; its text is generated when the library is built.\<close>

definition rustls_version :: "bytes \<Rightarrow> rustls_str" where
  "rustls_version RUSTLS_FFI_VERSION = from_str_unchecked RUSTLS_FFI_VERSION"

text \<open>
  The two fields that \<open>fmt::Debug for rustls_str\<close> prints. \<open>None\<close> is undefined behaviour: the pointer
  is not readable for the length.
\<close>

definition rustls_str_debug :: "('w, u8) heap_lens \<Rightarrow> 'w \<Rightarrow> rustls_str \<Rightarrow> (bytes \<times> usize) option" where
  "rustls_str_debug mem w self =
     (case from_raw_parts mem w (rs_data self) (rs_len self) of
        None \<Rightarrow> None
      | Some raw \<Rightarrow>
          (let s = if utf8_valid raw then raw else as_bytes ''%!(ERROR)''
           in Some (s, rs_len self)))"

record rustls_slice_str =
  rss_inner :: "bytes list"

definition rustls_slice_str_len :: "rustls_slice_str option \<Rightarrow> usize" where
  "rustls_slice_str_len input =
     (case input of Some c \<Rightarrow> of_nat (length (rss_inner c)) | None \<Rightarrow> 0)"

definition rustls_slice_str_get :: "rustls_slice_str option \<Rightarrow> usize \<Rightarrow> rustls_str" where
  "rustls_slice_str_get input n =
     (case input of
        None \<Rightarrow> \<lparr>rs_data = SNull, rs_len = 0\<rparr>
      | Some c \<Rightarrow>
          (case Option.bind (slice_get (rss_inner c) n)
                  (\<lambda>s. case rustls_str_try_from s of Inl _ \<Rightarrow> None | Inr r \<Rightarrow> Some r) of
             Some r \<Rightarrow> r
           | None \<Rightarrow> \<lparr>rs_data = SNull, rs_len = 0\<rparr>))"

section \<open>Slices of 16-bit integers\<close>

record rustls_slice_u16 =
  rsu_data :: "u16 sptr"
  rsu_len :: usize

definition rustls_slice_u16_from :: "u16 list \<Rightarrow> rustls_slice_u16" where
  "rustls_slice_u16_from s = \<lparr>rsu_data = SBorrow s, rsu_len = of_nat (length s)\<rparr>"

section \<open>The interface of a view\<close>

text \<open>
  Rust slices never exceed \<open>isize::MAX\<close> bytes, so their lengths are exact as
  \<open>usize\<close>.
\<close>

definition fits_isize :: "'a list \<Rightarrow> bool" where
  "fits_isize xs = (length xs < 2 ^ 63)"

lemma unat_of_nat_length: "fits_isize xs \<Longrightarrow> unat (of_nat (length xs) :: usize) = length xs"
  by (simp add: fits_isize_def unat_of_nat)

text \<open>
  A view is a pointer and a length made from a slice. Its promise is that reading exactly
  \<open>len\<close> elements behind \<open>data\<close> gives the slice back, so a C program that trusts
  \<open>len\<close> stays inside the slice.
\<close>

locale slice_view =
  fixes mk :: "'e list \<Rightarrow> 'v" and view_data :: "'v \<Rightarrow> 'e sptr" and view_len :: "'v \<Rightarrow> usize"
  assumes data_mk: "view_data (mk s) = SBorrow s"
    and len_mk: "view_len (mk s) = of_nat (length s)"
begin

lemma read_back:
  "fits_isize s \<Longrightarrow> from_raw_parts L w (view_data (mk s)) (view_len (mk s)) = Some s"
  by (simp add: from_raw_parts_def data_mk len_mk unat_of_nat_length)

lemma not_null: "view_data (mk s) \<noteq> SNull"
  by (simp add: data_mk)

lemma longer_read_is_invalid:
  "\<lbrakk>fits_isize s; view_len (mk s) < n\<rbrakk> \<Longrightarrow> from_raw_parts L w (view_data (mk s)) n = None"
  using unat_of_nat_length [of s] by (auto simp: from_raw_parts_def data_mk len_mk word_less_nat_alt)

end

interpretation bytes_view: slice_view rustls_slice_bytes_from rsb_data rsb_len
  by unfold_locales (simp_all add: rustls_slice_bytes_from_def)

interpretation str_view: slice_view from_str_unchecked rs_data rs_len
  by unfold_locales (simp_all add: from_str_unchecked_def)

interpretation u16_view: slice_view rustls_slice_u16_from rsu_data rsu_len
  by unfold_locales (simp_all add: rustls_slice_u16_from_def)

section \<open>Lemmas\<close>

lemma rustls_str_try_from_unchecked:
  "rustls_str_try_from s = (if 0 \<in> set s then Inl NulByte else Inr (from_str_unchecked s))"
  by (simp add: rustls_str_try_from_def from_str_unchecked_def)

lemma rustls_str_debug_str:
  "\<lbrakk>utf8_valid s; length s < 2 ^ 63\<rbrakk> \<Longrightarrow>
     rustls_str_debug mem w (from_str_unchecked s) = Some (s, of_nat (length s))"
  by (simp add: rustls_str_debug_def from_str_unchecked_def from_raw_parts_def unat_of_nat take_bit_nat_eq_self)

lemma rustls_str_try_from_Inr:
  "rustls_str_try_from s = Inr r \<longleftrightarrow> 0 \<notin> set s \<and> r = from_str_unchecked s"
  by (auto simp: rustls_str_try_from_unchecked)

section \<open>Properties\<close>

text \<open>
  Walking a slice of slices from C is exact: for every index below the reported length
  the accessor returns a non-null view from which exactly the bytes of that element can be
  read, and from the reported length on it returns the null view of length 0.
\<close>

theorem slice_slice_bytes_exact:
  assumes "fits_isize xs" and "\<And>x. x \<in> set xs \<Longrightarrow> fits_isize x"
    and "input = Some \<lparr>rssb_inner = xs\<rparr>"
  shows "if n < rustls_slice_slice_bytes_len input
         then (let v = rustls_slice_slice_bytes_get input n
               in rsb_data v \<noteq> SNull \<and>
                  from_raw_parts L w (rsb_data v) (rsb_len v) = Some (xs ! unat n))
         else rustls_slice_slice_bytes_get input n = \<lparr>rsb_data = SNull, rsb_len = 0\<rparr>"
  using assms
  by (auto simp: rustls_slice_slice_bytes_len_def rustls_slice_slice_bytes_get_def slice_get_def
      word_less_nat_alt unat_of_nat_length Let_def bytes_view.read_back bytes_view.not_null)

theorem slice_slice_bytes_exact_witness:
  "rsb_data (rustls_slice_slice_bytes_get (Some \<lparr>rssb_inner = [[1, 2], []]\<rparr>) 1) \<noteq> SNull \<and>
   rustls_slice_slice_bytes_get (Some \<lparr>rssb_inner = [[1, 2], []]\<rparr>) 2 = \<lparr>rsb_data = SNull, rsb_len = 0\<rparr>"
proof -
  have fits: "fits_isize [[1, 2], [] :: bytes]"
    "\<And>x. x \<in> set [[1, 2], [] :: bytes] \<Longrightarrow> fits_isize x"
    by (auto simp: fits_isize_def)
  show ?thesis
    using slice_slice_bytes_exact [OF fits refl, of 1] slice_slice_bytes_exact [OF fits refl, of 2]
    by (auto simp: rustls_slice_slice_bytes_len_def Let_def)
qed


end
