(* ===== verification/Ffi_World.thy ===== *)
theory Ffi_World
  imports Ffi_Userdata Ffi_Rslice Ffi_Std
begin

text \<open>
  The data of the library and the state its entry points run on.

  Values that belong to rustls and that the sources only pass around (connections, signing
  keys, trust anchors, half-built configurations) are opaque tokens; what rustls does with
  them is always a parameter of the definitions that call it. The structs of the sources
  are records with the sources' fields.

  The state \<open>world\<close> is what one thread of the application sees: its thread-local stack,
  the objects the library has on the heap, one map for each type, and the memory of the C
  program that calls pass in: output parameters, buffers and arrays.
\<close>

section \<open>Values of rustls\<close>

datatype Certificate = Certificate bytes

primrec cert_as_ref :: "Certificate \<Rightarrow> bytes" where
  "cert_as_ref (Certificate der) = der"

datatype SignatureScheme =
    RSA_PKCS1_SHA1 | ECDSA_SHA1_Legacy | RSA_PKCS1_SHA256 | ECDSA_NISTP256_SHA256
    | RSA_PKCS1_SHA384 | ECDSA_NISTP384_SHA384 | RSA_PKCS1_SHA512 | ECDSA_NISTP521_SHA512
    | RSA_PSS_SHA256 | RSA_PSS_SHA384 | RSA_PSS_SHA512 | ED25519 | ED448 | Unknown u16

datatype SigningKey = SigningKey nat
datatype Signer = Signer nat
datatype TrustAnchor = TrustAnchor nat
datatype WantsVerifier = WantsVerifier nat
datatype CipherSuite = CipherSuite nat
datatype ClientConnection = ClientConnection nat
datatype ServerConnection = ServerConnection nat

datatype rustls_Connection = Client ClientConnection | Server ServerConnection

record CipherSuiteCommon =
  cs_suite :: CipherSuite

datatype SupportedCipherSuite = Tls12 CipherSuiteCommon | Tls13 CipherSuiteCommon

datatype SupportedProtocolVersion = TLS12 | TLS13

record RootCertStore =
  roots :: "TrustAnchor list"

text \<open>The signing key of a certified key is itself reference counted (\<open>Arc<dyn SigningKey>\<close>).\<close>

record CertifiedKey =
  ck_cert :: "Certificate list"
  ck_key :: nat
  ck_ocsp :: "bytes option"

section \<open>Structs and trait objects of the library\<close>

text \<open>\<open>Arc<T>\<close>: the strong count and the value.\<close>

record 'v ArcInner =
  strong :: nat
  arc_data :: 'v

text \<open>A verifier of server certificates: the two of \<open>src/client.rs\<close>, and the one of rustls.\<close>

datatype ServerCertVerifier = NoneVerifier | Verifier c_fn | WebPkiVerifier RootCertStore

text \<open>The verifiers of rustls that are made from a root store.\<close>

datatype AllowAnyAuthenticatedClient = AllowAnyAuthenticatedClient RootCertStore
datatype AllowAnyAnonymousOrAuthenticatedClient = AllowAnyAnonymousOrAuthenticatedClient RootCertStore

text \<open>A verifier of client certificates; the shared ones are references to an \<open>Arc\<close>.\<close>

datatype ClientCertVerifier = NoClientAuth | VerifyRequired nat | VerifyOptional nat

text \<open>Certificate resolvers; the keys are references to \<open>Arc<CertifiedKey>\<close>.\<close>

datatype ResolvesClientCert = ResolvesClientCertFromChoices "nat list"

datatype ResolvesServerCert = ResolvesServerCertFromChoices "nat list" | ClientHelloResolver c_fn

record SessionStoreBroker =
  get_cb :: c_fn
  put_cb :: c_fn

datatype StoresServerSessions = RustlsStorage nat | Broker SessionStoreBroker

record ClientConfigBuilder =
  ccb_base :: WantsVerifier
  ccb_verifier :: ServerCertVerifier
  ccb_alpn_protocols :: "bytes list"
  ccb_enable_sni :: bool
  ccb_cert_resolver :: "ResolvesClientCert option"

record ClientConfig =
  cc_base :: WantsVerifier
  cc_verifier :: ServerCertVerifier
  cc_cert_resolver :: "ResolvesClientCert option"
  cc_alpn_protocols :: "bytes list"
  cc_enable_sni :: bool

record ServerConfigBuilder =
  scb_base :: WantsVerifier
  scb_verifier :: ClientCertVerifier
  scb_cert_resolver :: "ResolvesServerCert option"
  scb_session_storage :: "StoresServerSessions option"
  scb_alpn_protocols :: "bytes list"
  scb_ignore_client_order :: "bool option"

record ServerConfig =
  sc_base :: WantsVerifier
  sc_verifier :: ClientCertVerifier
  sc_cert_resolver :: ResolvesServerCert
  sc_session_storage :: StoresServerSessions
  sc_alpn_protocols :: "bytes list"
  sc_ignore_client_order :: bool

record Connection =
  conn_inner :: rustls_Connection
  conn_userdata :: void_ptr
  conn_log_callback :: "c_fn option"

section \<open>The state\<close>

record world =
  USERDATA :: userdata_cell
  next_addr :: nat
  h_connection :: "nat \<rightharpoonup> Connection"
  h_client_builder :: "nat \<rightharpoonup> ClientConfigBuilder"
  h_server_builder :: "nat \<rightharpoonup> ServerConfigBuilder"
  h_root_store :: "nat \<rightharpoonup> RootCertStore"
  h_client_config :: "nat \<rightharpoonup> ClientConfig ArcInner"
  h_server_config :: "nat \<rightharpoonup> ServerConfig ArcInner"
  h_certified_key :: "nat \<rightharpoonup> CertifiedKey ArcInner"
  h_signing_key :: "nat \<rightharpoonup> SigningKey ArcInner"
  h_client_verifier :: "nat \<rightharpoonup> AllowAnyAuthenticatedClient ArcInner"
  h_client_verifier_optional :: "nat \<rightharpoonup> AllowAnyAnonymousOrAuthenticatedClient ArcInner"
  m_u8 :: "nat \<rightharpoonup> u8"
  m_u16 :: "nat \<rightharpoonup> u16"
  m_usize :: "nat \<rightharpoonup> usize"
  m_slice :: "nat \<rightharpoonup> rustls_slice_bytes"
  m_suite :: "nat \<rightharpoonup> SupportedCipherSuite option"
  m_u8_ptr :: "nat \<rightharpoonup> u8 sptr"
  m_key_ptr :: "nat \<rightharpoonup> CertifiedKey ptr"
  m_conn_ptr :: "nat \<rightharpoonup> Connection ptr"
  m_client_builder_ptr :: "nat \<rightharpoonup> ClientConfigBuilder ptr"
  m_server_builder_ptr :: "nat \<rightharpoonup> ServerConfigBuilder ptr"

definition empty_world :: world where
  "empty_world =
     \<lparr>USERDATA = \<lparr>destroyed = False, borrowed = False, stack = []\<rparr>, next_addr = 1,
      h_connection = Map.empty, h_client_builder = Map.empty, h_server_builder = Map.empty,
      h_root_store = Map.empty, h_client_config = Map.empty, h_server_config = Map.empty,
      h_certified_key = Map.empty, h_signing_key = Map.empty,
      h_client_verifier = Map.empty, h_client_verifier_optional = Map.empty,
      m_u8 = Map.empty, m_u16 = Map.empty, m_usize = Map.empty, m_slice = Map.empty,
      m_suite = Map.empty, m_u8_ptr = Map.empty, m_key_ptr = Map.empty, m_conn_ptr = Map.empty,
      m_client_builder_ptr = Map.empty, m_server_builder_ptr = Map.empty\<rparr>"

section \<open>What each C pointer type points to\<close>

text \<open>
  \<open>impl CastPtr for rustls_foo { type RustType = Foo; }\<close> fixes the pointee of a C pointer
  type; in the model it is the lens of that part of the state.
\<close>

definition connection_heap :: "(world, Connection) heap_lens" where
  "connection_heap = \<lparr>hget = h_connection, hupd = h_connection_update\<rparr>"

definition client_builder_heap :: "(world, ClientConfigBuilder) heap_lens" where
  "client_builder_heap = \<lparr>hget = h_client_builder, hupd = h_client_builder_update\<rparr>"

definition server_builder_heap :: "(world, ServerConfigBuilder) heap_lens" where
  "server_builder_heap = \<lparr>hget = h_server_builder, hupd = h_server_builder_update\<rparr>"

definition root_store_heap :: "(world, RootCertStore) heap_lens" where
  "root_store_heap = \<lparr>hget = h_root_store, hupd = h_root_store_update\<rparr>"

definition client_config_heap :: "(world, ClientConfig ArcInner) heap_lens" where
  "client_config_heap = \<lparr>hget = h_client_config, hupd = h_client_config_update\<rparr>"

definition server_config_heap :: "(world, ServerConfig ArcInner) heap_lens" where
  "server_config_heap = \<lparr>hget = h_server_config, hupd = h_server_config_update\<rparr>"

definition certified_key_heap :: "(world, CertifiedKey ArcInner) heap_lens" where
  "certified_key_heap = \<lparr>hget = h_certified_key, hupd = h_certified_key_update\<rparr>"

definition signing_key_heap :: "(world, SigningKey ArcInner) heap_lens" where
  "signing_key_heap = \<lparr>hget = h_signing_key, hupd = h_signing_key_update\<rparr>"

definition client_verifier_heap :: "(world, AllowAnyAuthenticatedClient ArcInner) heap_lens" where
  "client_verifier_heap = \<lparr>hget = h_client_verifier, hupd = h_client_verifier_update\<rparr>"

definition client_verifier_optional_heap ::
  "(world, AllowAnyAnonymousOrAuthenticatedClient ArcInner) heap_lens" where
  "client_verifier_optional_heap =
     \<lparr>hget = h_client_verifier_optional, hupd = h_client_verifier_optional_update\<rparr>"

text \<open>Memory of the C program: buffers, arrays and output parameters.\<close>

definition u8_mem :: "(world, u8) heap_lens" where
  "u8_mem = \<lparr>hget = m_u8, hupd = m_u8_update\<rparr>"

definition u16_mem :: "(world, u16) heap_lens" where
  "u16_mem = \<lparr>hget = m_u16, hupd = m_u16_update\<rparr>"

definition usize_mem :: "(world, usize) heap_lens" where
  "usize_mem = \<lparr>hget = m_usize, hupd = m_usize_update\<rparr>"

definition slice_mem :: "(world, rustls_slice_bytes) heap_lens" where
  "slice_mem = \<lparr>hget = m_slice, hupd = m_slice_update\<rparr>"

definition suite_mem :: "(world, SupportedCipherSuite option) heap_lens" where
  "suite_mem = \<lparr>hget = m_suite, hupd = m_suite_update\<rparr>"

definition u8_ptr_mem :: "(world, u8 sptr) heap_lens" where
  "u8_ptr_mem = \<lparr>hget = m_u8_ptr, hupd = m_u8_ptr_update\<rparr>"

definition key_ptr_mem :: "(world, CertifiedKey ptr) heap_lens" where
  "key_ptr_mem = \<lparr>hget = m_key_ptr, hupd = m_key_ptr_update\<rparr>"

definition conn_ptr_mem :: "(world, Connection ptr) heap_lens" where
  "conn_ptr_mem = \<lparr>hget = m_conn_ptr, hupd = m_conn_ptr_update\<rparr>"

definition client_builder_ptr_mem :: "(world, ClientConfigBuilder ptr) heap_lens" where
  "client_builder_ptr_mem = \<lparr>hget = m_client_builder_ptr, hupd = m_client_builder_ptr_update\<rparr>"

definition server_builder_ptr_mem :: "(world, ServerConfigBuilder ptr) heap_lens" where
  "server_builder_ptr_mem = \<lparr>hget = m_server_builder_ptr, hupd = m_server_builder_ptr_update\<rparr>"

lemmas heap_lens_defs = connection_heap_def client_builder_heap_def server_builder_heap_def
  root_store_heap_def client_config_heap_def server_config_heap_def certified_key_heap_def
  signing_key_heap_def client_verifier_heap_def client_verifier_optional_heap_def
  u8_mem_def u16_mem_def usize_mem_def slice_mem_def suite_mem_def u8_ptr_mem_def key_ptr_mem_def
  conn_ptr_mem_def client_builder_ptr_mem_def server_builder_ptr_mem_def

text \<open>
  Access through a lens, as access to the field. Updates become updates of the field to a
  value, so that the simplifier normalises sequences of them.
\<close>

lemma hget_lens [simp]:
  "hget connection_heap = h_connection"
  "hget client_builder_heap = h_client_builder"
  "hget server_builder_heap = h_server_builder"
  "hget root_store_heap = h_root_store"
  "hget client_config_heap = h_client_config"
  "hget server_config_heap = h_server_config"
  "hget certified_key_heap = h_certified_key"
  "hget signing_key_heap = h_signing_key"
  "hget client_verifier_heap = h_client_verifier"
  "hget client_verifier_optional_heap = h_client_verifier_optional"
  "hget u8_mem = m_u8"
  "hget u16_mem = m_u16"
  "hget usize_mem = m_usize"
  "hget slice_mem = m_slice"
  "hget suite_mem = m_suite"
  "hget u8_ptr_mem = m_u8_ptr"
  "hget key_ptr_mem = m_key_ptr"
  "hget conn_ptr_mem = m_conn_ptr"
  "hget client_builder_ptr_mem = m_client_builder_ptr"
  "hget server_builder_ptr_mem = m_server_builder_ptr"
  by (simp_all add: heap_lens_defs)

lemma hupd_lens [simp]:
  "hupd connection_heap = h_connection_update"
  "hupd client_builder_heap = h_client_builder_update"
  "hupd server_builder_heap = h_server_builder_update"
  "hupd root_store_heap = h_root_store_update"
  "hupd client_config_heap = h_client_config_update"
  "hupd server_config_heap = h_server_config_update"
  "hupd certified_key_heap = h_certified_key_update"
  "hupd signing_key_heap = h_signing_key_update"
  "hupd client_verifier_heap = h_client_verifier_update"
  "hupd client_verifier_optional_heap = h_client_verifier_optional_update"
  "hupd u8_mem = m_u8_update"
  "hupd u16_mem = m_u16_update"
  "hupd usize_mem = m_usize_update"
  "hupd slice_mem = m_slice_update"
  "hupd suite_mem = m_suite_update"
  "hupd u8_ptr_mem = m_u8_ptr_update"
  "hupd key_ptr_mem = m_key_ptr_update"
  "hupd conn_ptr_mem = m_conn_ptr_update"
  "hupd client_builder_ptr_mem = m_client_builder_ptr_update"
  "hupd server_builder_ptr_mem = m_server_builder_ptr_update"
  by (simp_all add: heap_lens_defs)

lemma hput_lens [simp]:
  "hput connection_heap a0 v0 w = w\<lparr>h_connection := (h_connection w)(a0 \<mapsto> v0)\<rparr>"
  "hput client_builder_heap a1 v1 w = w\<lparr>h_client_builder := (h_client_builder w)(a1 \<mapsto> v1)\<rparr>"
  "hput server_builder_heap a2 v2 w = w\<lparr>h_server_builder := (h_server_builder w)(a2 \<mapsto> v2)\<rparr>"
  "hput root_store_heap a3 v3 w = w\<lparr>h_root_store := (h_root_store w)(a3 \<mapsto> v3)\<rparr>"
  "hput client_config_heap a4 v4 w = w\<lparr>h_client_config := (h_client_config w)(a4 \<mapsto> v4)\<rparr>"
  "hput server_config_heap a5 v5 w = w\<lparr>h_server_config := (h_server_config w)(a5 \<mapsto> v5)\<rparr>"
  "hput certified_key_heap a6 v6 w = w\<lparr>h_certified_key := (h_certified_key w)(a6 \<mapsto> v6)\<rparr>"
  "hput signing_key_heap a7 v7 w = w\<lparr>h_signing_key := (h_signing_key w)(a7 \<mapsto> v7)\<rparr>"
  "hput client_verifier_heap a8 v8 w = w\<lparr>h_client_verifier := (h_client_verifier w)(a8 \<mapsto> v8)\<rparr>"
  "hput client_verifier_optional_heap a9 v9 w = w\<lparr>h_client_verifier_optional := (h_client_verifier_optional w)(a9 \<mapsto> v9)\<rparr>"
  "hput u8_mem a10 v10 w = w\<lparr>m_u8 := (m_u8 w)(a10 \<mapsto> v10)\<rparr>"
  "hput u16_mem a11 v11 w = w\<lparr>m_u16 := (m_u16 w)(a11 \<mapsto> v11)\<rparr>"
  "hput usize_mem a12 v12 w = w\<lparr>m_usize := (m_usize w)(a12 \<mapsto> v12)\<rparr>"
  "hput slice_mem a13 v13 w = w\<lparr>m_slice := (m_slice w)(a13 \<mapsto> v13)\<rparr>"
  "hput suite_mem a14 v14 w = w\<lparr>m_suite := (m_suite w)(a14 \<mapsto> v14)\<rparr>"
  "hput u8_ptr_mem a15 v15 w = w\<lparr>m_u8_ptr := (m_u8_ptr w)(a15 \<mapsto> v15)\<rparr>"
  "hput key_ptr_mem a16 v16 w = w\<lparr>m_key_ptr := (m_key_ptr w)(a16 \<mapsto> v16)\<rparr>"
  "hput conn_ptr_mem a17 v17 w = w\<lparr>m_conn_ptr := (m_conn_ptr w)(a17 \<mapsto> v17)\<rparr>"
  "hput client_builder_ptr_mem a18 v18 w = w\<lparr>m_client_builder_ptr := (m_client_builder_ptr w)(a18 \<mapsto> v18)\<rparr>"
  "hput server_builder_ptr_mem a19 v19 w = w\<lparr>m_server_builder_ptr := (m_server_builder_ptr w)(a19 \<mapsto> v19)\<rparr>"
  by (simp_all add: hput_def heap_lens_defs)

lemma hdel_lens [simp]:
  "hdel connection_heap a w = w\<lparr>h_connection := (h_connection w)(a := None)\<rparr>"
  "hdel client_builder_heap a w = w\<lparr>h_client_builder := (h_client_builder w)(a := None)\<rparr>"
  "hdel server_builder_heap a w = w\<lparr>h_server_builder := (h_server_builder w)(a := None)\<rparr>"
  "hdel root_store_heap a w = w\<lparr>h_root_store := (h_root_store w)(a := None)\<rparr>"
  "hdel client_config_heap a w = w\<lparr>h_client_config := (h_client_config w)(a := None)\<rparr>"
  "hdel server_config_heap a w = w\<lparr>h_server_config := (h_server_config w)(a := None)\<rparr>"
  "hdel certified_key_heap a w = w\<lparr>h_certified_key := (h_certified_key w)(a := None)\<rparr>"
  "hdel signing_key_heap a w = w\<lparr>h_signing_key := (h_signing_key w)(a := None)\<rparr>"
  "hdel client_verifier_heap a w = w\<lparr>h_client_verifier := (h_client_verifier w)(a := None)\<rparr>"
  "hdel client_verifier_optional_heap a w = w\<lparr>h_client_verifier_optional := (h_client_verifier_optional w)(a := None)\<rparr>"
  "hdel u8_mem a w = w\<lparr>m_u8 := (m_u8 w)(a := None)\<rparr>"
  "hdel u16_mem a w = w\<lparr>m_u16 := (m_u16 w)(a := None)\<rparr>"
  "hdel usize_mem a w = w\<lparr>m_usize := (m_usize w)(a := None)\<rparr>"
  "hdel slice_mem a w = w\<lparr>m_slice := (m_slice w)(a := None)\<rparr>"
  "hdel suite_mem a w = w\<lparr>m_suite := (m_suite w)(a := None)\<rparr>"
  "hdel u8_ptr_mem a w = w\<lparr>m_u8_ptr := (m_u8_ptr w)(a := None)\<rparr>"
  "hdel key_ptr_mem a w = w\<lparr>m_key_ptr := (m_key_ptr w)(a := None)\<rparr>"
  "hdel conn_ptr_mem a w = w\<lparr>m_conn_ptr := (m_conn_ptr w)(a := None)\<rparr>"
  "hdel client_builder_ptr_mem a w = w\<lparr>m_client_builder_ptr := (m_client_builder_ptr w)(a := None)\<rparr>"
  "hdel server_builder_ptr_mem a w = w\<lparr>m_server_builder_ptr := (m_server_builder_ptr w)(a := None)\<rparr>"
  by (simp_all add: hdel_def heap_lens_defs)

text \<open>Every part of the state satisfies the laws of typed memory.\<close>

interpretation connections: typed_heap connection_heap by unfold_locales simp_all
interpretation client_builders: typed_heap client_builder_heap by unfold_locales simp_all
interpretation server_builders: typed_heap server_builder_heap by unfold_locales simp_all
interpretation root_stores: typed_heap root_store_heap by unfold_locales simp_all
interpretation client_configs: typed_heap client_config_heap by unfold_locales simp_all
interpretation server_configs: typed_heap server_config_heap by unfold_locales simp_all
interpretation certified_keys: typed_heap certified_key_heap by unfold_locales simp_all
interpretation signing_keys: typed_heap signing_key_heap by unfold_locales simp_all
interpretation client_verifiers: typed_heap client_verifier_heap by unfold_locales simp_all
interpretation client_verifiers_optional: typed_heap client_verifier_optional_heap by unfold_locales simp_all
interpretation u8s: typed_heap u8_mem by unfold_locales simp_all
interpretation usizes: typed_heap usize_mem by unfold_locales simp_all
interpretation key_ptrs: typed_heap key_ptr_mem by unfold_locales simp_all
interpretation conn_ptrs: typed_heap conn_ptr_mem by unfold_locales simp_all

end
