(* ===== verification/Ffi_Panic.thy ===== *)
theory Ffi_Panic
  imports Ffi_World
begin

text \<open>
  What an entry point returns when its body panics or when a pointer argument is null
  (\<open>src/panic.rs\<close>), and the boundary that keeps a panic from unwinding into C.

  The two traits \<open>PanicOrDefault\<close> and \<open>NullParameterOrDefault\<close> are a dictionary of
  two values, one dictionary for each implementation. The blanket implementations for
  \<open>Defaultable\<close> types use the type class \<open>default\<close> of HOL, instantiated for the
  types the sources list (the type \<open>()\<close> has its instance in HOL).
\<close>

section \<open>The dictionaries\<close>

record 'a ffi_ret =
  panic_value :: 'a
  null_value :: 'a

instantiation bool :: default
begin
definition default_bool :: bool where "default_bool = False"
instance ..
end

instantiation word :: (len) default
begin
definition default_word :: "'a word" where "default_word = 0"
instance ..
end

instantiation option :: (type) default
begin
definition default_option :: "'a option" where "default_option = None"
instance ..
end

text \<open>The values of the implementations, in the order of the source.\<close>

definition panic_default :: "'a::default" where "panic_default = default"

definition panic_mut_ptr :: "'a ptr" where "panic_mut_ptr = Null"

definition panic_const_ptr :: "'a ptr" where "panic_const_ptr = Null"

definition panic_rustls_str :: rustls_str where "panic_rustls_str = from_str_unchecked (as_bytes '''')"

type_synonym rustls_io_result = c_int

definition panic_io_result :: rustls_io_result where "panic_io_result = EINVAL"

definition null_parameter_default :: "'a::default" where "null_parameter_default = default"

definition null_parameter_mut_ptr :: "'a ptr" where "null_parameter_mut_ptr = Null"

definition null_parameter_const_ptr :: "'a ptr" where "null_parameter_const_ptr = Null"

definition null_parameter_io_result :: rustls_io_result where "null_parameter_io_result = EINVAL"

definition null_parameter_rustls_str :: rustls_str where
  "null_parameter_rustls_str = from_str_unchecked (as_bytes '''')"

definition defaultable_ret :: "'a::default ffi_ret" where
  "defaultable_ret = \<lparr>panic_value = panic_default, null_value = null_parameter_default\<rparr>"

definition ptr_ret :: "'a ptr ffi_ret" where
  "ptr_ret = \<lparr>panic_value = panic_mut_ptr, null_value = null_parameter_mut_ptr\<rparr>"

definition const_ptr_ret :: "'a ptr ffi_ret" where
  "const_ptr_ret = \<lparr>panic_value = panic_const_ptr, null_value = null_parameter_const_ptr\<rparr>"

definition rustls_str_ret :: "rustls_str ffi_ret" where
  "rustls_str_ret = \<lparr>panic_value = panic_rustls_str, null_value = null_parameter_rustls_str\<rparr>"

definition io_ret :: "rustls_io_result ffi_ret" where
  "io_ret = \<lparr>panic_value = panic_io_result, null_value = null_parameter_io_result\<rparr>"

lemmas ffi_ret_defs [simp] = defaultable_ret_def ptr_ret_def const_ptr_ret_def rustls_str_ret_def io_ret_def
  panic_default_def panic_mut_ptr_def panic_const_ptr_def panic_rustls_str_def panic_io_result_def
  null_parameter_default_def null_parameter_mut_ptr_def null_parameter_const_ptr_def null_parameter_io_result_def
  null_parameter_rustls_str_def default_bool_def default_word_def default_option_def

section \<open>The boundary\<close>

definition ffi_panic_boundary :: "'a ffi_ret \<Rightarrow> ('w, 'a) comp \<Rightarrow> ('w, 'a) comp" where
  "ffi_panic_boundary d body w =
     (case body w of
        Returned ret w' \<Rightarrow> Returned ret w'
      | Unwound w' \<Rightarrow> Returned (panic_value d) w'
      | Undefined \<Rightarrow> Undefined)"

lemma ffi_panic_boundary_no_unwind: "ffi_panic_boundary d body w \<noteq> Unwound w'"
  by (simp add: ffi_panic_boundary_def split: outcome.splits)

lemma ffi_panic_boundary_leaves:
  "leaves P (body w) \<Longrightarrow> leaves P (ffi_panic_boundary d body w)"
  by (cases "body w") (simp_all add: ffi_panic_boundary_def)

lemma ffi_panic_boundary_defined:
  "defined (ffi_panic_boundary d body w) \<longleftrightarrow> defined (body w)"
  by (simp add: ffi_panic_boundary_def split: outcome.splits)

section \<open>The interface of a fallible return type\<close>

text \<open>
  A type that reports failure has a success value that is neither the panic value nor the
  null value. A caller that sees success then knows that no panic was caught on the way.
\<close>

locale fallible_return =
  fixes d :: "'a ffi_ret" and success :: 'a
  assumes panic_is_error: "panic_value d \<noteq> success"
    and null_is_error: "null_value d \<noteq> success"
begin

lemma success_means_completed:
  "ffi_panic_boundary d body w = Returned success w' \<longleftrightarrow> body w = Returned success w'"
  using panic_is_error by (auto simp: ffi_panic_boundary_def split: outcome.splits)

end

interpretation io_fallible: fallible_return io_ret 0
  by unfold_locales (simp_all add: EINVAL_def)

section \<open>The pointer macros\<close>

text \<open>
  \<open>try_ref_from_ptr!\<close>, \<open>try_slice!\<close> and \<open>try_callback!\<close> return the null value from
  the enclosing function when their argument is null; what follows them is their
  continuation. A non-null pointer is dereferenced, which is undefined when nothing lives
  there.
\<close>

definition try_from :: "('w, 'v) heap_lens \<Rightarrow> 'v ptr \<Rightarrow> ('w, 'v option) comp" where
  "try_from L p w =
     (case p of
        Null \<Rightarrow> Returned None w
      | Ptr a \<Rightarrow> (case hget L w a of None \<Rightarrow> Undefined | Some v \<Rightarrow> Returned (Some v) w))"

definition try_ref_from_ptr ::
  "('w, 'v) heap_lens \<Rightarrow> 'r ffi_ret \<Rightarrow> 'v ptr \<Rightarrow> ('v \<Rightarrow> ('w, 'r) comp) \<Rightarrow> ('w, 'r) comp" where
  "try_ref_from_ptr L d p k w =
     and_then (try_from L p w)
       (\<lambda>r w. case r of Some c \<Rightarrow> k c w | None \<Rightarrow> Returned (null_value d) w)"

lemma try_ref_from_ptr_cases:
  "try_ref_from_ptr L d p k w =
     (case p of
        Null \<Rightarrow> Returned (null_value d) w
      | Ptr a \<Rightarrow> (case hget L w a of None \<Rightarrow> Undefined | Some v \<Rightarrow> k v w))"
  by (simp add: try_ref_from_ptr_def try_from_def split: ptr.split option.split)

text \<open>The same for a pointer that was made from an \<open>Arc\<close>.\<close>

definition try_ref_from_arc_ptr ::
  "('w, 'v ArcInner) heap_lens \<Rightarrow> 'r ffi_ret \<Rightarrow> 'v ptr \<Rightarrow> ('v \<Rightarrow> ('w, 'r) comp) \<Rightarrow> ('w, 'r) comp" where
  "try_ref_from_arc_ptr L d p k w =
     (case p of
        Null \<Rightarrow> Returned (null_value d) w
      | Ptr a \<Rightarrow> (case hget L w a of None \<Rightarrow> Undefined | Some i \<Rightarrow> k (arc_data i) w))"

text \<open>A mutable reference is the place and what is in it: the continuation may write to the place.\<close>

definition try_from_mut :: "('w, 'v) heap_lens \<Rightarrow> 'v ptr \<Rightarrow> ('w, (nat \<times> 'v) option) comp" where
  "try_from_mut L p w =
     (case p of
        Null \<Rightarrow> Returned None w
      | Ptr a \<Rightarrow> (case hget L w a of None \<Rightarrow> Undefined | Some v \<Rightarrow> Returned (Some (a, v)) w))"

definition try_mut_from_ptr ::
  "('w, 'v) heap_lens \<Rightarrow> 'r ffi_ret \<Rightarrow> 'v ptr \<Rightarrow> (nat \<Rightarrow> 'v \<Rightarrow> ('w, 'r) comp) \<Rightarrow> ('w, 'r) comp" where
  "try_mut_from_ptr L d p k w =
     and_then (try_from_mut L p w)
       (\<lambda>r w. case r of Some (a, c) \<Rightarrow> k a c w | None \<Rightarrow> Returned (null_value d) w)"

lemma try_mut_from_ptr_cases:
  "try_mut_from_ptr L d p k w =
     (case p of
        Null \<Rightarrow> Returned (null_value d) w
      | Ptr a \<Rightarrow> (case hget L w a of None \<Rightarrow> Undefined | Some v \<Rightarrow> k a v w))"
  by (simp add: try_mut_from_ptr_def try_from_mut_def split: ptr.split option.split)

definition try_slice ::
  "('w, 'e) heap_lens \<Rightarrow> 'r ffi_ret \<Rightarrow> 'e sptr \<Rightarrow> usize \<Rightarrow> ('e list \<Rightarrow> ('w, 'r) comp) \<Rightarrow> ('w, 'r) comp" where
  "try_slice L d p n k w =
     (if p = SNull then Returned (null_value d) w
      else case from_raw_parts L w p n of None \<Rightarrow> Undefined | Some xs \<Rightarrow> k xs w)"

text \<open>\<open>try_mut_slice!\<close>, which no entry point uses: the slice with its place.\<close>

definition try_mut_slice ::
  "('w, 'e) heap_lens \<Rightarrow> 'r ffi_ret \<Rightarrow> 'e ptr \<Rightarrow> usize \<Rightarrow> (nat \<Rightarrow> 'e list \<Rightarrow> ('w, 'r) comp) \<Rightarrow> ('w, 'r) comp" where
  "try_mut_slice L d p n k w =
     (case p of
        Null \<Rightarrow> Returned (null_value d) w
      | Ptr a \<Rightarrow> (case from_raw_parts L w (SMem a) n of None \<Rightarrow> Undefined | Some xs \<Rightarrow> k a xs w))"

definition try_callback ::
  "'r ffi_ret \<Rightarrow> c_fn option \<Rightarrow> (c_fn \<Rightarrow> ('w, 'r) comp) \<Rightarrow> ('w, 'r) comp" where
  "try_callback d cb k w = (case cb of Some c \<Rightarrow> k c w | None \<Rightarrow> Returned (null_value d) w)"

text \<open>\<open>try_ref_from_ptr!\<close> on a pointer to a value the library lends out.\<close>

definition try_ref_from_view :: "'r ffi_ret \<Rightarrow> 'v option \<Rightarrow> ('v \<Rightarrow> ('w, 'r) comp) \<Rightarrow> ('w, 'r) comp" where
  "try_ref_from_view d p k w = (case p of Some v \<Rightarrow> k v w | None \<Rightarrow> Returned (null_value d) w)"

lemma try_ref_from_view_simps [simp]:
  "try_ref_from_view d None k w = Returned (null_value d) w"
  "try_ref_from_view d (Some v) k w = k v w"
  by (simp_all add: try_ref_from_view_def)

lemma try_macros_null [simp]:
  "try_ref_from_ptr L d Null k w = Returned (null_value d) w"
  "try_ref_from_arc_ptr M d Null l w = Returned (null_value d) w"
  "try_mut_from_ptr L d Null m w = Returned (null_value d) w"
  "try_slice S d SNull n s w = Returned (null_value d) w"
  "try_callback d None c w = Returned (null_value d) w"
  by (simp_all add: try_ref_from_ptr_cases try_ref_from_arc_ptr_def try_mut_from_ptr_cases
      try_slice_def try_callback_def)

lemma try_macros_live [simp]:
  "hget L w a = Some v \<Longrightarrow> try_ref_from_ptr L d (Ptr a) k w = k v w"
  "hget M w a = Some i \<Longrightarrow> try_ref_from_arc_ptr M d (Ptr a) l w = l (arc_data i) w"
  "hget L w a = Some v \<Longrightarrow> try_mut_from_ptr L d (Ptr a) m w = m a v w"
  "\<lbrakk>p \<noteq> SNull; from_raw_parts S w p n = Some xs\<rbrakk> \<Longrightarrow> try_slice S d p n s w = s xs w"
  "try_callback d (Some f) c w = c f w"
  by (simp_all add: try_ref_from_ptr_cases try_ref_from_arc_ptr_def try_mut_from_ptr_cases
      try_slice_def try_callback_def)

lemmas try_macro_defs = try_ref_from_ptr_cases try_ref_from_arc_ptr_def try_mut_from_ptr_cases
  try_slice_def try_callback_def

end
