(* ===== verification/Ffi_Casts.thy ===== *)
theory Ffi_Casts
  imports Ffi_Panic
begin

text \<open>
  Ownership across the C boundary (\<open>src/lib.rs\<close>, lines 292-497): boxes and reference
  counted objects that are handed to C as raw pointers and taken back. The traits
  \<open>BoxCastPtr\<close> and \<open>ArcCastPtr\<close> are definitions over the heap lens of the pointee; their
  implementations are the interpretations at the end.
\<close>

section \<open>Boxes\<close>

text \<open>\<open>to_mut_ptr\<close>: \<open>Box::into_raw(Box::new(src))\<close> puts the value at a fresh address.\<close>

definition to_mut_ptr :: "(world, 'v) heap_lens \<Rightarrow> 'v \<Rightarrow> (world, 'v ptr) comp" where
  "to_mut_ptr L src w =
     (let a = next_addr w in Returned (Ptr a) (hput L a src (w\<lparr>next_addr := Suc a\<rparr>)))"

text \<open>
  \<open>to_box\<close>: the caller becomes the owner again, so the object is no longer on the heap;
  a pointer to nothing (a second free) is undefined.
\<close>

definition to_box :: "(world, 'v) heap_lens \<Rightarrow> 'v ptr \<Rightarrow> (world, 'v option) comp" where
  "to_box L p w =
     (case p of
        Null \<Rightarrow> Returned None w
      | Ptr a \<Rightarrow> (case hget L w a of None \<Rightarrow> Undefined | Some v \<Rightarrow> Returned (Some v) (hdel L a w)))"

definition set_mut_ptr ::
  "(world, 'v) heap_lens \<Rightarrow> (world, 'v ptr) heap_lens \<Rightarrow> 'v ptr ptr \<Rightarrow> 'v \<Rightarrow> (world, unit) comp" where
  "set_mut_ptr L C dst src w = and_then (to_mut_ptr L src w) (\<lambda>p w. write_cell C dst p w)"

definition try_box_from :: "(world, 'v) heap_lens \<Rightarrow> 'v ptr \<Rightarrow> (world, 'v option) comp" where
  "try_box_from L p = to_box L p"

definition try_box_from_ptr ::
  "(world, 'v) heap_lens \<Rightarrow> 'r ffi_ret \<Rightarrow> 'v ptr \<Rightarrow> ('v \<Rightarrow> (world, 'r) comp) \<Rightarrow> (world, 'r) comp" where
  "try_box_from_ptr L d p k w =
     and_then (try_box_from L p w)
       (\<lambda>b w. case b of Some v \<Rightarrow> k v w | None \<Rightarrow> Returned (null_value d) w)"

section \<open>Reference counts\<close>

text \<open>
  \<open>to_arc\<close> rebuilds the \<open>Arc\<close> of a raw pointer, clones it and forgets the original:
  the count goes up by one and the raw pointer keeps its own reference. An \<open>Arc\<close> is the
  address of its allocation.
\<close>

definition to_arc :: "(world, 'v ArcInner) heap_lens \<Rightarrow> 'v ptr \<Rightarrow> (world, nat option) comp" where
  "to_arc L p w =
     (case p of
        Null \<Rightarrow> Returned None w
      | Ptr a \<Rightarrow> (case hget L w a of
                   None \<Rightarrow> Undefined
                 | Some i \<Rightarrow> Returned (Some a) (hput L a (i\<lparr>strong := strong i + 1\<rparr>) w)))"

definition to_const_ptr :: "(world, 'v ArcInner) heap_lens \<Rightarrow> 'v \<Rightarrow> (world, 'v ptr) comp" where
  "to_const_ptr L src w =
     (let a = next_addr w
      in Returned (Ptr a) (hput L a \<lparr>strong = 1, arc_data = src\<rparr> (w\<lparr>next_addr := Suc a\<rparr>)))"

text \<open>
  Dropping an \<open>Arc\<close> takes one from the count. The last one releases the allocation; its
  value is the result, since the value's own fields are dropped then.
\<close>

definition arc_drop :: "(world, 'v ArcInner) heap_lens \<Rightarrow> nat \<Rightarrow> (world, 'v option) comp" where
  "arc_drop L a w =
     (case hget L w a of
        None \<Rightarrow> Undefined
      | Some i \<Rightarrow> if strong i \<le> 1 then Returned (Some (arc_data i)) (hdel L a w)
                 else Returned None (hput L a (i\<lparr>strong := strong i - 1\<rparr>) w))"

definition try_arc_from :: "(world, 'v ArcInner) heap_lens \<Rightarrow> 'v ptr \<Rightarrow> (world, nat option) comp" where
  "try_arc_from L p = to_arc L p"

definition try_arc_from_ptr ::
  "(world, 'v ArcInner) heap_lens \<Rightarrow> 'r ffi_ret \<Rightarrow> 'v ptr \<Rightarrow> (nat \<Rightarrow> (world, 'r) comp) \<Rightarrow> (world, 'r) comp" where
  "try_arc_from_ptr L d p k w =
     and_then (try_arc_from L p w)
       (\<lambda>r w. case r of Some a \<Rightarrow> k a w | None \<Rightarrow> Returned (null_value d) w)"

declare try_box_from_def [simp] and try_arc_from_def [simp]

section \<open>The interfaces\<close>

text \<open>Nothing lives at addresses the allocator has not handed out yet.\<close>

definition fresh_above :: "(world, 'v) heap_lens \<Rightarrow> world \<Rightarrow> bool" where
  "fresh_above L w = (\<forall>a. next_addr w \<le> a \<longrightarrow> hget L w a = None)"

text \<open>Every allocation that is still there has a reference.\<close>

definition live_counts :: "(world, 'v ArcInner) heap_lens \<Rightarrow> world \<Rightarrow> bool" where
  "live_counts L w = (\<forall>a i. hget L w a = Some i \<longrightarrow> 0 < strong i)"

lemma live_countsD: "live_counts L w \<Longrightarrow> hget L w a = Some i \<Longrightarrow> strong i \<noteq> 0"
  by (auto simp: live_counts_def)

text \<open>
  The implementers of \<open>CastPtr\<close>: a typed part of the heap that the allocation counter and
  the thread-local stack are independent of.
\<close>

locale cast_ptr = typed_heap L for L :: "(world, 'v) heap_lens" +
  assumes next_addr_upd: "next_addr (hupd L f w) = next_addr w"
    and get_next_addr: "hget L (next_addr_update g w) = hget L w"
    and upd_next_addr: "hupd L f (next_addr_update g w) = next_addr_update g (hupd L f w)"
    and userdata_upd: "USERDATA (hupd L f w) = USERDATA w"
begin

lemma next_addr_hput: "next_addr (hput L a v w) = next_addr w"
  by (simp add: hput_def next_addr_upd)

lemma next_addr_hdel: "next_addr (hdel L a w) = next_addr w"
  by (simp add: hdel_def next_addr_upd)

lemmas frame_simps = next_addr_upd get_next_addr upd_next_addr userdata_upd next_addr_hput next_addr_hdel

end

text \<open>\<open>BoxCastPtr\<close>: what C gets is a box, owned by exactly one side at a time.\<close>

locale box_cast = cast_ptr L for L :: "(world, 'v) heap_lens"
begin

lemma to_mut_ptr_fresh:
  assumes "fresh_above L w" and "to_mut_ptr L v w = Returned p w1"
  shows "p \<noteq> Null" and "fresh_above L w1" and "p = Ptr a \<Longrightarrow> hget L w a = None"
    and "p = Ptr a \<Longrightarrow> hget L w1 = (hget L w)(a \<mapsto> v)"
  using assms by (auto simp: Let_def to_mut_ptr_def fresh_above_def hget_hput frame_simps)

text \<open>Giving an object to C and taking it back returns the object and the heap as it was.\<close>

lemma box_roundtrip:
  assumes "fresh_above L w" and "to_mut_ptr L v w = Returned p w1"
  shows "to_box L p w1 = Returned (Some v) (w\<lparr>next_addr := Suc (next_addr w)\<rparr>)"
  using assms
  by (auto simp: Let_def to_mut_ptr_def to_box_def hget_hput hdel_hput fresh_above_def frame_simps
      intro!: hdel_absent)

text \<open>A box is taken back once: the second time is undefined.\<close>

lemma box_taken_once:
  "\<lbrakk>to_box L p w = Returned (Some v) w1\<rbrakk> \<Longrightarrow> to_box L p w1 = Undefined"
  by (auto simp: to_box_def hget_hdel split: ptr.splits option.splits)

lemma to_box_others:
  "\<lbrakk>to_box L (Ptr a) w = Returned (Some v) w1; b \<noteq> a\<rbrakk> \<Longrightarrow> hget L w1 b = hget L w b"
  by (auto simp: to_box_def hget_hdel split: option.splits)

end

text \<open>\<open>ArcCastPtr\<close>: what C gets is one counted reference.\<close>

primrec arc_retain :: "(world, 'v ArcInner) heap_lens \<Rightarrow> 'v ptr \<Rightarrow> nat \<Rightarrow> (world, unit) comp" where
  "arc_retain L p 0 w = Returned () w"
| "arc_retain L p (Suc n) w = and_then (to_arc L p w) (\<lambda>_ w. arc_retain L p n w)"

locale arc_cast = cast_ptr L for L :: "(world, 'v ArcInner) heap_lens"
begin

lemma to_const_ptr_fresh:
  assumes "fresh_above L w" and "to_const_ptr L v w = Returned p w1"
  shows "p \<noteq> Null" and "fresh_above L w1" and "p = Ptr a \<Longrightarrow> hget L w a = None"
    and "p = Ptr a \<Longrightarrow> hget L w1 = (hget L w)(a \<mapsto> \<lparr>strong = 1, arc_data = v\<rparr>)"
  using assms by (auto simp: Let_def to_const_ptr_def fresh_above_def hget_hput frame_simps)

text \<open>
  Borrowing through \<open>to_arc\<close> and dropping the clone leaves no trace: the reference that C
  holds is not consumed.
\<close>

lemma to_arc_then_drop:
  assumes "to_arc L (Ptr a) w = Returned (Some b) w1" and "hget L w a = Some i" and "0 < strong i"
  shows "b = a" and "arc_drop L b w1 = Returned None w"
  using assms hput_same [of w a i] by (auto simp: to_arc_def arc_drop_def hget_hput hput_hput)

lemma alloc_then_drop:
  assumes "fresh_above L w" and "to_const_ptr L v w = Returned (Ptr a) w1"
  shows "arc_drop L a w1 = Returned (Some v) (w\<lparr>next_addr := Suc (next_addr w)\<rparr>)"
  using assms
  by (auto simp: to_const_ptr_def arc_drop_def Let_def hget_hput hdel_hput fresh_above_def frame_simps
      intro!: hdel_absent)

lemma to_arc_live:
  "hget L w a = Some i \<Longrightarrow> to_arc L (Ptr a) w = Returned (Some a) (hput L a (i\<lparr>strong := strong i + 1\<rparr>) w)"
  by (simp add: to_arc_def)

text \<open>Any number of clones count up; the object outlives C's own reference.\<close>

lemma arc_retain_count:
  "hget L w a = Some i \<Longrightarrow>
     arc_retain L (Ptr a) n w = Returned () (hput L a (i\<lparr>strong := strong i + n\<rparr>) w)"
proof (induction n arbitrary: w i)
  case 0
  then show ?case by (simp add: hput_same)
next
  case (Suc n)
  then show ?case by (simp add: to_arc_live hget_hput hput_hput)
qed

lemma outlives_free:
  assumes "hget L w a = Some i" and "0 < n" and "0 < strong i"
    and "arc_retain L (Ptr a) n w = Returned () w1" and "arc_drop L a w1 = Returned r w2"
  shows "r = None" and "hget L w2 a = Some (i\<lparr>strong := strong i + n - 1\<rparr>)"
  using assms(2-) by (auto simp: arc_retain_count [OF assms(1)] arc_drop_def hget_hput hput_hput
      split: if_splits)

lemma last_drop:
  assumes "hget L w a = Some i" and "strong i = 1"
  shows "arc_drop L a w = Returned (Some (arc_data i)) (hdel L a w)"
  using assms by (simp add: arc_drop_def)

end

section \<open>The implementations\<close>

text \<open>\<open>impl BoxCastPtr for rustls_connection {}\<close> and its kin.\<close>

interpretation connection_box: box_cast connection_heap by unfold_locales simp_all
interpretation client_builder_box: box_cast client_builder_heap by unfold_locales simp_all
interpretation server_builder_box: box_cast server_builder_heap by unfold_locales simp_all
interpretation root_store_box: box_cast root_store_heap by unfold_locales simp_all

text \<open>\<open>impl ArcCastPtr for rustls_client_config {}\<close> and its kin.\<close>

interpretation client_config_arc: arc_cast client_config_heap by unfold_locales simp_all
interpretation server_config_arc: arc_cast server_config_heap by unfold_locales simp_all
interpretation certified_key_arc: arc_cast certified_key_heap by unfold_locales simp_all
interpretation signing_key_arc: arc_cast signing_key_heap by unfold_locales simp_all
interpretation client_verifier_arc: arc_cast client_verifier_heap by unfold_locales simp_all
interpretation client_verifier_optional_arc: arc_cast client_verifier_optional_heap
  by unfold_locales simp_all

section \<open>Lemmas\<close>

lemmas alloc_defs = to_const_ptr_def to_mut_ptr_def Let_def

lemmas entry_defs = ffi_panic_boundary_def try_macro_defs try_ref_from_view_def

lemma arc_drop_leaves_userdata:
  "leaves (\<lambda>w'. USERDATA w' = USERDATA w) (arc_drop certified_key_heap a w)"
  "leaves (\<lambda>w'. USERDATA w' = USERDATA w) (arc_drop signing_key_heap a w)"
  by (simp_all add: arc_drop_def split: option.splits)

end
