(* ===== verification/Ffi_Error.thy ===== *)
theory Ffi_Error
  imports Ffi_Panic
begin

text \<open>
  Result codes and error messages (\<open>src/error.rs\<close>): the enum \<open>rustls_result\<close> with its
  numeric codes, the translation of rustls errors into codes and of certificate codes back
  into rustls errors, the messages, and the entry point that copies a message to C.

  The error types of rustls and of the sct crate appear with the constructors the sources
  match on; fields that every match ignores are opaque. How rustls renders its own errors
  (\<open>Display for rustls::Error\<close>) is the parameter \<open>fmt_Error\<close>.
\<close>

section \<open>Result codes\<close>

datatype (plugins only: code size) rustls_result =
    Ok | Io | NullParameter | InvalidDnsNameError | Panic | CertificateParseError
    | PrivateKeyParseError | InsufficientSize | NotFound | InvalidParameter | UnexpectedEof
    | PlaintextEmpty | CorruptMessage | NoCertificatesPresented | DecryptError
    | FailedToGetCurrentTime | FailedToGetRandomBytes | HandshakeNotComplete
    | PeerSentOversizedRecord | NoApplicationProtocol | BadMaxFragmentSize | UnsupportedNameType
    | EncryptError | CertInvalidEncoding | CertInvalidSignatureType | CertInvalidSignature
    | CertInvalidData | PeerIncompatibleError | PeerMisbehavedError | InappropriateMessage
    | InappropriateHandshakeMessage | CorruptMessagePayload | General | AlertCloseNotify
    | AlertUnexpectedMessage | AlertBadRecordMac | AlertDecryptionFailed | AlertRecordOverflow
    | AlertDecompressionFailure | AlertHandshakeFailure | AlertNoCertificate
    | AlertBadCertificate | AlertUnsupportedCertificate | AlertCertificateRevoked
    | AlertCertificateExpired | AlertCertificateUnknown | AlertIllegalParameter | AlertUnknownCA
    | AlertAccessDenied | AlertDecodeError | AlertDecryptError | AlertExportRestriction
    | AlertProtocolVersion | AlertInsufficientSecurity | AlertInternalError
    | AlertInappropriateFallback | AlertUserCanceled | AlertNoRenegotiation
    | AlertMissingExtension | AlertUnsupportedExtension | AlertCertificateUnobtainable
    | AlertUnrecognisedName | AlertBadCertificateStatusResponse | AlertBadCertificateHashValue
    | AlertUnknownPSKIdentity | AlertCertificateRequired | AlertNoApplicationProtocol
    | AlertUnknown | CertSCTMalformed | CertSCTInvalidSignature | CertSCTTimestampInFuture
    | CertSCTUnsupportedVersion | CertSCTUnknownLog

text \<open>The discriminants, as C sees them.\<close>

primrec discriminant :: "rustls_result \<Rightarrow> u32" where
  "discriminant Ok = 7000"
| "discriminant Io = 7001"
| "discriminant NullParameter = 7002"
| "discriminant InvalidDnsNameError = 7003"
| "discriminant Panic = 7004"
| "discriminant CertificateParseError = 7005"
| "discriminant PrivateKeyParseError = 7006"
| "discriminant InsufficientSize = 7007"
| "discriminant NotFound = 7008"
| "discriminant InvalidParameter = 7009"
| "discriminant UnexpectedEof = 7010"
| "discriminant PlaintextEmpty = 7011"
| "discriminant CorruptMessage = 7100"
| "discriminant NoCertificatesPresented = 7101"
| "discriminant DecryptError = 7102"
| "discriminant FailedToGetCurrentTime = 7103"
| "discriminant FailedToGetRandomBytes = 7113"
| "discriminant HandshakeNotComplete = 7104"
| "discriminant PeerSentOversizedRecord = 7105"
| "discriminant NoApplicationProtocol = 7106"
| "discriminant BadMaxFragmentSize = 7114"
| "discriminant UnsupportedNameType = 7115"
| "discriminant EncryptError = 7116"
| "discriminant CertInvalidEncoding = 7117"
| "discriminant CertInvalidSignatureType = 7118"
| "discriminant CertInvalidSignature = 7119"
| "discriminant CertInvalidData = 7120"
| "discriminant PeerIncompatibleError = 7107"
| "discriminant PeerMisbehavedError = 7108"
| "discriminant InappropriateMessage = 7109"
| "discriminant InappropriateHandshakeMessage = 7110"
| "discriminant CorruptMessagePayload = 7111"
| "discriminant General = 7112"
| "discriminant AlertCloseNotify = 7200"
| "discriminant AlertUnexpectedMessage = 7201"
| "discriminant AlertBadRecordMac = 7202"
| "discriminant AlertDecryptionFailed = 7203"
| "discriminant AlertRecordOverflow = 7204"
| "discriminant AlertDecompressionFailure = 7205"
| "discriminant AlertHandshakeFailure = 7206"
| "discriminant AlertNoCertificate = 7207"
| "discriminant AlertBadCertificate = 7208"
| "discriminant AlertUnsupportedCertificate = 7209"
| "discriminant AlertCertificateRevoked = 7210"
| "discriminant AlertCertificateExpired = 7211"
| "discriminant AlertCertificateUnknown = 7212"
| "discriminant AlertIllegalParameter = 7213"
| "discriminant AlertUnknownCA = 7214"
| "discriminant AlertAccessDenied = 7215"
| "discriminant AlertDecodeError = 7216"
| "discriminant AlertDecryptError = 7217"
| "discriminant AlertExportRestriction = 7218"
| "discriminant AlertProtocolVersion = 7219"
| "discriminant AlertInsufficientSecurity = 7220"
| "discriminant AlertInternalError = 7221"
| "discriminant AlertInappropriateFallback = 7222"
| "discriminant AlertUserCanceled = 7223"
| "discriminant AlertNoRenegotiation = 7224"
| "discriminant AlertMissingExtension = 7225"
| "discriminant AlertUnsupportedExtension = 7226"
| "discriminant AlertCertificateUnobtainable = 7227"
| "discriminant AlertUnrecognisedName = 7228"
| "discriminant AlertBadCertificateStatusResponse = 7229"
| "discriminant AlertBadCertificateHashValue = 7230"
| "discriminant AlertUnknownPSKIdentity = 7231"
| "discriminant AlertCertificateRequired = 7232"
| "discriminant AlertNoApplicationProtocol = 7233"
| "discriminant AlertUnknown = 7234"
| "discriminant CertSCTMalformed = 7319"
| "discriminant CertSCTInvalidSignature = 7320"
| "discriminant CertSCTTimestampInFuture = 7321"
| "discriminant CertSCTUnsupportedVersion = 7322"
| "discriminant CertSCTUnknownLog = 7323"

definition rustls_result_all :: "rustls_result list" where
  "rustls_result_all =
     [Ok, Io, NullParameter, InvalidDnsNameError, Panic, CertificateParseError
     , PrivateKeyParseError, InsufficientSize, NotFound, InvalidParameter, UnexpectedEof
     , PlaintextEmpty, CorruptMessage, NoCertificatesPresented, DecryptError
     , FailedToGetCurrentTime, FailedToGetRandomBytes, HandshakeNotComplete
     , PeerSentOversizedRecord, NoApplicationProtocol, BadMaxFragmentSize, UnsupportedNameType
     , EncryptError, CertInvalidEncoding, CertInvalidSignatureType, CertInvalidSignature
     , CertInvalidData, PeerIncompatibleError, PeerMisbehavedError, InappropriateMessage
     , InappropriateHandshakeMessage, CorruptMessagePayload, General, AlertCloseNotify
     , AlertUnexpectedMessage, AlertBadRecordMac, AlertDecryptionFailed, AlertRecordOverflow
     , AlertDecompressionFailure, AlertHandshakeFailure, AlertNoCertificate, AlertBadCertificate
     , AlertUnsupportedCertificate, AlertCertificateRevoked, AlertCertificateExpired
     , AlertCertificateUnknown, AlertIllegalParameter, AlertUnknownCA, AlertAccessDenied
     , AlertDecodeError, AlertDecryptError, AlertExportRestriction, AlertProtocolVersion
     , AlertInsufficientSecurity, AlertInternalError, AlertInappropriateFallback
     , AlertUserCanceled, AlertNoRenegotiation, AlertMissingExtension, AlertUnsupportedExtension
     , AlertCertificateUnobtainable, AlertUnrecognisedName, AlertBadCertificateStatusResponse
     , AlertBadCertificateHashValue, AlertUnknownPSKIdentity, AlertCertificateRequired
     , AlertNoApplicationProtocol, AlertUnknown, CertSCTMalformed, CertSCTInvalidSignature
     , CertSCTTimestampInFuture, CertSCTUnsupportedVersion, CertSCTUnknownLog]"

lemma rustls_result_all_complete: "r \<in> set rustls_result_all"
  by (cases r) (simp_all add: rustls_result_all_def)

lemma distinct_discriminants: "distinct (map discriminant rustls_result_all)"
  by (simp add: rustls_result_all_def)

text \<open>The enum is finite, so statements about all codes can be evaluated.\<close>

instantiation rustls_result :: enum
begin

definition enum_rustls_result :: "rustls_result list" where
  "enum_rustls_result = rustls_result_all"

definition enum_all_rustls_result :: "(rustls_result \<Rightarrow> bool) \<Rightarrow> bool" where
  "enum_all_rustls_result P = list_all P rustls_result_all"

definition enum_ex_rustls_result :: "(rustls_result \<Rightarrow> bool) \<Rightarrow> bool" where
  "enum_ex_rustls_result P = list_ex P rustls_result_all"

instance
proof
  show "(UNIV :: rustls_result set) = set enum_class.enum"
    using rustls_result_all_complete by (auto simp: enum_rustls_result_def)
  show "distinct (enum_class.enum :: rustls_result list)"
    using distinct_discriminants by (simp add: enum_rustls_result_def distinct_map)
  show "enum_class.enum_all P = Ball (UNIV :: rustls_result set) P" for P
    using rustls_result_all_complete by (auto simp: enum_all_rustls_result_def list_all_iff)
  show "enum_class.enum_ex P = Bex (UNIV :: rustls_result set) P" for P
    using rustls_result_all_complete by (auto simp: enum_ex_rustls_result_def list_ex_iff)
qed

end

text \<open>\<open>rustls_result::try_from(u32)\<close>, derived from the discriminants.\<close>

definition rustls_result_try_from :: "u32 \<Rightarrow> rustls_result option" where
  "rustls_result_try_from n = find (\<lambda>r. discriminant r = n) rustls_result_all"

definition panic_result :: rustls_result where "panic_result = Panic"

definition null_parameter_result :: rustls_result where "null_parameter_result = NullParameter"

definition rr_ret :: "rustls_result ffi_ret" where
  "rr_ret = \<lparr>panic_value = panic_result, null_value = null_parameter_result\<rparr>"

lemma rr_ret_simps [simp]: "panic_value rr_ret = Panic" "null_value rr_ret = NullParameter"
  by (simp_all add: rr_ret_def panic_result_def null_parameter_result_def)

interpretation rr_fallible: fallible_return rr_ret Ok
  by unfold_locales simp_all

section \<open>Errors of rustls\<close>

datatype (plugins only: code size) AlertDescription =
    alert_CloseNotify | alert_UnexpectedMessage | alert_BadRecordMac | alert_DecryptionFailed
    | alert_RecordOverflow | alert_DecompressionFailure | alert_HandshakeFailure
    | alert_NoCertificate | alert_BadCertificate | alert_UnsupportedCertificate
    | alert_CertificateRevoked | alert_CertificateExpired | alert_CertificateUnknown
    | alert_IllegalParameter | alert_UnknownCA | alert_AccessDenied | alert_DecodeError
    | alert_DecryptError | alert_ExportRestriction | alert_ProtocolVersion
    | alert_InsufficientSecurity | alert_InternalError | alert_InappropriateFallback
    | alert_UserCanceled | alert_NoRenegotiation | alert_MissingExtension
    | alert_UnsupportedExtension | alert_CertificateUnobtainable | alert_UnrecognisedName
    | alert_BadCertificateStatusResponse | alert_BadCertificateHashValue
    | alert_UnknownPSKIdentity | alert_CertificateRequired | alert_NoApplicationProtocol
    | alert_Unknown u8

datatype sct_Error =
    sct_MalformedSct | sct_InvalidSignature | sct_TimestampInFuture | sct_UnsupportedSctVersion
    | sct_UnknownLog

datatype (plugins only: code size) rustls_Error =
    Error_InappropriateMessage nat | Error_InappropriateHandshakeMessage nat
    | Error_CorruptMessage | Error_CorruptMessagePayload nat | Error_NoCertificatesPresented
    | Error_DecryptError | Error_PeerIncompatibleError string | Error_PeerMisbehavedError string
    | Error_UnsupportedNameType | Error_EncryptError | Error_FailedToGetCurrentTime
    | Error_FailedToGetRandomBytes | Error_HandshakeNotComplete | Error_PeerSentOversizedRecord
    | Error_NoApplicationProtocol | Error_BadMaxFragmentSize | Error_InvalidCertificateEncoding
    | Error_InvalidCertificateSignatureType | Error_InvalidCertificateSignature
    | Error_InvalidCertificateData string | Error_General string
    | Error_AlertReceived AlertDescription | Error_InvalidSct sct_Error

section \<open>Translation between codes and errors\<close>

definition rustls_result_is_cert_error :: "u32 \<Rightarrow> bool" where
  "rustls_result_is_cert_error n =
     (case (case rustls_result_try_from n of Some r \<Rightarrow> r | None \<Rightarrow> InvalidParameter) of
        CertInvalidEncoding \<Rightarrow> True
      | CertInvalidSignatureType \<Rightarrow> True
      | CertInvalidSignature \<Rightarrow> True
      | CertInvalidData \<Rightarrow> True
      | CertSCTMalformed \<Rightarrow> True
      | CertSCTInvalidSignature \<Rightarrow> True
      | CertSCTTimestampInFuture \<Rightarrow> True
      | CertSCTUnsupportedVersion \<Rightarrow> True
      | CertSCTUnknownLog \<Rightarrow> True
      | _ \<Rightarrow> False)"

definition cert_result_to_error :: "rustls_result \<Rightarrow> rustls_Error" where
  "cert_result_to_error r =
     (case r of
        CertInvalidEncoding \<Rightarrow> Error_InvalidCertificateEncoding
      | CertInvalidSignatureType \<Rightarrow> Error_InvalidCertificateSignatureType
      | CertInvalidSignature \<Rightarrow> Error_InvalidCertificateSignature
      | CertInvalidData \<Rightarrow> Error_InvalidCertificateData ''''
      | CertSCTMalformed \<Rightarrow> Error_InvalidSct sct_MalformedSct
      | CertSCTInvalidSignature \<Rightarrow> Error_InvalidSct sct_InvalidSignature
      | CertSCTTimestampInFuture \<Rightarrow> Error_InvalidSct sct_TimestampInFuture
      | CertSCTUnsupportedVersion \<Rightarrow> Error_InvalidSct sct_UnsupportedSctVersion
      | CertSCTUnknownLog \<Rightarrow> Error_InvalidSct sct_UnknownLog
      | _ \<Rightarrow> Error_General '''')"

primrec map_alert :: "AlertDescription \<Rightarrow> rustls_result" where
  "map_alert alert_CloseNotify = AlertCloseNotify"
| "map_alert alert_UnexpectedMessage = AlertUnexpectedMessage"
| "map_alert alert_BadRecordMac = AlertBadRecordMac"
| "map_alert alert_DecryptionFailed = AlertDecryptionFailed"
| "map_alert alert_RecordOverflow = AlertRecordOverflow"
| "map_alert alert_DecompressionFailure = AlertDecompressionFailure"
| "map_alert alert_HandshakeFailure = AlertHandshakeFailure"
| "map_alert alert_NoCertificate = AlertNoCertificate"
| "map_alert alert_BadCertificate = AlertBadCertificate"
| "map_alert alert_UnsupportedCertificate = AlertUnsupportedCertificate"
| "map_alert alert_CertificateRevoked = AlertCertificateRevoked"
| "map_alert alert_CertificateExpired = AlertCertificateExpired"
| "map_alert alert_CertificateUnknown = AlertCertificateUnknown"
| "map_alert alert_IllegalParameter = AlertIllegalParameter"
| "map_alert alert_UnknownCA = AlertUnknownCA"
| "map_alert alert_AccessDenied = AlertAccessDenied"
| "map_alert alert_DecodeError = AlertDecodeError"
| "map_alert alert_DecryptError = AlertDecryptError"
| "map_alert alert_ExportRestriction = AlertExportRestriction"
| "map_alert alert_ProtocolVersion = AlertProtocolVersion"
| "map_alert alert_InsufficientSecurity = AlertInsufficientSecurity"
| "map_alert alert_InternalError = AlertInternalError"
| "map_alert alert_InappropriateFallback = AlertInappropriateFallback"
| "map_alert alert_UserCanceled = AlertUserCanceled"
| "map_alert alert_NoRenegotiation = AlertNoRenegotiation"
| "map_alert alert_MissingExtension = AlertMissingExtension"
| "map_alert alert_UnsupportedExtension = AlertUnsupportedExtension"
| "map_alert alert_CertificateUnobtainable = AlertCertificateUnobtainable"
| "map_alert alert_UnrecognisedName = AlertUnrecognisedName"
| "map_alert alert_BadCertificateStatusResponse = AlertBadCertificateStatusResponse"
| "map_alert alert_BadCertificateHashValue = AlertBadCertificateHashValue"
| "map_alert alert_UnknownPSKIdentity = AlertUnknownPSKIdentity"
| "map_alert alert_CertificateRequired = AlertCertificateRequired"
| "map_alert alert_NoApplicationProtocol = AlertNoApplicationProtocol"
| "map_alert (alert_Unknown v) = AlertUnknown"

primrec map_sct :: "sct_Error \<Rightarrow> rustls_result" where
  "map_sct sct_MalformedSct = CertSCTMalformed"
| "map_sct sct_InvalidSignature = CertSCTInvalidSignature"
| "map_sct sct_TimestampInFuture = CertSCTTimestampInFuture"
| "map_sct sct_UnsupportedSctVersion = CertSCTUnsupportedVersion"
| "map_sct sct_UnknownLog = CertSCTUnknownLog"

primrec map_error :: "rustls_Error \<Rightarrow> rustls_result" where
  "map_error (Error_InappropriateMessage x) = InappropriateMessage"
| "map_error (Error_InappropriateHandshakeMessage x) = InappropriateHandshakeMessage"
| "map_error Error_CorruptMessage = CorruptMessage"
| "map_error (Error_CorruptMessagePayload x) = CorruptMessagePayload"
| "map_error Error_NoCertificatesPresented = NoCertificatesPresented"
| "map_error Error_DecryptError = DecryptError"
| "map_error (Error_PeerIncompatibleError x) = PeerIncompatibleError"
| "map_error (Error_PeerMisbehavedError x) = PeerMisbehavedError"
| "map_error Error_UnsupportedNameType = UnsupportedNameType"
| "map_error Error_EncryptError = EncryptError"
| "map_error Error_FailedToGetCurrentTime = FailedToGetCurrentTime"
| "map_error Error_FailedToGetRandomBytes = FailedToGetRandomBytes"
| "map_error Error_HandshakeNotComplete = HandshakeNotComplete"
| "map_error Error_PeerSentOversizedRecord = PeerSentOversizedRecord"
| "map_error Error_NoApplicationProtocol = NoApplicationProtocol"
| "map_error Error_BadMaxFragmentSize = BadMaxFragmentSize"
| "map_error Error_InvalidCertificateEncoding = CertInvalidEncoding"
| "map_error Error_InvalidCertificateSignatureType = CertInvalidSignatureType"
| "map_error Error_InvalidCertificateSignature = CertInvalidSignature"
| "map_error (Error_InvalidCertificateData x) = CertInvalidData"
| "map_error (Error_General x) = General"
| "map_error (Error_AlertReceived e) = map_alert e"
| "map_error (Error_InvalidSct e) = map_sct e"

section \<open>Messages\<close>

primrec rustls_result_fmt :: "(rustls_Error \<Rightarrow> string) \<Rightarrow> rustls_result \<Rightarrow> string" where
  "rustls_result_fmt fmt_Error Ok = ''OK''"
| "rustls_result_fmt fmt_Error Io = ''I/O error''"
| "rustls_result_fmt fmt_Error NullParameter = ''a parameter was NULL''"
| "rustls_result_fmt fmt_Error InvalidDnsNameError =
     ''hostname was either malformed or an IP address (rustls does not support certificates for IP addresses)''"
| "rustls_result_fmt fmt_Error Panic = ''a Rust component panicked''"
| "rustls_result_fmt fmt_Error CertificateParseError = ''error parsing certificate''"
| "rustls_result_fmt fmt_Error PrivateKeyParseError = ''error parsing private key''"
| "rustls_result_fmt fmt_Error InsufficientSize = ''provided buffer is of insufficient size''"
| "rustls_result_fmt fmt_Error NotFound = ''the item was not found''"
| "rustls_result_fmt fmt_Error InvalidParameter = ''a parameter had an invalid value''"
| "rustls_result_fmt fmt_Error CertInvalidData = ''invalid certificate data found''"
| "rustls_result_fmt fmt_Error UnexpectedEof = ''unexpected EOF''"
| "rustls_result_fmt fmt_Error PlaintextEmpty =
     ''no plaintext available; call rustls_connection_read_tls again''"
| "rustls_result_fmt fmt_Error InappropriateMessage = ''received unexpected message''"
| "rustls_result_fmt fmt_Error InappropriateHandshakeMessage = ''received unexpected handshake message''"
| "rustls_result_fmt fmt_Error CorruptMessagePayload = ''received corrupt message''"
| "rustls_result_fmt fmt_Error PeerIncompatibleError = ''peer is incompatible''"
| "rustls_result_fmt fmt_Error PeerMisbehavedError = ''peer misbehaved''"
| "rustls_result_fmt fmt_Error General = ''general error''"
| "rustls_result_fmt fmt_Error CorruptMessage = fmt_Error Error_CorruptMessage"
| "rustls_result_fmt fmt_Error NoCertificatesPresented = fmt_Error Error_NoCertificatesPresented"
| "rustls_result_fmt fmt_Error DecryptError = fmt_Error Error_DecryptError"
| "rustls_result_fmt fmt_Error FailedToGetCurrentTime = fmt_Error Error_FailedToGetCurrentTime"
| "rustls_result_fmt fmt_Error FailedToGetRandomBytes = fmt_Error Error_FailedToGetRandomBytes"
| "rustls_result_fmt fmt_Error HandshakeNotComplete = fmt_Error Error_HandshakeNotComplete"
| "rustls_result_fmt fmt_Error PeerSentOversizedRecord = fmt_Error Error_PeerSentOversizedRecord"
| "rustls_result_fmt fmt_Error NoApplicationProtocol = fmt_Error Error_NoApplicationProtocol"
| "rustls_result_fmt fmt_Error BadMaxFragmentSize = fmt_Error Error_BadMaxFragmentSize"
| "rustls_result_fmt fmt_Error UnsupportedNameType = fmt_Error Error_UnsupportedNameType"
| "rustls_result_fmt fmt_Error EncryptError = fmt_Error Error_EncryptError"
| "rustls_result_fmt fmt_Error CertInvalidEncoding = fmt_Error Error_InvalidCertificateEncoding"
| "rustls_result_fmt fmt_Error CertInvalidSignatureType = fmt_Error Error_InvalidCertificateSignatureType"
| "rustls_result_fmt fmt_Error CertInvalidSignature = fmt_Error Error_InvalidCertificateSignature"
| "rustls_result_fmt fmt_Error AlertCloseNotify = fmt_Error (Error_AlertReceived alert_CloseNotify)"
| "rustls_result_fmt fmt_Error AlertUnexpectedMessage = fmt_Error (Error_AlertReceived alert_UnexpectedMessage)"
| "rustls_result_fmt fmt_Error AlertBadRecordMac = fmt_Error (Error_AlertReceived alert_BadRecordMac)"
| "rustls_result_fmt fmt_Error AlertDecryptionFailed = fmt_Error (Error_AlertReceived alert_DecryptionFailed)"
| "rustls_result_fmt fmt_Error AlertRecordOverflow = fmt_Error (Error_AlertReceived alert_RecordOverflow)"
| "rustls_result_fmt fmt_Error AlertDecompressionFailure = fmt_Error (Error_AlertReceived alert_DecompressionFailure)"
| "rustls_result_fmt fmt_Error AlertHandshakeFailure = fmt_Error (Error_AlertReceived alert_HandshakeFailure)"
| "rustls_result_fmt fmt_Error AlertNoCertificate = fmt_Error (Error_AlertReceived alert_NoCertificate)"
| "rustls_result_fmt fmt_Error AlertBadCertificate = fmt_Error (Error_AlertReceived alert_BadCertificate)"
| "rustls_result_fmt fmt_Error AlertUnsupportedCertificate =
     fmt_Error (Error_AlertReceived alert_UnsupportedCertificate)"
| "rustls_result_fmt fmt_Error AlertCertificateRevoked = fmt_Error (Error_AlertReceived alert_CertificateRevoked)"
| "rustls_result_fmt fmt_Error AlertCertificateExpired = fmt_Error (Error_AlertReceived alert_CertificateExpired)"
| "rustls_result_fmt fmt_Error AlertCertificateUnknown = fmt_Error (Error_AlertReceived alert_CertificateUnknown)"
| "rustls_result_fmt fmt_Error AlertIllegalParameter = fmt_Error (Error_AlertReceived alert_IllegalParameter)"
| "rustls_result_fmt fmt_Error AlertUnknownCA = fmt_Error (Error_AlertReceived alert_UnknownCA)"
| "rustls_result_fmt fmt_Error AlertAccessDenied = fmt_Error (Error_AlertReceived alert_AccessDenied)"
| "rustls_result_fmt fmt_Error AlertDecodeError = fmt_Error (Error_AlertReceived alert_DecodeError)"
| "rustls_result_fmt fmt_Error AlertDecryptError = fmt_Error (Error_AlertReceived alert_DecryptError)"
| "rustls_result_fmt fmt_Error AlertExportRestriction = fmt_Error (Error_AlertReceived alert_ExportRestriction)"
| "rustls_result_fmt fmt_Error AlertProtocolVersion = fmt_Error (Error_AlertReceived alert_ProtocolVersion)"
| "rustls_result_fmt fmt_Error AlertInsufficientSecurity = fmt_Error (Error_AlertReceived alert_InsufficientSecurity)"
| "rustls_result_fmt fmt_Error AlertInternalError = fmt_Error (Error_AlertReceived alert_InternalError)"
| "rustls_result_fmt fmt_Error AlertInappropriateFallback = fmt_Error (Error_AlertReceived alert_InappropriateFallback)"
| "rustls_result_fmt fmt_Error AlertUserCanceled = fmt_Error (Error_AlertReceived alert_UserCanceled)"
| "rustls_result_fmt fmt_Error AlertNoRenegotiation = fmt_Error (Error_AlertReceived alert_NoRenegotiation)"
| "rustls_result_fmt fmt_Error AlertMissingExtension = fmt_Error (Error_AlertReceived alert_MissingExtension)"
| "rustls_result_fmt fmt_Error AlertUnsupportedExtension = fmt_Error (Error_AlertReceived alert_UnsupportedExtension)"
| "rustls_result_fmt fmt_Error AlertCertificateUnobtainable =
     fmt_Error (Error_AlertReceived alert_CertificateUnobtainable)"
| "rustls_result_fmt fmt_Error AlertUnrecognisedName = fmt_Error (Error_AlertReceived alert_UnrecognisedName)"
| "rustls_result_fmt fmt_Error AlertBadCertificateStatusResponse =
     fmt_Error (Error_AlertReceived alert_BadCertificateStatusResponse)"
| "rustls_result_fmt fmt_Error AlertBadCertificateHashValue =
     fmt_Error (Error_AlertReceived alert_BadCertificateHashValue)"
| "rustls_result_fmt fmt_Error AlertUnknownPSKIdentity = fmt_Error (Error_AlertReceived alert_UnknownPSKIdentity)"
| "rustls_result_fmt fmt_Error AlertCertificateRequired = fmt_Error (Error_AlertReceived alert_CertificateRequired)"
| "rustls_result_fmt fmt_Error AlertNoApplicationProtocol = fmt_Error (Error_AlertReceived alert_NoApplicationProtocol)"
| "rustls_result_fmt fmt_Error AlertUnknown = fmt_Error (Error_AlertReceived (alert_Unknown 0))"
| "rustls_result_fmt fmt_Error CertSCTMalformed = fmt_Error (Error_InvalidSct sct_MalformedSct)"
| "rustls_result_fmt fmt_Error CertSCTInvalidSignature = fmt_Error (Error_InvalidSct sct_InvalidSignature)"
| "rustls_result_fmt fmt_Error CertSCTTimestampInFuture = fmt_Error (Error_InvalidSct sct_TimestampInFuture)"
| "rustls_result_fmt fmt_Error CertSCTUnsupportedVersion = fmt_Error (Error_InvalidSct sct_UnsupportedSctVersion)"
| "rustls_result_fmt fmt_Error CertSCTUnknownLog = fmt_Error (Error_InvalidSct sct_UnknownLog)"

text \<open>The message of a number: unknown numbers count as \<open>InvalidParameter\<close>.\<close>

definition error_message :: "(rustls_Error \<Rightarrow> string) \<Rightarrow> u32 \<Rightarrow> bytes" where
  "error_message fmt_Error result =
     as_bytes (rustls_result_fmt fmt_Error
       (case rustls_result_try_from result of Some r \<Rightarrow> r | None \<Rightarrow> InvalidParameter))"

text \<open>
  \<open>rustls_error\<close> copies the message of a code. The subtraction \<open>len - 1\<close> is on
  \<open>usize\<close>: with overflow checks (a debug build) it panics for \<open>len = 0\<close>, without
  them (a release build) it wraps around.
\<close>

definition rustls_error ::
  "(rustls_Error \<Rightarrow> string) \<Rightarrow> bool \<Rightarrow> u32 \<Rightarrow> u8 ptr \<Rightarrow> usize \<Rightarrow> usize ptr \<Rightarrow> (world, unit) comp" where
  "rustls_error fmt_Error overflow_checks result buf len out_n =
     ffi_panic_boundary defaultable_ret (\<lambda>w.
       if is_null buf then Returned () w
       else if is_null out_n then Returned () w
       else
         let error_str = error_message fmt_Error result
         in if overflow_checks \<and> len = 0 then Unwound w
            else
              let out_len = min (len - 1) (of_nat (length error_str))
              in and_then (copy_to u8_mem buf (take (unat out_len) error_str) w)
                   (\<lambda>_ w. write_cell usize_mem out_n out_len w))"

section \<open>Lemmas\<close>

lemma discriminant_inj: "discriminant r = discriminant s \<longleftrightarrow> r = s"
  using distinct_discriminants rustls_result_all_complete
  by (auto simp: distinct_map inj_on_def)

lemma try_from_Some_iff: "rustls_result_try_from n = Some r \<longleftrightarrow> discriminant r = n"
proof
  assume "rustls_result_try_from n = Some r"
  then show "discriminant r = n"
    by (auto simp: rustls_result_try_from_def find_Some_iff)
next
  assume n: "discriminant r = n"
  have "rustls_result_try_from n \<noteq> None"
    using rustls_result_all_complete [of r] n
    by (auto simp: rustls_result_try_from_def find_None_iff)
  then obtain s where s: "rustls_result_try_from n = Some s" by blast
  then have "discriminant s = discriminant r"
    using n by (auto simp: rustls_result_try_from_def find_Some_iff)
  with s show "rustls_result_try_from n = Some r"
    by (simp add: discriminant_inj)
qed

lemma try_from_discriminant [simp]: "rustls_result_try_from (discriminant r) = Some r"
  by (simp add: try_from_Some_iff)

lemma case_Ok: "(case r of Ok \<Rightarrow> a | _ \<Rightarrow> b) = (if r = Ok then a else b)"
  by (cases r) simp_all

lemma try_from_Ok_iff:
  "(case rustls_result_try_from c of Some r \<Rightarrow> r | None \<Rightarrow> General) = Ok \<longleftrightarrow> c = discriminant Ok"
proof -
  have "General \<noteq> Ok" by simp
  then show ?thesis
    by (cases "rustls_result_try_from c") (metis option.simps(4,5) try_from_Some_iff)+
qed

lemma is_cert_error_discriminant:
  "rustls_result_is_cert_error (discriminant r) \<longleftrightarrow>
     r \<in> {CertInvalidEncoding, CertInvalidSignatureType, CertInvalidSignature, CertInvalidData,
          CertSCTMalformed, CertSCTInvalidSignature, CertSCTTimestampInFuture,
          CertSCTUnsupportedVersion, CertSCTUnknownLog}"
  by (cases r) (simp_all add: rustls_result_is_cert_error_def del: discriminant.simps)

lemma is_cert_error_unknown:
  "rustls_result_try_from n = None \<Longrightarrow> \<not> rustls_result_is_cert_error n"
  by (simp add: rustls_result_is_cert_error_def)

lemma min_word_of_nat:
  assumes "n < 2 ^ 64"
  shows "unat (min len (of_nat n) :: usize) = min (unat len) n"
  using assms by (simp add: min_def word_le_nat_alt unat_of_nat)

lemma error_message_ok: "error_message fmt_Error 7000 = as_bytes ''OK''"
proof -
  have "rustls_result_try_from 7000 = Some Ok" by (simp add: try_from_Some_iff)
  then show ?thesis by (simp add: error_message_def)
qed

text \<open>The errors of rustls whose code keeps all of their information.\<close>

definition keeps_information :: "rustls_Error \<Rightarrow> bool" where
  "keeps_information e =
     (case e of
        Error_InappropriateMessage _ \<Rightarrow> False
      | Error_InappropriateHandshakeMessage _ \<Rightarrow> False
      | Error_CorruptMessagePayload _ \<Rightarrow> False
      | Error_PeerIncompatibleError _ \<Rightarrow> False
      | Error_PeerMisbehavedError _ \<Rightarrow> False
      | Error_InvalidCertificateData _ \<Rightarrow> False
      | Error_General _ \<Rightarrow> False
      | Error_AlertReceived a \<Rightarrow> (case a of alert_Unknown v \<Rightarrow> v = 0 | _ \<Rightarrow> True)
      | _ \<Rightarrow> True)"

text \<open>One error of rustls for each code from 7100 up, in the order of the codes' declaration.\<close>

definition error_samples :: "rustls_Error list" where
  "error_samples =
     [Error_CorruptMessage, Error_NoCertificatesPresented, Error_DecryptError,
      Error_FailedToGetCurrentTime, Error_FailedToGetRandomBytes, Error_HandshakeNotComplete,
      Error_PeerSentOversizedRecord, Error_NoApplicationProtocol, Error_BadMaxFragmentSize,
      Error_UnsupportedNameType, Error_EncryptError, Error_InvalidCertificateEncoding,
      Error_InvalidCertificateSignatureType, Error_InvalidCertificateSignature,
      Error_InvalidCertificateData '''', Error_PeerIncompatibleError '''',
      Error_PeerMisbehavedError '''', Error_InappropriateMessage 0,
      Error_InappropriateHandshakeMessage 0, Error_CorruptMessagePayload 0, Error_General '''',
      Error_AlertReceived alert_CloseNotify, Error_AlertReceived alert_UnexpectedMessage,
      Error_AlertReceived alert_BadRecordMac, Error_AlertReceived alert_DecryptionFailed,
      Error_AlertReceived alert_RecordOverflow, Error_AlertReceived alert_DecompressionFailure,
      Error_AlertReceived alert_HandshakeFailure, Error_AlertReceived alert_NoCertificate,
      Error_AlertReceived alert_BadCertificate,
      Error_AlertReceived alert_UnsupportedCertificate,
      Error_AlertReceived alert_CertificateRevoked,
      Error_AlertReceived alert_CertificateExpired,
      Error_AlertReceived alert_CertificateUnknown, Error_AlertReceived alert_IllegalParameter,
      Error_AlertReceived alert_UnknownCA, Error_AlertReceived alert_AccessDenied,
      Error_AlertReceived alert_DecodeError, Error_AlertReceived alert_DecryptError,
      Error_AlertReceived alert_ExportRestriction, Error_AlertReceived alert_ProtocolVersion,
      Error_AlertReceived alert_InsufficientSecurity, Error_AlertReceived alert_InternalError,
      Error_AlertReceived alert_InappropriateFallback, Error_AlertReceived alert_UserCanceled,
      Error_AlertReceived alert_NoRenegotiation, Error_AlertReceived alert_MissingExtension,
      Error_AlertReceived alert_UnsupportedExtension,
      Error_AlertReceived alert_CertificateUnobtainable,
      Error_AlertReceived alert_UnrecognisedName,
      Error_AlertReceived alert_BadCertificateStatusResponse,
      Error_AlertReceived alert_BadCertificateHashValue,
      Error_AlertReceived alert_UnknownPSKIdentity,
      Error_AlertReceived alert_CertificateRequired,
      Error_AlertReceived alert_NoApplicationProtocol, Error_AlertReceived (alert_Unknown 0),
      Error_InvalidSct sct_MalformedSct, Error_InvalidSct sct_InvalidSignature,
      Error_InvalidSct sct_TimestampInFuture, Error_InvalidSct sct_UnsupportedSctVersion,
      Error_InvalidSct sct_UnknownLog]"

lemma map_error_samples:
  "map map_error error_samples = filter (\<lambda>r. 7100 \<le> discriminant r) rustls_result_all"
  by (simp add: error_samples_def rustls_result_all_def)

lemma map_cert_result:
  "map_error (cert_result_to_error r) =
     (if rustls_result_is_cert_error (discriminant r) then r else General)"
  unfolding is_cert_error_discriminant by (cases r) (simp_all add: cert_result_to_error_def)

lemma map_error_codes: "7100 \<le> discriminant (map_error e)"
proof (cases e)
  case (Error_AlertReceived a)
  then show ?thesis by (cases a) simp_all
next
  case (Error_InvalidSct x)
  then show ?thesis by (cases x) simp_all
qed simp_all

lemma map_error_not_Ok [simp]: "map_error e \<noteq> Ok"
  using map_error_codes [of e] by (cases "map_error e") auto

lemma rustls_error_writes:
  assumes len: "len \<noteq> 0" and size: "length (error_message fmt_Error n) < 2 ^ 64"
    and buf: "\<And>i. i < unat len \<Longrightarrow> m_u8 w (a + i) \<noteq> None" and out: "m_usize w b \<noteq> None"
    and k_def: "k = min (unat len - 1) (length (error_message fmt_Error n))"
  shows "\<exists>w'. rustls_error fmt_Error checks n (Ptr a) len (Ptr b) w = Returned () w' \<and>
           m_usize w' b = Some (of_nat k) \<and>
           read_range (m_u8 w') a k = Some (take k (error_message fmt_Error n)) \<and>
           (\<forall>c. c < a \<or> a + k \<le> c \<longrightarrow> m_u8 w' c = m_u8 w c)"
proof -
  let ?msg = "error_message fmt_Error n"
  let ?out = "min (len - 1) (of_nat (length ?msg)) :: usize"
  have k: "unat ?out = k"
    using len size by (simp add: min_word_of_nat k_def unat_minus_one)
  have "0 < unat len" using len by (simp add: unat_gt_0)
  then have "k < unat len" unfolding k_def by linarith
  then have "\<forall>i < length (take k ?msg). m_u8 w (a + i) \<noteq> None"
    using buf by auto
  then obtain h where h: "write_range (m_u8 w) a (take k ?msg) = Some h"
    using write_range_defined by blast
  have len_take: "length (take k ?msg) = k" by (simp add: k_def)
  have run: "rustls_error fmt_Error checks n (Ptr a) len (Ptr b) w =
      Returned () (w\<lparr>m_u8 := h, m_usize := (m_usize w)(b \<mapsto> ?out)\<rparr>)"
    using len out h k
    by (auto simp: rustls_error_def ffi_panic_boundary_def Let_def copy_to_def write_cell_def hput_def fun_upd_def)
  have "of_nat k = ?out" unfolding k [symmetric] by simp
  then show ?thesis
    using run write_then_read [OF h] write_range_apply [OF h] len_take by auto
qed

section \<open>Properties\<close>

text \<open>
  The numeric codes identify the results: a number converts to a result exactly when it
  is that result's code, so every result survives the trip to C and back, and every other
  number is rejected.
\<close>

theorem rustls_result_roundtrip:
  "rustls_result_try_from (discriminant r) = Some r \<and>
   (rustls_result_try_from n = Some r \<longleftrightarrow> n = discriminant r)"
  by (auto simp: try_from_Some_iff)

text \<open>
  Certificate codes are the only ones that become a specific rustls error, and they come
  back unchanged: translating a code into a rustls error (as for the answer of a custom
  verifier) and that error into a code (as for the result of the connection) gives the code
  itself if it is a certificate error, and \<open>General\<close> for every other code, \<open>Ok\<close> included.
\<close>

theorem cert_error_roundtrip:
  "map_error (cert_result_to_error r) =
     (if rustls_result_is_cert_error (discriminant r) then r else General)"
  by (rule map_cert_result)

text \<open>
  C28. Errors of rustls never look like success or like a code of the glue layer: the codes
  they are translated to are exactly those from 7100 up.
\<close>

theorem map_error_range: "range map_error = {r. 7100 \<le> discriminant r}"
proof -
  have "r \<in> range map_error" if "7100 \<le> discriminant r" for r
  proof -
    have "r \<in> set (map map_error error_samples)"
      using that rustls_result_all_complete [of r] by (simp add: map_error_samples del: set_map)
    then show ?thesis by auto
  qed
  then show ?thesis using map_error_codes by auto
qed

text \<open>
  The message of a code is the message rustls itself prints: for every error whose code
  keeps all its information, rendering the code it is translated to gives the text of the
  error.
\<close>

theorem message_faithful:
  "keeps_information e \<Longrightarrow> rustls_result_fmt fmt_Error (map_error e) = fmt_Error e"
proof (cases e)
  case (Error_AlertReceived a)
  then show "keeps_information e \<Longrightarrow> rustls_result_fmt fmt_Error (map_error e) = fmt_Error e"
    by (cases a) (simp_all add: keeps_information_def)
next
  case (Error_InvalidSct x)
  then show "keeps_information e \<Longrightarrow> rustls_result_fmt fmt_Error (map_error e) = fmt_Error e"
    by (cases x) simp_all
qed (simp_all add: keeps_information_def)

theorem message_faithful_witness:
  "rustls_result_fmt (\<lambda>_. ''boom'') (map_error (Error_AlertReceived alert_DecodeError)) = ''boom''"
  by (rule message_faithful) (simp add: keeps_information_def)

text \<open>
  C29. \<open>rustls_error\<close> stays inside the caller's buffer: with a writable buffer of
  \<open>len > 0\<close> bytes it returns, stores in \<open>*out_n\<close> the smaller of \<open>len - 1\<close> and the
  length of the message, writes exactly that prefix of the message, and leaves all other
  bytes alone.
\<close>

theorem rustls_error_bounded:
  assumes len: "len \<noteq> 0" and size: "length (error_message fmt_Error n) < 2 ^ 64"
    and buf: "\<And>i. i < unat len \<Longrightarrow> m_u8 w (a + i) \<noteq> None" and out: "m_usize w b \<noteq> None"
    and k_def: "k = min (unat len - 1) (length (error_message fmt_Error n))"
  shows "\<exists>w'. rustls_error fmt_Error checks n (Ptr a) len (Ptr b) w = Returned () w' \<and>
           m_usize w' b = Some (of_nat k) \<and>
           read_range (m_u8 w') a k = Some (take k (error_message fmt_Error n)) \<and>
           (\<forall>c. c < a \<or> a + k \<le> c \<longrightarrow> m_u8 w' c = m_u8 w c)"
  by (rule rustls_error_writes [OF assms])

definition buffer_world :: world where
  "buffer_world = empty_world\<lparr>m_u8 := [10 \<mapsto> 0, 11 \<mapsto> 0, 12 \<mapsto> 0], m_usize := [1 \<mapsto> 0]\<rparr>"

theorem rustls_error_bounded_witness:
  "\<exists>w'. rustls_error (\<lambda>_. '''') True 7000 (Ptr 10) 3 (Ptr 1) buffer_world = Returned () w' \<and>
     m_usize w' 1 = Some 2 \<and> read_range (m_u8 w') 10 2 = Some (as_bytes ''OK'')"
proof -
  have buf: "m_u8 buffer_world (10 + i) \<noteq> None" if "i < unat (3 :: usize)" for i
  proof -
    from that have "i < 3" by simp
    then have "i = 0 \<or> i = 1 \<or> i = 2" by arith
    then show ?thesis by (auto simp: buffer_world_def)
  qed
  have out: "m_usize buffer_world 1 \<noteq> None" by (simp add: buffer_world_def)
  have size: "length (error_message (\<lambda>_. '''') 7000) < 2 ^ 64"
    and k: "2 = min (unat (3 :: usize) - 1) (length (error_message (\<lambda>_. '''') 7000))"
    by (simp_all add: error_message_ok)
  obtain w' where
    "rustls_error (\<lambda>_. '''') True 7000 (Ptr 10) 3 (Ptr 1) buffer_world = Returned () w'"
    "m_usize w' 1 = Some (of_nat 2)"
    "read_range (m_u8 w') 10 2 = Some (take 2 (error_message (\<lambda>_. '''') 7000))"
    using rustls_error_bounded [OF _ size buf out k, of True] by auto
  then show ?thesis
    by (intro exI [of _ w']) (simp add: error_message_ok)
qed



end
