(* ===== verification/Ffi_Cipher.thy ===== *)
theory Ffi_Cipher
  imports Ffi_Casts Ffi_Error
begin

text \<open>
  Certificates, cipher suites, certified keys, root stores and client certificate verifiers
  (\<open>src/cipher.rs\<close>).

  PEM and key parsing (\<open>rustls_pemfile\<close>, \<open>rustls::sign\<close>), the lists of cipher suites and
  their numbers and names, and \<open>RootCertStore::add_parsable_certificates\<close> belong to other
  crates: they are parameters.
\<close>

section \<open>Certificates\<close>

definition rustls_certificate_get_der ::
  "Certificate option \<Rightarrow> u8 sptr ptr \<Rightarrow> usize ptr \<Rightarrow> (world, rustls_result) comp" where
  "rustls_certificate_get_der cert out_der_data out_der_len =
     ffi_panic_boundary rr_ret (try_ref_from_view rr_ret cert (\<lambda>c w.
       if is_null out_der_data \<or> is_null out_der_len then Returned NullParameter w
       else
         let der = cert_as_ref c
         in and_then (write_cell u8_ptr_mem out_der_data (SBorrow der) w) (\<lambda>_ w.
            and_then (write_cell usize_mem out_der_len (of_nat (length der)) w) (\<lambda>_ w.
            Returned Ok w))))"

section \<open>Cipher suites\<close>

definition rustls_supported_ciphersuite_get_suite ::
  "(CipherSuite \<Rightarrow> u16) \<Rightarrow> SupportedCipherSuite option \<Rightarrow> (world, u16) comp" where
  "rustls_supported_ciphersuite_get_suite get_u16 cs =
     try_ref_from_view defaultable_ret cs (\<lambda>s.
       Returned (get_u16 (cs_suite (case s of Tls12 common \<Rightarrow> common | Tls13 common \<Rightarrow> common))))"

definition rustls_supported_ciphersuite_get_name ::
  "(CipherSuite \<Rightarrow> bytes option) \<Rightarrow> SupportedCipherSuite option \<Rightarrow> (world, rustls_str) comp" where
  "rustls_supported_ciphersuite_get_name as_str cs =
     try_ref_from_view rustls_str_ret cs (\<lambda>c.
       let s = (case as_str (cs_suite (case c of Tls12 common \<Rightarrow> common | Tls13 common \<Rightarrow> common)) of
                  Some s \<Rightarrow> s | None \<Rightarrow> as_bytes '''')
       in Returned (case rustls_str_try_from s of
                      Inr r \<Rightarrow> r | Inl _ \<Rightarrow> from_str_unchecked (as_bytes '''')))"

definition rustls_all_ciphersuites_len :: "SupportedCipherSuite list \<Rightarrow> usize" where
  "rustls_all_ciphersuites_len all_suites = of_nat (length all_suites)"

definition rustls_all_ciphersuites_get_entry ::
  "SupportedCipherSuite list \<Rightarrow> usize \<Rightarrow> SupportedCipherSuite option" where
  "rustls_all_ciphersuites_get_entry all_suites i = slice_get all_suites i"

definition rustls_default_ciphersuites_len :: "SupportedCipherSuite list \<Rightarrow> usize" where
  "rustls_default_ciphersuites_len default_suites = of_nat (length default_suites)"

definition rustls_default_ciphersuites_get_entry ::
  "SupportedCipherSuite list \<Rightarrow> usize \<Rightarrow> SupportedCipherSuite option" where
  "rustls_default_ciphersuites_get_entry default_suites i = slice_get default_suites i"

text \<open>The statics of \<open>rustls::cipher_suite\<close> the exported arrays point to, in their order.\<close>

datatype cipher_suite_static =
    TLS13_AES_256_GCM_SHA384 | TLS13_AES_128_GCM_SHA256 | TLS13_CHACHA20_POLY1305_SHA256
    | TLS_ECDHE_ECDSA_WITH_AES_256_GCM_SHA384 | TLS_ECDHE_ECDSA_WITH_AES_128_GCM_SHA256
    | TLS_ECDHE_ECDSA_WITH_CHACHA20_POLY1305_SHA256 | TLS_ECDHE_RSA_WITH_AES_256_GCM_SHA384
    | TLS_ECDHE_RSA_WITH_AES_128_GCM_SHA256 | TLS_ECDHE_RSA_WITH_CHACHA20_POLY1305_SHA256

definition RUSTLS_ALL_CIPHER_SUITES :: "cipher_suite_static list" where
  "RUSTLS_ALL_CIPHER_SUITES =
     [TLS13_AES_256_GCM_SHA384, TLS13_AES_128_GCM_SHA256, TLS13_CHACHA20_POLY1305_SHA256,
      TLS_ECDHE_ECDSA_WITH_AES_256_GCM_SHA384, TLS_ECDHE_ECDSA_WITH_AES_128_GCM_SHA256,
      TLS_ECDHE_ECDSA_WITH_CHACHA20_POLY1305_SHA256, TLS_ECDHE_RSA_WITH_AES_256_GCM_SHA384,
      TLS_ECDHE_RSA_WITH_AES_128_GCM_SHA256, TLS_ECDHE_RSA_WITH_CHACHA20_POLY1305_SHA256]"

definition RUSTLS_ALL_CIPHER_SUITES_LEN :: usize where
  "RUSTLS_ALL_CIPHER_SUITES_LEN = of_nat (length RUSTLS_ALL_CIPHER_SUITES)"

definition RUSTLS_DEFAULT_CIPHER_SUITES :: "cipher_suite_static list" where
  "RUSTLS_DEFAULT_CIPHER_SUITES =
     [TLS13_AES_256_GCM_SHA384, TLS13_AES_128_GCM_SHA256, TLS13_CHACHA20_POLY1305_SHA256,
      TLS_ECDHE_ECDSA_WITH_AES_256_GCM_SHA384, TLS_ECDHE_ECDSA_WITH_AES_128_GCM_SHA256,
      TLS_ECDHE_ECDSA_WITH_CHACHA20_POLY1305_SHA256, TLS_ECDHE_RSA_WITH_AES_256_GCM_SHA384,
      TLS_ECDHE_RSA_WITH_AES_128_GCM_SHA256, TLS_ECDHE_RSA_WITH_CHACHA20_POLY1305_SHA256]"

definition RUSTLS_DEFAULT_CIPHER_SUITES_LEN :: usize where
  "RUSTLS_DEFAULT_CIPHER_SUITES_LEN = of_nat (length RUSTLS_DEFAULT_CIPHER_SUITES)"

section \<open>Certified keys\<close>

text \<open>Dropping a certified key drops its fields; the signing key is an \<open>Arc\<close>.\<close>

definition drop_certified_key :: "CertifiedKey \<Rightarrow> (world, unit) comp" where
  "drop_certified_key ck w = and_then (arc_drop signing_key_heap (ck_key ck) w) (\<lambda>_ w. Returned () w)"

text \<open>Dropping an \<open>Arc<CertifiedKey>\<close>.\<close>

definition release_certified_key :: "nat \<Rightarrow> (world, unit) comp" where
  "release_certified_key a w =
     and_then (arc_drop certified_key_heap a w)
       (\<lambda>r w. case r of None \<Rightarrow> Returned () w | Some ck \<Rightarrow> drop_certified_key ck w)"

text \<open>\<open>Vec::pop\<close>: the last element.\<close>

definition vec_pop :: "'a list \<Rightarrow> 'a option" where
  "vec_pop xs = (if xs = [] then None else Some (last xs))"

text \<open>
  \<open>certified_key_build\<close>: the private key is the last PKCS#8 key of the buffer, or, when there
  is none, the last RSA key. The signing key made from it is an \<open>Arc\<close>, which is dropped again
  when the chain does not parse.
\<close>

definition certified_key_build ::
  "(bytes \<Rightarrow> bytes list option) \<Rightarrow> (bytes \<Rightarrow> bytes list option) \<Rightarrow> (bytes \<Rightarrow> SigningKey option) \<Rightarrow>
   (bytes \<Rightarrow> bytes list option) \<Rightarrow> (Certificate list \<Rightarrow> nat \<Rightarrow> CertifiedKey) \<Rightarrow>
   u8 sptr \<Rightarrow> usize \<Rightarrow> u8 sptr \<Rightarrow> usize \<Rightarrow> (world, rustls_result + CertifiedKey) comp" where
  "certified_key_build pkcs8_private_keys rsa_private_keys any_supported_type certs CertifiedKey_new
     cert_chain cert_chain_len private_key private_key_len w =
     (if cert_chain = SNull then Returned (Inl NullParameter) w
      else case from_raw_parts u8_mem w cert_chain cert_chain_len of None \<Rightarrow> Undefined | Some cert_chain \<Rightarrow>
      if private_key = SNull then Returned (Inl NullParameter) w
      else case from_raw_parts u8_mem w private_key private_key_len of None \<Rightarrow> Undefined | Some private_key \<Rightarrow>
      case pkcs8_private_keys private_key of
        None \<Rightarrow> Returned (Inl PrivateKeyParseError) w
      | Some private_keys \<Rightarrow>
      case (case vec_pop private_keys of
              Some p \<Rightarrow> Inr p
            | None \<Rightarrow>
                (case rsa_private_keys private_key of
                   None \<Rightarrow> Inl PrivateKeyParseError
                 | Some private_keys \<Rightarrow>
                     (case vec_pop private_keys of
                        Some p \<Rightarrow> Inr p
                      | None \<Rightarrow> Inl PrivateKeyParseError))) of
        Inl e \<Rightarrow> Returned (Inl e) w
      | Inr private_key \<Rightarrow>
      case any_supported_type private_key of
        None \<Rightarrow> Returned (Inl PrivateKeyParseError) w
      | Some key \<Rightarrow>
      and_then (to_const_ptr signing_key_heap key w) (\<lambda>signing_key w.
      case signing_key of Null \<Rightarrow> Undefined | Ptr signing_key \<Rightarrow>
      case certs cert_chain of
        None \<Rightarrow> and_then (arc_drop signing_key_heap signing_key w)
                  (\<lambda>_ w. Returned (Inl CertificateParseError) w)
      | Some v \<Rightarrow> Returned (Inr (CertifiedKey_new (map Certificate v) signing_key)) w))"

definition rustls_certified_key_build ::
  "(bytes \<Rightarrow> bytes list option) \<Rightarrow> (bytes \<Rightarrow> bytes list option) \<Rightarrow> (bytes \<Rightarrow> SigningKey option) \<Rightarrow>
   (bytes \<Rightarrow> bytes list option) \<Rightarrow> (Certificate list \<Rightarrow> nat \<Rightarrow> CertifiedKey) \<Rightarrow>
   u8 sptr \<Rightarrow> usize \<Rightarrow> u8 sptr \<Rightarrow> usize \<Rightarrow> CertifiedKey ptr ptr \<Rightarrow> (world, rustls_result) comp" where
  "rustls_certified_key_build pkcs8_private_keys rsa_private_keys any_supported_type certs CertifiedKey_new
     cert_chain cert_chain_len private_key private_key_len certified_key_out =
     ffi_panic_boundary rr_ret (try_mut_from_ptr key_ptr_mem rr_ret certified_key_out (\<lambda>_ _ w.
       and_then (certified_key_build pkcs8_private_keys rsa_private_keys any_supported_type certs
                   CertifiedKey_new cert_chain cert_chain_len private_key private_key_len w) (\<lambda>r w.
       case r of
         Inl rr \<Rightarrow> Returned rr w
       | Inr certified_key \<Rightarrow>
           and_then (to_const_ptr certified_key_heap certified_key w) (\<lambda>p w.
           and_then (write_cell key_ptr_mem certified_key_out p w) (\<lambda>_ w.
           Returned Ok w)))))"

definition rustls_certified_key_get_certificate ::
  "CertifiedKey ptr \<Rightarrow> usize \<Rightarrow> (world, Certificate option) comp" where
  "rustls_certified_key_get_certificate certified_key i =
     ffi_panic_boundary defaultable_ret
       (try_ref_from_arc_ptr certified_key_heap defaultable_ret certified_key
          (\<lambda>ck. Returned (slice_get (ck_cert ck) i)))"

text \<open>
  \<open>clone\<close> of a certified key clones the \<open>Arc\<close> of its signing key; when the OCSP slice has a
  null data pointer, the function returns early and the clone is dropped.
\<close>

definition rustls_certified_key_clone_with_ocsp ::
  "CertifiedKey ptr \<Rightarrow> rustls_slice_bytes ptr \<Rightarrow> CertifiedKey ptr ptr \<Rightarrow> (world, rustls_result) comp" where
  "rustls_certified_key_clone_with_ocsp certified_key ocsp_response cloned_key_out =
     ffi_panic_boundary rr_ret (try_mut_from_ptr key_ptr_mem rr_ret cloned_key_out (\<lambda>_ _.
       try_ref_from_arc_ptr certified_key_heap rr_ret certified_key (\<lambda>ck w.
       and_then (to_arc signing_key_heap (Ptr (ck_key ck)) w) (\<lambda>_ w.
       let finish = (\<lambda>ocsp w.
             and_then (to_const_ptr certified_key_heap (ck\<lparr>ck_ocsp := ocsp\<rparr>) w) (\<lambda>p w.
             and_then (write_cell key_ptr_mem cloned_key_out p w) (\<lambda>_ w.
             Returned Ok w)))
       in case ocsp_response of
            Null \<Rightarrow> finish None w
          | Ptr a \<Rightarrow>
              (case m_slice w a of
                 None \<Rightarrow> Undefined
               | Some ocsp_slice \<Rightarrow>
                   if rsb_data ocsp_slice = SNull
                   then and_then (drop_certified_key ck w) (\<lambda>_ w. Returned NullParameter w)
                   else case from_raw_parts u8_mem w (rsb_data ocsp_slice) (rsb_len ocsp_slice) of
                          None \<Rightarrow> Undefined
                        | Some bs \<Rightarrow> finish (Some bs) w)))))"

text \<open>
  \<open>drop(Arc::from_raw(key))\<close> where \<open>key\<close> still has the opaque C type: the count is that of the
  real object, but the type that is dropped at zero is the opaque struct of size 0. The
  allocation goes away and no destructor of the fields runs.
\<close>

definition arc_drop_opaque :: "(world, 'v ArcInner) heap_lens \<Rightarrow> nat \<Rightarrow> (world, unit) comp" where
  "arc_drop_opaque L a w = and_then (arc_drop L a w) (\<lambda>_ w. Returned () w)"

definition rustls_certified_key_free :: "CertifiedKey ptr \<Rightarrow> (world, unit) comp" where
  "rustls_certified_key_free key =
     ffi_panic_boundary defaultable_ret (\<lambda>w.
       case key of Null \<Rightarrow> Returned () w | Ptr a \<Rightarrow> arc_drop_opaque certified_key_heap a w)"

section \<open>Root certificate stores\<close>

definition rustls_root_cert_store_new :: "(world, RootCertStore ptr) comp" where
  "rustls_root_cert_store_new = ffi_panic_boundary ptr_ret (to_mut_ptr root_store_heap \<lparr>roots = []\<rparr>)"

definition rustls_root_cert_store_add_pem ::
  "(bytes \<Rightarrow> bytes list option) \<Rightarrow> (RootCertStore \<Rightarrow> bytes list \<Rightarrow> RootCertStore \<times> nat \<times> nat) \<Rightarrow>
   RootCertStore ptr \<Rightarrow> u8 sptr \<Rightarrow> usize \<Rightarrow> bool \<Rightarrow> (world, rustls_result) comp" where
  "rustls_root_cert_store_add_pem certs add_parsable_certificates store pem pem_len strict =
     ffi_panic_boundary rr_ret (try_slice u8_mem rr_ret pem pem_len (\<lambda>certs_pem.
       try_mut_from_ptr root_store_heap rr_ret store (\<lambda>a st w.
       case certs certs_pem of
         None \<Rightarrow> Returned CertificateParseError w
       | Some certs_der \<Rightarrow>
           (case add_parsable_certificates \<lparr>roots = []\<rparr> certs_der of (new_store, parsed, rejected) \<Rightarrow>
              if strict \<and> (rejected > 0 \<or> parsed = 0) then Returned CertificateParseError w
              else Returned Ok (hput root_store_heap a (st\<lparr>roots := roots st @ roots new_store\<rparr>) w)))))"

definition rustls_root_cert_store_free :: "RootCertStore ptr \<Rightarrow> (world, unit) comp" where
  "rustls_root_cert_store_free store =
     ffi_panic_boundary defaultable_ret
       (try_box_from_ptr root_store_heap defaultable_ret store (\<lambda>_ w. Returned () w))"

section \<open>Client certificate verifiers\<close>

text \<open>The verifiers of rustls keep the root store they were made from.\<close>

definition rustls_client_cert_verifier_new ::
  "RootCertStore ptr \<Rightarrow> (world, AllowAnyAuthenticatedClient ptr) comp" where
  "rustls_client_cert_verifier_new store =
     try_ref_from_ptr root_store_heap const_ptr_ret store 
       (\<lambda>st. to_const_ptr client_verifier_heap (AllowAnyAuthenticatedClient st))"

definition rustls_client_cert_verifier_free :: "AllowAnyAuthenticatedClient ptr \<Rightarrow> (world, unit) comp" where
  "rustls_client_cert_verifier_free verifier =
     ffi_panic_boundary defaultable_ret (\<lambda>w.
       case verifier of Null \<Rightarrow> Returned () w | Ptr a \<Rightarrow> arc_drop_opaque client_verifier_heap a w)"

definition rustls_client_cert_verifier_optional_new ::
  "RootCertStore ptr \<Rightarrow> (world, AllowAnyAnonymousOrAuthenticatedClient ptr) comp" where
  "rustls_client_cert_verifier_optional_new store =
     try_ref_from_ptr root_store_heap const_ptr_ret store 
       (\<lambda>st. to_const_ptr client_verifier_optional_heap (AllowAnyAnonymousOrAuthenticatedClient st))"

definition rustls_client_cert_verifier_optional_free ::
  "AllowAnyAnonymousOrAuthenticatedClient ptr \<Rightarrow> (world, unit) comp" where
  "rustls_client_cert_verifier_optional_free verifier =
     ffi_panic_boundary defaultable_ret (\<lambda>w.
       case verifier of
         Null \<Rightarrow> Returned () w
       | Ptr a \<Rightarrow> arc_drop_opaque client_verifier_optional_heap a w)"

section \<open>Vocabulary of the properties\<close>

text \<open>The private key of a buffer: the last PKCS#8 key; without one, the last RSA key.\<close>

definition chosen_private_key ::
  "(bytes \<Rightarrow> bytes list option) \<Rightarrow> (bytes \<Rightarrow> bytes list option) \<Rightarrow> bytes \<Rightarrow> bytes option" where
  "chosen_private_key pkcs8_private_keys rsa_private_keys pem =
     (case pkcs8_private_keys pem of
        None \<Rightarrow> None
      | Some (p # ps) \<Rightarrow> Some (last (p # ps))
      | Some [] \<Rightarrow> (case rsa_private_keys pem of
                      Some (r # rs) \<Rightarrow> Some (last (r # rs))
                    | _ \<Rightarrow> None))"

text \<open>The state after a certified key with one reference was made and given to the caller.\<close>

definition with_new_key :: "SigningKey \<Rightarrow> CertifiedKey \<Rightarrow> nat \<Rightarrow> world \<Rightarrow> world" where
  "with_new_key key ck out w =
     w\<lparr>next_addr := next_addr w + 2,
       h_signing_key := (h_signing_key w)(next_addr w \<mapsto> \<lparr>strong = 1, arc_data = key\<rparr>),
       h_certified_key := (h_certified_key w)(Suc (next_addr w) \<mapsto> \<lparr>strong = 1, arc_data = ck\<rparr>),
       m_key_ptr := (m_key_ptr w)(out \<mapsto> Ptr (Suc (next_addr w)))\<rparr>"

text \<open>What the OCSP argument of a call stands for: no response, or the bytes of the slice.\<close>

definition ocsp_argument :: "world \<Rightarrow> rustls_slice_bytes ptr \<Rightarrow> bytes option \<Rightarrow> bool" where
  "ocsp_argument w p r =
     (case p of
        Null \<Rightarrow> r = None
      | Ptr s \<Rightarrow> (case m_slice w s of
                   None \<Rightarrow> False
                 | Some v \<Rightarrow> r \<noteq> None \<and> from_raw_parts u8_mem w (rsb_data v) (rsb_len v) = r))"

text \<open>A concrete state and a concrete \<open>CertifiedKey::new\<close> for the witnesses.\<close>

definition demo_world :: world where
  "demo_world = empty_world\<lparr>m_key_ptr := [5 \<mapsto> Null], m_u8_ptr := [6 \<mapsto> SNull], m_usize := [7 \<mapsto> 0]\<rparr>"

definition demo_key :: "Certificate list \<Rightarrow> nat \<Rightarrow> CertifiedKey" where
  "demo_key cs k = \<lparr>ck_cert = cs, ck_key = k, ck_ocsp = None\<rparr>"

section \<open>Lemmas\<close>

lemma chosen_private_key_cases:
  "(case pkcs8 pem of
      None \<Rightarrow> a
    | Some ks \<Rightarrow>
        (case (case vec_pop ks of
                 Some p \<Rightarrow> Inr p
               | None \<Rightarrow>
                   (case rsa pem of
                      None \<Rightarrow> Inl e
                    | Some ks \<Rightarrow> (case vec_pop ks of Some p \<Rightarrow> Inr p | None \<Rightarrow> Inl e))) of
           Inl e \<Rightarrow> b e | Inr k \<Rightarrow> c k)) =
   (case chosen_private_key pkcs8 rsa pem of
      Some k \<Rightarrow> c k | None \<Rightarrow> (if pkcs8 pem = None then a else b e))"
  by (auto simp: chosen_private_key_def vec_pop_def split: option.splits list.splits)

lemma from_raw_parts_frame [simp]:
  "from_raw_parts u8_mem (w\<lparr>h_signing_key := h\<rparr>) p n = from_raw_parts u8_mem w p n"
  by (simp add: from_raw_parts_def split: sptr.splits)

lemma demo_world_simps [simp]:
  "m_key_ptr demo_world = [5 \<mapsto> Null]" "m_u8_ptr demo_world = [6 \<mapsto> SNull]" "m_usize demo_world = [7 \<mapsto> 0]"
  "next_addr demo_world = 1" "h_signing_key demo_world = Map.empty" "h_certified_key demo_world = Map.empty"
  "fresh_above signing_key_heap demo_world"
  by (simp_all add: demo_world_def empty_world_def fresh_above_def)

section \<open>Properties\<close>

text \<open>
  C12. \<open>rustls_certified_key_build\<close> on readable buffers, on every branch: the private key is the last
  PKCS#8 key of the key buffer, or the last RSA key when there is no PKCS#8 key; a buffer
  without a usable key gives \<open>PrivateKeyParseError\<close>, a chain that does not parse gives
  \<open>CertificateParseError\<close> with the signing key released again, and otherwise the caller gets a
  new certified key with one reference, made of the whole chain and the signing key.
\<close>

theorem certified_key_build_exact:
  assumes "from_raw_parts u8_mem w chain chain_len = Some chain_pem"
    and "from_raw_parts u8_mem w key key_len = Some key_pem"
    and "m_key_ptr w out \<noteq> None"
    and "fresh_above signing_key_heap w"
  shows "rustls_certified_key_build pkcs8 rsa any_type certs CertifiedKey_new chain chain_len key key_len
           (Ptr out) w =
    (case Option.bind (chosen_private_key pkcs8 rsa key_pem) any_type of
       None \<Rightarrow> Returned PrivateKeyParseError w
     | Some sk \<Rightarrow>
        (case certs chain_pem of
           None \<Rightarrow> Returned CertificateParseError (w\<lparr>next_addr := Suc (next_addr w)\<rparr>)
         | Some ders \<Rightarrow>
             Returned Ok (with_new_key sk (CertifiedKey_new (map Certificate ders) (next_addr w)) out w)))"
proof -
  have "chain \<noteq> SNull" "key \<noteq> SNull"
    using assms(1,2) by auto
  then show ?thesis
    using assms
    unfolding rustls_certified_key_build_def certified_key_build_def
    by (auto simp: entry_defs chosen_private_key_cases alloc_defs arc_drop_def write_cell_def
      fresh_above_def fun_upd_idem with_new_key_def split: option.splits)
qed

theorem certified_key_build_exact_witness:
  "rustls_certified_key_build (\<lambda>b. Some []) (\<lambda>b. Some [[9], b]) (\<lambda>b. if b = [3, 4, 5] then Some (SigningKey 3) else None)
     (\<lambda>b. Some [b]) demo_key (SBorrow [1, 2]) 2 (SBorrow [3, 4, 5]) 3 (Ptr 5) demo_world =
   Returned Ok (with_new_key (SigningKey 3) (demo_key [Certificate [1, 2]] 1) 5 demo_world)"
  by (subst certified_key_build_exact [where chain_pem = "[1, 2]" and key_pem = "[3, 4, 5]"])
    (simp_all add: chosen_private_key_def)

text \<open>
  C13. Whatever the arguments, when \<open>rustls_certified_key_build\<close> reports an error, nothing has
  changed: no object is left behind and the output parameter is as before. (Only the
  allocator has moved on.)
\<close>

theorem certified_key_build_atomic:
  assumes "rustls_certified_key_build pkcs8 rsa any_type certs ck_new chain chain_len key key_len out w
           = Returned r w'"
    and "r \<noteq> Ok"
    and "fresh_above signing_key_heap w"
  shows "w' = w\<lparr>next_addr := next_addr w'\<rparr>"
  using assms
  unfolding rustls_certified_key_build_def certified_key_build_def
  by (auto simp: alloc_defs entry_defs arc_drop_def write_cell_def fun_upd_idem fresh_above_def
      split: ptr.splits option.splits if_splits sum.splits)

theorem certified_key_build_atomic_witness:
  "rustls_certified_key_build (\<lambda>b. Some [b]) (\<lambda>b. None) (\<lambda>b. Some (SigningKey 0)) (\<lambda>b. None) demo_key
     (SBorrow [1, 2]) 2 (SBorrow [3]) 1 (Ptr 5) demo_world =
     Returned CertificateParseError (demo_world\<lparr>next_addr := 2\<rparr>)
   \<and> demo_world\<lparr>next_addr := 2\<rparr> = demo_world\<lparr>next_addr := next_addr (demo_world\<lparr>next_addr := 2\<rparr>)\<rparr>"
proof -
  have run: "rustls_certified_key_build (\<lambda>b. Some [b]) (\<lambda>b. None) (\<lambda>b. Some (SigningKey 0)) (\<lambda>b. None) demo_key
     (SBorrow [1, 2]) 2 (SBorrow [3]) 1 (Ptr 5) demo_world =
     Returned CertificateParseError (demo_world\<lparr>next_addr := 2\<rparr>)"
    by (simp add: rustls_certified_key_build_def certified_key_build_def entry_defs alloc_defs vec_pop_def
      arc_drop_def fun_upd_idem)
  show ?thesis
    using run certified_key_build_atomic [OF run] by simp
qed

text \<open>
  C26. Certificates survive the round trip: after \<open>rustls_certified_key_build\<close> succeeds, asking the
  new key for its \<open>i\<close>-th certificate and that certificate for its DER encoding yields
  exactly the \<open>i\<close>-th certificate that was parsed from the chain, for every index, and null from
  the end of the chain on.
\<close>

theorem build_get_der_roundtrip:
  assumes "rustls_certified_key_build pkcs8 rsa any_type certs CertifiedKey_new chain chain_len key key_len
             (Ptr out) w = Returned Ok w1"
    and "\<And>cs k. ck_cert (CertifiedKey_new cs k) = cs"
    and "m_u8_ptr w dp \<noteq> None" and "m_usize w lp \<noteq> None"
  shows "\<exists>chain_pem ders p. from_raw_parts u8_mem w chain chain_len = Some chain_pem
     \<and> certs chain_pem = Some ders \<and> m_key_ptr w1 out = Some p
     \<and> (\<forall>i. if unat i < length ders
            then \<exists>cert w2. rustls_certified_key_get_certificate p i w1 = Returned (Some cert) w1
              \<and> rustls_certificate_get_der (Some cert) (Ptr dp) (Ptr lp) w1 = Returned Ok w2
              \<and> m_u8_ptr w2 dp = Some (SBorrow (ders ! unat i))
              \<and> m_usize w2 lp = Some (of_nat (length (ders ! unat i)))
            else rustls_certified_key_get_certificate p i w1 = Returned None w1)"
  using assms
  unfolding rustls_certified_key_build_def certified_key_build_def
    rustls_certified_key_get_certificate_def rustls_certificate_get_der_def
  by (auto simp: entry_defs alloc_defs arc_drop_def write_cell_def slice_get_def
     split: option.splits sum.splits if_splits)

theorem build_get_der_roundtrip_witness:
  "\<exists>p w1. rustls_certified_key_get_certificate p 0 w1 = Returned (Some (Certificate [1, 2])) w1"
proof -
  let ?w1 = "with_new_key (SigningKey 3) (demo_key [Certificate [1, 2]] 1) 5 demo_world"
  have run: "rustls_certified_key_build (\<lambda>b. Some [b]) (\<lambda>b. None) (\<lambda>b. Some (SigningKey 3)) (\<lambda>b. Some [b]) demo_key
     (SBorrow [1, 2]) 2 (SBorrow [3]) 1 (Ptr 5) demo_world = Returned Ok ?w1"
    by (simp add: rustls_certified_key_build_def certified_key_build_def entry_defs alloc_defs vec_pop_def
      write_cell_def with_new_key_def)
  have "m_u8_ptr demo_world 6 \<noteq> None" "m_usize demo_world 7 \<noteq> None"
    "\<And>cs k. ck_cert (demo_key cs k) = cs" by (simp_all add: demo_key_def)
  from build_get_der_roundtrip [OF run this(3,1,2)] show ?thesis
    by (auto simp: with_new_key_def rustls_certificate_get_der_def entry_defs write_cell_def
       rustls_certified_key_get_certificate_def demo_key_def slice_get_def 
       intro!: exI [of _ "Ptr 2"] exI [of _ ?w1])
qed

text \<open>
  C27. \<open>rustls_certified_key_clone_with_ocsp\<close> makes a second key that differs from the original in the
  OCSP response alone (removed when the argument is null) and shares its signing key, whose
  count goes up by one; the original key is not touched.
\<close>

theorem clone_with_ocsp_exact:
  assumes "h_certified_key w a = Some ck" and "h_signing_key w (ck_key (arc_data ck)) = Some sk"
    and "m_key_ptr w out \<noteq> None" and "ocsp_argument w ocsp response"
  shows "rustls_certified_key_clone_with_ocsp (Ptr a) ocsp (Ptr out) w =
     Returned Ok
       (w\<lparr>next_addr := Suc (next_addr w),
          h_signing_key := (h_signing_key w)(ck_key (arc_data ck) \<mapsto> sk\<lparr>strong := strong sk + 1\<rparr>),
          h_certified_key := (h_certified_key w)(next_addr w \<mapsto>
             \<lparr>strong = 1, arc_data = (arc_data ck)\<lparr>ck_ocsp := response\<rparr>\<rparr>),
          m_key_ptr := (m_key_ptr w)(out \<mapsto> Ptr (next_addr w))\<rparr>)"
  using assms
  unfolding rustls_certified_key_clone_with_ocsp_def ocsp_argument_def
  by (auto simp: entry_defs alloc_defs to_arc_def write_cell_def
      fun_upd_idem split: option.splits ptr.splits)

theorem clone_with_ocsp_exact_witness:
  "\<exists>w. h_certified_key w 2 = Some \<lparr>strong = 1, arc_data = demo_key [] 1\<rparr> \<and>
     (\<exists>w'. rustls_certified_key_clone_with_ocsp (Ptr 2) Null (Ptr 5) w = Returned Ok w'
        \<and> m_key_ptr w' 5 = Some (Ptr (next_addr w)))"
proof -
  let ?w = "with_new_key (SigningKey 3) (demo_key [] 1) 5 demo_world"
  have *: "h_certified_key ?w 2 = Some \<lparr>strong = 1, arc_data = demo_key [] 1\<rparr>"
    "h_signing_key ?w (ck_key (arc_data \<lparr>strong = 1, arc_data = demo_key [] 1\<rparr>)) = Some \<lparr>strong = 1, arc_data = SigningKey 3\<rparr>"
    "m_key_ptr ?w 5 \<noteq> None" "ocsp_argument ?w Null None"
    by (simp_all add: with_new_key_def demo_key_def ocsp_argument_def)
  show ?thesis
    using * clone_with_ocsp_exact [OF *] by (intro exI [of _ ?w]) simp
qed

text \<open>
  When \<open>rustls_certified_key_clone_with_ocsp\<close> fails, the state is exactly what it was: the
  clone of the signing key that was taken before the OCSP slice was looked at is given back.
\<close>

theorem clone_with_ocsp_atomic:
  assumes "rustls_certified_key_clone_with_ocsp key ocsp out w = Returned r w'" and "r \<noteq> Ok"
    and "live_counts signing_key_heap w"
  shows "w' = w"
  using assms(1,2)
  unfolding rustls_certified_key_clone_with_ocsp_def
  by (auto simp: entry_defs alloc_defs to_arc_def arc_drop_def write_cell_def drop_certified_key_def
      fun_upd_idem split: option.splits ptr.splits if_splits
      dest: live_countsD [OF assms(3), simplified])

theorem clone_with_ocsp_atomic_witness:
  "\<exists>w. rustls_certified_key_clone_with_ocsp (Ptr 2) (Ptr 8) (Ptr 5) w = Returned NullParameter w"
proof -
  let ?w = "with_new_key (SigningKey 3) (demo_key [] 1) 5 demo_world
              \<lparr>m_slice := [8 \<mapsto> \<lparr>rsb_data = SNull, rsb_len = 0\<rparr>]\<rparr>"
  have "\<exists>w'. rustls_certified_key_clone_with_ocsp (Ptr 2) (Ptr 8) (Ptr 5) ?w = Returned NullParameter w'"
    by (simp add: rustls_certified_key_clone_with_ocsp_def entry_defs to_arc_def arc_drop_def
        drop_certified_key_def with_new_key_def demo_key_def)
  then obtain w' where run: "rustls_certified_key_clone_with_ocsp (Ptr 2) (Ptr 8) (Ptr 5) ?w
      = Returned NullParameter w'" ..
  have "live_counts signing_key_heap ?w" by (simp add: live_counts_def with_new_key_def)
  from clone_with_ocsp_atomic [OF run _ this] run show ?thesis by auto
qed

text \<open>
  C34. Building a certified key and freeing it leaks: the memory of the certified key goes away,
  the signing key it owned stays allocated with a count of one and nothing refers to it any
  more. \<open>drop(Arc::from_raw(key))\<close> runs at the opaque type, which has no fields to drop.
\<close>

theorem certified_key_free_leaks:
  assumes "rustls_certified_key_build pkcs8 rsa any_type certs CertifiedKey_new chain chain_len key key_len
             (Ptr out) w = Returned Ok w1"
    and "fresh_above certified_key_heap w"
  shows "\<exists>p w2 sk. m_key_ptr w1 out = Some p \<and> rustls_certified_key_free p w1 = Returned () w2
     \<and> h_certified_key w2 = h_certified_key w
     \<and> h_signing_key w2 = (h_signing_key w)(next_addr w \<mapsto> \<lparr>strong = 1, arc_data = sk\<rparr>)"
  using assms
  unfolding rustls_certified_key_build_def certified_key_build_def rustls_certified_key_free_def
  by (auto simp: entry_defs alloc_defs arc_drop_def arc_drop_opaque_def write_cell_def fresh_above_def
      fun_upd_idem split: option.splits sum.splits if_splits)

theorem certified_key_free_leaks_witness:
  "\<exists>w1 p w2. m_key_ptr w1 5 = Some p \<and> rustls_certified_key_free p w1 = Returned () w2
     \<and> h_certified_key w2 = Map.empty \<and> dom (h_signing_key w2) = {1}"
proof -
  have "\<exists>w1. rustls_certified_key_build (\<lambda>b. Some [b]) (\<lambda>b. None) (\<lambda>b. Some (SigningKey 3)) (\<lambda>b. Some [b])
      demo_key (SBorrow [1, 2]) 2 (SBorrow [3]) 1 (Ptr 5) demo_world = Returned Ok w1"
    by (simp add: rustls_certified_key_build_def certified_key_build_def entry_defs alloc_defs vec_pop_def
      write_cell_def)
  moreover have "fresh_above certified_key_heap demo_world" by (simp add: fresh_above_def)
  ultimately obtain w1 p w2 sk where "m_key_ptr w1 5 = Some p" "rustls_certified_key_free p w1 = Returned () w2"
    "h_certified_key w2 = h_certified_key demo_world"
    "h_signing_key w2 = (h_signing_key demo_world)(next_addr demo_world \<mapsto> \<lparr>strong = 1, arc_data = sk\<rparr>)"
    using certified_key_free_leaks by blast
  then show ?thesis by (intro exI [of _ w1] exI [of _ p] exI [of _ w2]) simp
qed

text \<open>
  \<open>rustls_root_cert_store_add_pem\<close> is all or nothing: in strict mode one rejected
  certificate (or none parsed) leaves the store as it was with \<open>CertificateParseError\<close>; otherwise
  the trust anchors of the buffer are appended to those the store had.
\<close>

theorem add_pem_exact:
  assumes "h_root_store w a = Some st" and "from_raw_parts u8_mem w pem n = Some pem_bytes"
    and "certs pem_bytes = Some ders" and "add \<lparr>roots = []\<rparr> ders = (\<lparr>roots = ts\<rparr>, parsed, rejected)"
  shows "rustls_root_cert_store_add_pem certs add (Ptr a) pem n strict w =
     (if strict \<and> (rejected > 0 \<or> parsed = 0) then Returned CertificateParseError w
      else Returned Ok (w\<lparr>h_root_store := (h_root_store w)(a \<mapsto> \<lparr>roots = roots st @ ts\<rparr>)\<rparr>))"
proof -
  have "pem \<noteq> SNull" using assms(2) by auto
  then show ?thesis using assms
    by (cases st) (simp add: rustls_root_cert_store_add_pem_def entry_defs)
qed

theorem add_pem_exact_witness:
  "rustls_root_cert_store_add_pem (\<lambda>b. Some [b]) (\<lambda>st ds. (\<lparr>roots = [TrustAnchor 4]\<rparr>, 1, 0)) (Ptr 3)
     (SBorrow [1]) 1 True (demo_world\<lparr>h_root_store := [3 \<mapsto> \<lparr>roots = []\<rparr>]\<rparr>) =
   Returned Ok (demo_world\<lparr>h_root_store := [3 \<mapsto> \<lparr>roots = [TrustAnchor 4]\<rparr>]\<rparr>)"
  by (subst add_pem_exact [where st = "\<lparr>roots = []\<rparr>" and pem_bytes = "[1]" and ders = "[[1]]"
        and ts = "[TrustAnchor 4]" and parsed = 1 and rejected = 0]) simp_all

end
