(* ===== verification/Ffi_Config.thy ===== *)
theory Ffi_Config
  imports Ffi_Cipher
begin

text \<open>
  What the client and the server configuration builders share: the loops that read arrays of
  cipher suites, versions, protocols and certified keys, the \<open>Arc\<close>s of certified keys a resolver
  holds, and the choice of the first compatible key. The loops appear with the same text in
  \<open>src/client.rs\<close> and \<open>src/server.rs\<close>.
\<close>

section \<open>Arrays the application passes\<close>

text \<open>\<open>for &cs in cipher_suites.iter()\<close>: a null entry or an unknown suite ends the call.\<close>

fun collect_suites ::
  "(SupportedCipherSuite \<Rightarrow> SupportedCipherSuite \<Rightarrow> bool) \<Rightarrow> SupportedCipherSuite list \<Rightarrow>
   SupportedCipherSuite option list \<Rightarrow> SupportedCipherSuite list \<Rightarrow> rustls_result + SupportedCipherSuite list" where
  "collect_suites eq ALL_CIPHER_SUITES [] cs_vec = Inr cs_vec"
| "collect_suites eq ALL_CIPHER_SUITES (None # rest) cs_vec = Inl NullParameter"
| "collect_suites eq ALL_CIPHER_SUITES (Some cs # rest) cs_vec =
     (case find (\<lambda>acs. eq cs acs) ALL_CIPHER_SUITES of
        Some scs \<Rightarrow> collect_suites eq ALL_CIPHER_SUITES rest (cs_vec @ [scs])
      | None \<Rightarrow> Inl InvalidParameter)"

text \<open>\<open>for version_number in tls_versions\<close>: numbers of other versions are skipped.\<close>

primrec collect_versions ::
  "(u16 \<Rightarrow> 'v) \<Rightarrow> (SupportedProtocolVersion \<Rightarrow> 'v) \<Rightarrow> u16 list \<Rightarrow> SupportedProtocolVersion list \<Rightarrow>
   SupportedProtocolVersion list" where
  "collect_versions ProtocolVersion_from version [] versions = versions"
| "collect_versions ProtocolVersion_from version (version_number # rest) versions =
     (let proto = ProtocolVersion_from version_number
      in if proto = version TLS12 then collect_versions ProtocolVersion_from version rest (versions @ [TLS12])
         else if proto = version TLS13 then collect_versions ProtocolVersion_from version rest (versions @ [TLS13])
         else collect_versions ProtocolVersion_from version rest versions)"

text \<open>\<open>for p in protocols\<close>: each protocol is copied; a null data pointer ends the call.\<close>

primrec collect_alpn :: "rustls_slice_bytes list \<Rightarrow> bytes list \<Rightarrow> (world, bytes list option) comp" where
  "collect_alpn [] vv w = Returned (Some vv) w"
| "collect_alpn (p # rest) vv w =
     (if rsb_data p = SNull then Returned None w
      else case from_raw_parts u8_mem w (rsb_data p) (rsb_len p) of
             None \<Rightarrow> Undefined
           | Some v \<Rightarrow> collect_alpn rest (vv @ [v]) w)"

section \<open>Vectors of certified keys\<close>

text \<open>Dropping a \<open>Vec<Arc<CertifiedKey>>\<close>, and cloning one.\<close>

primrec release_keys :: "nat list \<Rightarrow> (world, unit) comp" where
  "release_keys [] w = Returned () w"
| "release_keys (k # ks) w = and_then (release_certified_key k w) (\<lambda>_ w. release_keys ks w)"

primrec clone_keys :: "nat list \<Rightarrow> (world, unit) comp" where
  "clone_keys [] w = Returned () w"
| "clone_keys (k # ks) w = and_then (to_arc certified_key_heap (Ptr k) w) (\<lambda>_ w. clone_keys ks w)"

text \<open>
  \<open>for &key_ptr in keys_ptrs\<close>: each pointer is turned into a new reference. A null pointer ends
  the call, and the references collected so far are dropped with the vector.
\<close>

primrec collect_keys :: "CertifiedKey ptr list \<Rightarrow> nat list \<Rightarrow> (world, nat list option) comp" where
  "collect_keys [] keys w = Returned (Some keys) w"
| "collect_keys (key_ptr # rest) keys w =
     and_then (to_arc certified_key_heap key_ptr w) (\<lambda>r w.
       case r of
         Some certified_key \<Rightarrow> collect_keys rest (keys @ [certified_key]) w
       | None \<Rightarrow> and_then (release_keys keys w) (\<lambda>_ w. Returned None w))"

section \<open>Choosing a key\<close>

text \<open>
  Whether a key is compatible with a list of signature schemes:
  \<open>key.key.choose_scheme(schemes).is_some()\<close>, which reads the key and its signing key.
  \<open>None\<close> when one of them is not there.
\<close>

definition key_compatible ::
  "(SigningKey \<Rightarrow> SignatureScheme list \<Rightarrow> Signer option) \<Rightarrow> SignatureScheme list \<Rightarrow> world \<Rightarrow> nat \<Rightarrow> bool option" where
  "key_compatible choose_scheme schemes w k =
     (case h_certified_key w k of
        None \<Rightarrow> None
      | Some i \<Rightarrow> (case h_signing_key w (ck_key (arc_data i)) of
                    None \<Rightarrow> None
                  | Some s \<Rightarrow> Some (choose_scheme (arc_data s) schemes \<noteq> None)))"

text \<open>
  The interface of a selection over an ordered list: a dangling entry is undefined, an
  incompatible entry is skipped without any effect, a compatible one ends the search with
  the result \<open>found\<close>.
\<close>

locale key_selection =
  fixes compat :: "world \<Rightarrow> 'k \<Rightarrow> bool option"
    and select :: "'k list \<Rightarrow> (world, 'r) comp"
    and found :: "'k \<Rightarrow> (world, 'r) comp" and not_found :: 'r
  assumes select_Nil: "select [] w = Returned not_found w"
    and select_dangling: "compat w k = None \<Longrightarrow> select (k # ks) w = Undefined"
    and select_skip: "compat w k = Some False \<Longrightarrow> select (k # ks) w = select ks w"
    and select_found: "compat w k = Some True \<Longrightarrow> select (k # ks) w = found k w"
begin

text \<open>The selection is the first compatible key in the order of the list.\<close>

lemma select_first:
  assumes "\<forall>k \<in> set ks. compat w k \<noteq> None"
  shows "select ks w =
    (case find (\<lambda>k. compat w k = Some True) ks of Some k \<Rightarrow> found k w | None \<Rightarrow> Returned not_found w)"
  using assms
proof (induction ks)
  case Nil
  show ?case by (simp add: select_Nil)
next
  case (Cons k ks)
  obtain b where "compat w k = Some b" using Cons.prems by auto
  with Cons show ?case by (cases b) (simp_all add: select_found select_skip)
qed

text \<open>A key behind the first compatible one is never looked at.\<close>

lemma select_prefix:
  assumes "\<forall>k \<in> set ks. compat w k = Some False" and "compat w k = Some True"
  shows "select (ks @ k # rest) w = found k w"
  using assms by (induction ks) (simp_all add: select_found select_skip)

end

section \<open>Vocabulary of the properties\<close>

text \<open>What one entry of the array of cipher suites stands for.\<close>

definition suite_lookup ::
  "(SupportedCipherSuite \<Rightarrow> SupportedCipherSuite \<Rightarrow> bool) \<Rightarrow> SupportedCipherSuite list \<Rightarrow>
   SupportedCipherSuite option \<Rightarrow> rustls_result + SupportedCipherSuite" where
  "suite_lookup eq all_suites x =
     (case x of
        None \<Rightarrow> Inl NullParameter
      | Some cs \<Rightarrow> (case find (\<lambda>acs. eq cs acs) all_suites of Some s \<Rightarrow> Inr s | None \<Rightarrow> Inl InvalidParameter))"

definition version_lookup ::
  "(u16 \<Rightarrow> 'v) \<Rightarrow> (SupportedProtocolVersion \<Rightarrow> 'v) \<Rightarrow> u16 \<Rightarrow> SupportedProtocolVersion option" where
  "version_lookup ProtocolVersion_from version n =
     (if ProtocolVersion_from n = version TLS12 then Some TLS12
      else if ProtocolVersion_from n = version TLS13 then Some TLS13
      else None)"

text \<open>The state with one more reference to each of these keys (with multiplicity).\<close>

definition bump_keys :: "nat list \<Rightarrow> world \<Rightarrow> world" where
  "bump_keys ks w =
     w\<lparr>h_certified_key := (\<lambda>a. map_option (\<lambda>i. i\<lparr>strong := strong i + count_list ks a\<rparr>) (h_certified_key w a))\<rparr>"

text \<open>The key pointers that are not null refer to keys C still has a reference to.\<close>

definition live_keys :: "CertifiedKey ptr list \<Rightarrow> world \<Rightarrow> bool" where
  "live_keys ps w = (\<forall>a. Ptr a \<in> set ps \<longrightarrow> (\<exists>i. h_certified_key w a = Some i \<and> 0 < strong i))"

text \<open>The C program gives up its own reference to each of these keys.\<close>

primrec free_keys :: "nat list \<Rightarrow> (world, unit) comp" where
  "free_keys [] w = Returned () w"
| "free_keys (k # ks) w = and_then (rustls_certified_key_free (Ptr k) w) (\<lambda>_ w. free_keys ks w)"

section \<open>Lemmas\<close>

lemma collect_suites_lookup:
  "collect_suites eq all_suites xs acc =
     (case find (\<lambda>x. isl (suite_lookup eq all_suites x)) xs of
        Some x \<Rightarrow> Inl (projl (suite_lookup eq all_suites x))
      | None \<Rightarrow> Inr (acc @ map (\<lambda>x. projr (suite_lookup eq all_suites x)) xs))"
  by (induction eq all_suites xs acc rule: collect_suites.induct)
    (auto simp: suite_lookup_def split: option.splits)

lemma collect_versions_lookup:
  "collect_versions pf version ns acc = acc @ List.map_filter (version_lookup pf version) ns"
  by (induction ns arbitrary: acc) (simp_all add: version_lookup_def Let_def map_filter_simps)

lemma collect_alpn_world: "collect_alpn ps vv w = Returned r w' \<Longrightarrow> w' = w"
  by (induction ps arbitrary: vv) (auto split: if_splits option.splits)

lemma collect_alpn_copies:
  "those (map (\<lambda>p. from_raw_parts u8_mem w (rsb_data p) (rsb_len p)) ps) = Some vs \<Longrightarrow>
     collect_alpn ps vv w = Returned (Some (vv @ vs)) w"
proof (induction ps arbitrary: vv vs)
  case (Cons p ps)
  then obtain v us where "from_raw_parts u8_mem w (rsb_data p) (rsb_len p) = Some v"
    and "those (map (\<lambda>p. from_raw_parts u8_mem w (rsb_data p) (rsb_len p)) ps) = Some us" and "vs = v # us"
    by (auto split: option.splits)
  moreover from this have "rsb_data p \<noteq> SNull" by auto
  ultimately show ?case using Cons.IH by simp
qed simp

lemma bump_keys_Nil [simp]: "bump_keys [] w = w"
  by (simp add: bump_keys_def option.map_ident)

lemma bump_keys_append: "bump_keys ks (bump_keys ls w) = bump_keys (ls @ ks) w"
  by (simp add: bump_keys_def option.map_comp comp_def add_ac)

lemma bump_keys_Cons: "bump_keys (k # ks) w = bump_keys ks (bump_keys [k] w)"
  by (simp add: bump_keys_append)

lemma to_arc_bump:
  "h_certified_key w a = Some i \<Longrightarrow> to_arc certified_key_heap (Ptr a) w = Returned (Some a) (bump_keys [a] w)"
  by (auto simp: to_arc_def bump_keys_def fun_eq_iff option.map_ident intro!: arg_cong2 [where f = Returned] world.fold_congs)

lemma live_keys_bump: "live_keys ps w \<Longrightarrow> live_keys ps (bump_keys ks w)"
  by (auto simp: live_keys_def bump_keys_def)

lemma release_bumped:
  assumes "h_certified_key w k = Some i" and "0 < strong i"
  shows "release_certified_key k (bump_keys (k # ks) w) = Returned () (bump_keys ks w)"
  using assms
  by (auto simp: release_certified_key_def arc_drop_def bump_keys_def fun_eq_iff intro!: world.fold_congs)

lemma release_keys_bumped:
  assumes "live_keys (map Ptr ks) w"
  shows "release_keys ks (bump_keys (ks @ ls) w) = Returned () (bump_keys ls w)"
  using assms
proof (induction ks arbitrary: w)
  case (Cons k ks)
  then obtain i where "h_certified_key w k = Some i" "0 < strong i" and live: "live_keys (map Ptr ks) w"
    by (auto simp: live_keys_def)
  then show ?case using Cons.IH [OF live] release_bumped [of w k i "ks @ ls"] by simp
qed simp

lemma clone_keys_bump: "live_keys (map Ptr ks) w \<Longrightarrow> clone_keys ks w = Returned () (bump_keys ks w)"
proof (induction ks arbitrary: w)
  case (Cons k ks)
  then obtain i where "h_certified_key w k = Some i" and live: "live_keys (map Ptr ks) (bump_keys [k] w)"
    using live_keys_bump [of "map Ptr ks" w "[k]"] by (auto simp: live_keys_def)
  then show ?case using Cons.IH [OF live] by (simp add: to_arc_bump bump_keys_Cons [of k ks])
qed simp

text \<open>Collecting an array of keys: one new reference each, or none at all.\<close>

lemma collect_keys_all:
  "live_keys (map Ptr ks) w \<Longrightarrow> collect_keys (map Ptr ks) acc w = Returned (Some (acc @ ks)) (bump_keys ks w)"
proof (induction ks arbitrary: acc w)
  case (Cons k ks)
  then obtain i where "h_certified_key w k = Some i" and live: "live_keys (map Ptr ks) (bump_keys [k] w)"
    using live_keys_bump [of "map Ptr ks" w "[k]"] by (auto simp: live_keys_def)
  then show ?case using Cons.IH [OF live] by (simp add: to_arc_bump bump_keys_Cons [of k ks])
qed simp

lemma collect_keys_null:
  "live_keys (map Ptr acc @ ps) w \<Longrightarrow> Null \<in> set ps \<Longrightarrow>
     collect_keys ps acc (bump_keys acc w) = Returned None w"
proof (induction ps arbitrary: acc)
  case (Cons p ps)
  show ?case
  proof (cases p)
    case Null
    have "live_keys (map Ptr acc) w" using Cons.prems(1) by (simp add: live_keys_def)
    from release_keys_bumped [OF this, of "[]"] Null show ?thesis by (simp add: to_arc_def)
  next
    case (Ptr a)
    then obtain i where "h_certified_key w a = Some i"
      using Cons.prems(1) by (auto simp: live_keys_def)
    then have "to_arc certified_key_heap (Ptr a) (bump_keys acc w) = Returned (Some a) (bump_keys (acc @ [a]) w)"
      using to_arc_bump [of "bump_keys acc w" a] by (simp add: bump_keys_append) (simp add: bump_keys_def)
    moreover have "collect_keys ps (acc @ [a]) (bump_keys (acc @ [a]) w) = Returned None w"
      using Cons Ptr by (intro Cons.IH) (auto simp: live_keys_def)
    ultimately show ?thesis using Ptr by simp
  qed
qed simp

text \<open>Giving up a reference of a key that has another one does not touch the key.\<close>

lemma free_keys_bumped:
  assumes "live_keys (map Ptr ks) w"
  shows "free_keys ks (bump_keys (ks @ ls) w) = Returned () (bump_keys ls w)"
  using assms
proof (induction ks arbitrary: w)
  case (Cons k ks)
  then obtain i where i: "h_certified_key w k = Some i" "0 < strong i" and live: "live_keys (map Ptr ks) w"
    by (auto simp: live_keys_def)
  have "rustls_certified_key_free (Ptr k) (bump_keys (k # ks @ ls) w) = Returned () (bump_keys (ks @ ls) w)"
    using i by (auto simp: rustls_certified_key_free_def ffi_panic_boundary_def arc_drop_opaque_def arc_drop_def
        bump_keys_def fun_eq_iff intro!: world.fold_congs)
  then show ?case using Cons.IH [OF live] by simp
qed simp

end
