(* ===== verification/Ffi_Io.thy ===== *)
theory Ffi_Io
  imports Ffi_Std
begin

text \<open>
  The adapters that turn the I/O callbacks of the C program into the traits \<open>Read\<close> and
  \<open>Write\<close> (\<open>src/io.rs\<close>).

  A C callback is a function of its arguments and of the state. A buffer it may write to is
  passed by value and its new contents are part of the result, as is the final value of
  \<open>out_n\<close>, which the adapters initialise with 0.
\<close>

section \<open>Callbacks\<close>

type_synonym 'w read_callbacks = "c_fn \<Rightarrow> void_ptr \<Rightarrow> bytes \<Rightarrow> usize \<Rightarrow> ('w, bytes \<times> usize \<times> c_int) comp"
type_synonym 'w write_callbacks = "c_fn \<Rightarrow> void_ptr \<Rightarrow> bytes \<Rightarrow> usize \<Rightarrow> ('w, usize \<times> c_int) comp"
type_synonym 'w write_vectored_callbacks =
  "c_fn \<Rightarrow> void_ptr \<Rightarrow> bytes list \<Rightarrow> usize \<Rightarrow> ('w, usize \<times> c_int) comp"

section \<open>Adapters\<close>

record CallbackReader =
  rd_callback :: c_fn
  rd_userdata :: void_ptr

definition CallbackReader_read ::
  "'w read_callbacks \<Rightarrow> CallbackReader \<Rightarrow> bytes \<Rightarrow> ('w, bytes \<times> (io_Error + usize)) comp" where
  "CallbackReader_read call self buf w =
     and_then (call (rd_callback self) (rd_userdata self) buf 0 w) (\<lambda>(buf, out_n, result) w.
       Returned (buf, if result = 0 then Inr out_n else Inl (from_raw_os_error result)) w)"

record CallbackWriter =
  wr_callback :: c_fn
  wr_userdata :: void_ptr

definition CallbackWriter_write ::
  "'w write_callbacks \<Rightarrow> CallbackWriter \<Rightarrow> bytes \<Rightarrow> ('w, io_Error + usize) comp" where
  "CallbackWriter_write call self buf w =
     and_then (call (wr_callback self) (wr_userdata self) buf 0 w) (\<lambda>(out_n, result) w.
       Returned (if result = 0 then Inr out_n else Inl (from_raw_os_error result)) w)"

definition CallbackWriter_flush :: "CallbackWriter \<Rightarrow> ('w, io_Error + unit) comp" where
  "CallbackWriter_flush self w = Returned (Inr ()) w"

record VectoredCallbackWriter =
  vw_callback :: c_fn
  vw_userdata :: void_ptr

definition VectoredCallbackWriter_write_vectored ::
  "'w write_vectored_callbacks \<Rightarrow> VectoredCallbackWriter \<Rightarrow> bytes list \<Rightarrow> ('w, io_Error + usize) comp" where
  "VectoredCallbackWriter_write_vectored call self bufs w =
     and_then (call (vw_callback self) (vw_userdata self) bufs 0 w) (\<lambda>(out_n, result) w.
       Returned (if result = 0 then Inr out_n else Inl (from_raw_os_error result)) w)"

definition VectoredCallbackWriter_write ::
  "'w write_vectored_callbacks \<Rightarrow> VectoredCallbackWriter \<Rightarrow> bytes \<Rightarrow> ('w, io_Error + usize) comp" where
  "VectoredCallbackWriter_write call self buf = VectoredCallbackWriter_write_vectored call self [buf]"

definition VectoredCallbackWriter_flush :: "VectoredCallbackWriter \<Rightarrow> ('w, io_Error + unit) comp" where
  "VectoredCallbackWriter_flush self w = Returned (Inr ()) w"

text \<open>
  The writers as \<open>&mut dyn Write\<close>. \<open>CallbackWriter\<close> has the vectored write that the trait
  provides: one write of the first slice that is not empty.
\<close>

record 'w dyn_Write =
  dyn_write :: "bytes \<Rightarrow> ('w, io_Error + usize) comp"
  dyn_write_vectored :: "bytes list \<Rightarrow> ('w, io_Error + usize) comp"

definition default_write_vectored ::
  "(bytes \<Rightarrow> ('w, io_Error + usize) comp) \<Rightarrow> bytes list \<Rightarrow> ('w, io_Error + usize) comp" where
  "default_write_vectored write bufs = write (case find (\<lambda>b. b \<noteq> []) bufs of Some b \<Rightarrow> b | None \<Rightarrow> [])"

definition CallbackWriter_dyn :: "'w write_callbacks \<Rightarrow> CallbackWriter \<Rightarrow> 'w dyn_Write" where
  "CallbackWriter_dyn call self =
     \<lparr>dyn_write = CallbackWriter_write call self,
      dyn_write_vectored = default_write_vectored (CallbackWriter_write call self)\<rparr>"

definition VectoredCallbackWriter_dyn ::
  "'w write_vectored_callbacks \<Rightarrow> VectoredCallbackWriter \<Rightarrow> 'w dyn_Write" where
  "VectoredCallbackWriter_dyn call self =
     \<lparr>dyn_write = VectoredCallbackWriter_write call self,
      dyn_write_vectored = VectoredCallbackWriter_write_vectored call self\<rparr>"

lemmas adapter_defs = CallbackReader_read_def CallbackWriter_write_def
  VectoredCallbackWriter_write_vectored_def VectoredCallbackWriter_write_def

section \<open>The contract of an adapter\<close>

text \<open>
  The error number the entry points report for the result of an I/O operation:
  \<open>e.raw_os_error().unwrap_or(EIO)\<close>, and 0 for success.
\<close>

primrec io_code :: "io_Error + 'a \<Rightarrow> c_int" where
  "io_code (Inr n) = 0"
| "io_code (Inl e) = (case raw_os_error e of Some c \<Rightarrow> c | None \<Rightarrow> EIO)"

text \<open>
  An adapter runs a callback exactly once, adds nothing to what the callback does to the
  state, reports the count on code 0 and the code itself otherwise.
\<close>

locale callback_adapter =
  fixes call :: "'b \<Rightarrow> ('w, usize \<times> c_int) comp"
    and adapter :: "'b \<Rightarrow> ('w, io_Error + usize) comp"
  assumes on_success: "call b w = Returned (n, 0) w' \<Longrightarrow> adapter b w = Returned (Inr n) w'"
    and on_error: "\<lbrakk>call b w = Returned (n, e) w'; e \<noteq> 0\<rbrakk> \<Longrightarrow>
      adapter b w = Returned (Inl (from_raw_os_error e)) w'"
    and on_unwind: "call b w = Unwound w' \<Longrightarrow> adapter b w = Unwound w'"
    and on_undefined: "call b w = Undefined \<Longrightarrow> adapter b w = Undefined"
begin

text \<open>Whatever the callback returns reaches the caller unchanged, and is never confused with EIO.\<close>

lemma code_passes_through:
  "call b w = Returned (n, e) w' \<Longrightarrow> \<exists>r. adapter b w = Returned r w' \<and> io_code r = e \<and> (e = 0 \<longrightarrow> r = Inr n)"
  using on_success [of b w n w'] on_error [of b w n e w'] by (cases "e = 0") auto

lemma error_is_callback_code:
  assumes "adapter b w = Returned (Inl e) w'"
  shows "\<exists>n c. call b w = Returned (n, c) w' \<and> c \<noteq> 0 \<and> e = from_raw_os_error c"
proof (cases "call b w")
  case (Returned a w1)
  obtain n c where a: "a = (n, c)" by (cases a)
  show ?thesis
  proof (cases "c = 0")
    case True
    then show ?thesis using on_success [of b w n w1] Returned a assms by simp
  next
    case False
    then show ?thesis using on_error [of b w n c w1] Returned a assms by simp
  qed
next
  case (Unwound w1)
  then show ?thesis using on_unwind [of b w w1] assms by simp
next
  case Undefined
  then show ?thesis using on_undefined [of b w] assms by simp
qed

lemma adapter_leaves: "leaves P (call b w) \<Longrightarrow> leaves P (adapter b w)"
proof (cases "call b w")
  case (Returned a w1)
  then show "leaves P (call b w) \<Longrightarrow> ?thesis"
    using code_passes_through [of b w "fst a" "snd a" w1] by auto
qed (use on_unwind on_undefined in auto)

end

interpretation callback_writer:
  callback_adapter "\<lambda>buf. call (wr_callback self) (wr_userdata self) buf 0" "CallbackWriter_write call self"
  for call :: "'w write_callbacks" and self
  by unfold_locales (simp_all add: adapter_defs)

interpretation vectored_writer:
  callback_adapter "\<lambda>bufs. call (vw_callback self) (vw_userdata self) bufs 0"
    "VectoredCallbackWriter_write_vectored call self"
  for call :: "'w write_vectored_callbacks" and self
  by unfold_locales (simp_all add: adapter_defs)

text \<open>The plain \<open>write\<close> of the vectored writer is the vectored one on a single slice.\<close>

interpretation vectored_single_writer:
  callback_adapter "\<lambda>buf. call (vw_callback self) (vw_userdata self) [buf] 0"
    "VectoredCallbackWriter_write call self"
  for call :: "'w write_vectored_callbacks" and self
  by unfold_locales (simp_all add: adapter_defs)

text \<open>Of a reader, the contract is about the count and the code; the buffer is the callback's.\<close>

definition forget_buffer :: "('b \<times> 'a, 'w) outcome \<Rightarrow> ('a, 'w) outcome" where
  "forget_buffer r = and_then r (\<lambda>(b, a) w. Returned a w)"

interpretation callback_reader:
  callback_adapter "\<lambda>buf w. forget_buffer (call (rd_callback self) (rd_userdata self) buf 0 w)"
    "\<lambda>buf w. forget_buffer (CallbackReader_read call self buf w)"
  for call :: "'w read_callbacks" and self
  by unfold_locales
    (simp_all add: adapter_defs forget_buffer_def and_then_def split: outcome.splits prod.splits)

end
