(* ===== verification/Ffi_Log.thy ===== *)
theory Ffi_Log
  imports Ffi_World
begin

text \<open>
  Log capture (\<open>src/log.rs\<close>): a log record that rustls emits goes to the log callback of the
  connection the current thread works on, with the userdata of that connection.
\<close>

datatype Level = Level_Error | Level_Warn | Level_Info | Level_Debug | Level_Trace

primrec level_usize :: "Level \<Rightarrow> usize" where
  "level_usize Level_Error = 1"
| "level_usize Level_Warn = 2"
| "level_usize Level_Info = 3"
| "level_usize Level_Debug = 4"
| "level_usize Level_Trace = 5"

primrec level_as_str :: "Level \<Rightarrow> bytes" where
  "level_as_str Level_Error = as_bytes ''ERROR''"
| "level_as_str Level_Warn = as_bytes ''WARN''"
| "level_as_str Level_Info = as_bytes ''INFO''"
| "level_as_str Level_Debug = as_bytes ''DEBUG''"
| "level_as_str Level_Trace = as_bytes ''TRACE''"

text \<open>A log record: the crate path it comes from and the formatted arguments.\<close>

record log_Record =
  rec_level :: Level
  rec_target :: bytes
  rec_args :: bytes

record rustls_log_params =
  lp_level :: usize
  lp_message :: rustls_str

type_synonym 'w log_callbacks = "c_fn \<Rightarrow> void_ptr \<Rightarrow> rustls_log_params \<Rightarrow> ('w, unit) comp"

definition Logger_enabled :: "log_Record \<Rightarrow> bool" where
  "Logger_enabled metadata = True"

definition Logger_log :: "world log_callbacks \<Rightarrow> log_Record \<Rightarrow> (world, unit) comp" where
  "Logger_log call rec w =
     (case log_callback_get (USERDATA w) of
        Inr (Some cb, userdata) \<Rightarrow>
          (let message = rec_target rec @ as_bytes '' '' @ rec_args rec
           in case rustls_str_try_from message of
                Inr message \<Rightarrow>
                  call cb userdata \<lparr>lp_level = level_usize (rec_level rec), lp_message = message\<rparr> w
              | Inl _ \<Rightarrow> Returned () w)
      | _ \<Rightarrow> Returned () w)"

definition Logger_flush :: "(world, unit) comp" where
  "Logger_flush w = Returned () w"

text \<open>
  \<open>ensure_log_registered\<close>: a failing \<open>set_logger\<close> (some logger is registered already) is
  ignored. The registration itself is state of the \<open>log\<close> crate.
\<close>

definition ensure_log_registered ::
  "(world, unit + unit) comp \<Rightarrow> (Level \<Rightarrow> (world, unit) comp) \<Rightarrow> (world, unit) comp" where
  "ensure_log_registered set_logger set_max_level w =
     and_then (set_logger w) (\<lambda>_ w. set_max_level Level_Debug w)"

text \<open>In a build with the feature \<open>no_log_capture\<close> it does nothing.\<close>

definition ensure_log_registered_no_log_capture :: "(world, unit) comp" where
  "ensure_log_registered_no_log_capture w = Returned () w"

definition rustls_log_level_str :: "usize \<Rightarrow> rustls_str" where
  "rustls_log_level_str level =
     (let s = if level = 1 then level_as_str Level_Error
              else if level = 2 then level_as_str Level_Warn
              else if level = 3 then level_as_str Level_Info
              else if level = 4 then level_as_str Level_Debug
              else if level = 5 then level_as_str Level_Trace
              else as_bytes ''INVALID''
      in from_str_unchecked s)"

section \<open>Properties\<close>

text \<open>
  A build without log capture is the one with a \<open>log\<close> crate that does nothing, so what is shown for every
  \<open>set_logger\<close> and \<open>set_max_level\<close> covers both builds.
\<close>

lemma no_log_capture_is_instance:
  "ensure_log_registered (Returned r) (\<lambda>_. Returned ()) = ensure_log_registered_no_log_capture"
  by (simp add: fun_eq_iff ensure_log_registered_def ensure_log_registered_no_log_capture_def)

lemma as_bytes_literals:
  "as_bytes ''ERROR'' = [69, 82, 82, 79, 82]" "as_bytes ''WARN'' = [87, 65, 82, 78]"
  "as_bytes ''INFO'' = [73, 78, 70, 79]" "as_bytes ''DEBUG'' = [68, 69, 66, 85, 71]"
  "as_bytes ''TRACE'' = [84, 82, 65, 67, 69]" "as_bytes ''INVALID'' = [73, 78, 86, 65, 76, 73, 68]"
  "as_bytes '' '' = [32]"
  by (simp_all add: as_bytes_def)

lemma all_levels:
  "(\<forall>l. P l) \<longleftrightarrow> P Level_Error \<and> P Level_Warn \<and> P Level_Info \<and> P Level_Debug \<and> P Level_Trace"
proof (intro iffI allI)
  fix l
  assume "P Level_Error \<and> P Level_Warn \<and> P Level_Info \<and> P Level_Debug \<and> P Level_Trace"
  then show "P l" by (cases l) simp_all
qed simp

text \<open>
  A log record reaches the C program exactly when the connection on top of this thread's
  stack has a log callback and the message has no NUL byte. The callback then gets that
  connection's userdata, the record's level, and the target and the arguments separated by one space;
  otherwise nothing happens.
\<close>

theorem Logger_log_exact:
  "Logger_log call rec w =
     (if usable (USERDATA w) \<and> stack (USERDATA w) \<noteq> []
         \<and> ud_log_callback (last (stack (USERDATA w))) \<noteq> None
         \<and> 0 \<notin> set (rec_target rec) \<and> 0 \<notin> set (rec_args rec)
      then let m = rec_target rec @ [32] @ rec_args rec
           in call (the (ud_log_callback (last (stack (USERDATA w))))) (ud_userdata (last (stack (USERDATA w))))
             \<lparr>lp_level = level_usize (rec_level rec), lp_message = \<lparr>rs_data = SBorrow m, rs_len = of_nat (length m)\<rparr>\<rparr> w
      else Returned () w)"
  by (auto simp: Logger_log_def log_callback_get_def usable_def rustls_str_try_from_def
      as_bytes_literals Let_def split: option.splits)

text \<open>
  Level numbers and their names: a number's name is the name of a level exactly when the
  number is that level's, so the names of the five levels are told apart and every other number
  is \<open>INVALID\<close>.
\<close>

theorem log_level_str_exact:
  "(rs_data (rustls_log_level_str n) = SBorrow (level_as_str l) \<longleftrightarrow> n = level_usize l)
   \<and> (rs_data (rustls_log_level_str n) = SBorrow (as_bytes ''INVALID'') \<longleftrightarrow> (\<forall>l. n \<noteq> level_usize l))"
proof -
  have all: "(\<forall>l. n \<noteq> level_usize l) \<longleftrightarrow> n \<notin> {1, 2, 3, 4, 5}"
    by (simp add: all_levels)
  show ?thesis
    unfolding all by (cases l) (auto simp: rustls_log_level_str_def from_str_unchecked_def as_bytes_literals)
qed

end
