(* ===== verification/Ffi_Connection.thy ===== *)
theory Ffi_Connection
  imports Ffi_Casts Ffi_Error Ffi_Io Ffi_Log
begin

text \<open>
  Connections (\<open>src/connection.rs\<close>): the TLS and plaintext I/O entry points, the accessors,
  and the life of a \<open>rustls_connection\<close>.

  What \<open>rustls::Connection\<close> does is a parameter. A method that takes \<open>&mut self\<close> is a computation on
  the pair of the rustls connection and the world, so that its effect on the
  connection is known on every exit, also when it unwinds. While it runs, the connection is
  borrowed exclusively: it is not in the heap, so a callback that passes the same pointer back
  to the library has undefined behaviour, as in Rust.
\<close>

section \<open>The struct\<close>

definition from_client :: "ClientConnection \<Rightarrow> Connection" where
  "from_client conn = \<lparr>conn_inner = Client conn, conn_userdata = Null, conn_log_callback = None\<rparr>"

definition from_server :: "ServerConnection \<Rightarrow> Connection" where
  "from_server conn = \<lparr>conn_inner = Server conn, conn_userdata = Null, conn_log_callback = None\<rparr>"

definition as_client :: "Connection \<Rightarrow> ClientConnection option" where
  "as_client self = (case conn_inner self of Client c \<Rightarrow> Some c | _ \<Rightarrow> None)"

definition as_server :: "Connection \<Rightarrow> ServerConnection option" where
  "as_server self = (case conn_inner self of Server s \<Rightarrow> Some s | _ \<Rightarrow> None)"

text \<open>
  The variants that give a mutable reference: what is there and how a new value is put in its place. A
  \<open>Connection\<close> dereferences to the connection of rustls in it.
\<close>

definition as_client_mut :: "Connection \<Rightarrow> (ClientConnection \<times> (ClientConnection \<Rightarrow> Connection)) option" where
  "as_client_mut self = (case conn_inner self of Client c \<Rightarrow> Some (c, \<lambda>c. self\<lparr>conn_inner := Client c\<rparr>) | _ \<Rightarrow> None)"

definition as_server_mut :: "Connection \<Rightarrow> (ServerConnection \<times> (ServerConnection \<Rightarrow> Connection)) option" where
  "as_server_mut self = (case conn_inner self of Server s \<Rightarrow> Some (s, \<lambda>s. self\<lparr>conn_inner := Server s\<rparr>) | _ \<Rightarrow> None)"

definition deref :: "Connection \<Rightarrow> rustls_Connection" where
  "deref self = conn_inner self"

definition deref_mut :: "Connection \<Rightarrow> rustls_Connection \<Rightarrow> Connection" where
  "deref_mut self i = self\<lparr>conn_inner := i\<rparr>"

declare deref_def [simp] and deref_mut_def [simp]

lemma mut_accessors:
  "map_option fst (as_client_mut self) = as_client self" "map_option fst (as_server_mut self) = as_server self"
  "as_client_mut self = Some (c, put) \<Longrightarrow> put c = self \<and> as_client (put c') = Some c'"
  "as_server_mut self = Some (s, put') \<Longrightarrow> put' s = self \<and> as_server (put' s') = Some s'"
  by (auto simp: as_client_mut_def as_server_mut_def as_client_def as_server_def split: rustls_Connection.splits)

section \<open>Calling into rustls\<close>

type_synonym 'r inner_method = "(rustls_Connection \<times> world, 'r) comp"

definition call_inner :: "nat \<Rightarrow> 'r inner_method \<Rightarrow> (world, 'r) comp" where
  "call_inner a method w =
     (case h_connection w a of
        None \<Rightarrow> Undefined
      | Some c \<Rightarrow>
          (case method (deref c, hdel connection_heap a w) of
             Returned r (i, w') \<Rightarrow> Returned r (hput connection_heap a (deref_mut c i) w')
           | Unwound (i, w') \<Rightarrow> Unwound (hput connection_heap a (deref_mut c i) w')
           | Undefined \<Rightarrow> Undefined))"

text \<open>
  The same with a mutable slice of C memory lent to the method: its bytes are part of the
  state of the method and are written back on every exit. A slice cannot grow.
\<close>

definition call_inner_buf ::
  "nat \<Rightarrow> nat \<Rightarrow> nat \<Rightarrow> ((rustls_Connection \<times> bytes) \<times> world, 'r) comp \<Rightarrow> (world, 'r) comp" where
  "call_inner_buf a buf count method w =
     (case h_connection w a of
        None \<Rightarrow> Undefined
      | Some c \<Rightarrow>
     case read_range (m_u8 w) buf count of
        None \<Rightarrow> Undefined
      | Some bs \<Rightarrow>
     let restore = (\<lambda>i bs w'. if count < length bs then (\<lambda>_. Undefined) else and_then (copy_to u8_mem (Ptr buf) bs (hput connection_heap a (deref_mut c i) w')))
     in case method ((deref c, bs), hdel connection_heap a w) of
          Returned r ((i, bs), w') \<Rightarrow> restore i bs w' (\<lambda>_ w. Returned r w)
        | Unwound ((i, bs), w') \<Rightarrow> restore i bs w' (\<lambda>_ w. Unwound w)
        | Undefined \<Rightarrow> Undefined)"

section \<open>Userdata and logging\<close>

definition rustls_connection_set_userdata :: "Connection ptr \<Rightarrow> void_ptr \<Rightarrow> (world, unit) comp" where
  "rustls_connection_set_userdata conn userdata =
     try_mut_from_ptr connection_heap defaultable_ret conn (\<lambda>a c w.
       Returned () (hput connection_heap a (c\<lparr>conn_userdata := userdata\<rparr>) w))"

definition rustls_connection_set_log_callback ::
  "(world, unit + unit) comp \<Rightarrow> (Level \<Rightarrow> (world, unit) comp) \<Rightarrow> Connection ptr \<Rightarrow> c_fn option \<Rightarrow>
   (world, unit) comp" where
  "rustls_connection_set_log_callback set_logger set_max_level conn cb =
     try_mut_from_ptr connection_heap defaultable_ret conn (\<lambda>a c w.
       and_then (ensure_log_registered set_logger set_max_level w) (\<lambda>_ w.
       Returned () (hput connection_heap a (c\<lparr>conn_log_callback := cb\<rparr>) w)))"

section \<open>TLS input and output\<close>

definition rustls_connection_read_tls ::
  "((bytes \<Rightarrow> (world, bytes \<times> (io_Error + usize)) comp) \<Rightarrow> (io_Error + usize) inner_method) \<Rightarrow>
   world read_callbacks \<Rightarrow> Connection ptr \<Rightarrow> c_fn option \<Rightarrow> void_ptr \<Rightarrow> usize ptr \<Rightarrow>
   (world, rustls_io_result) comp" where
  "rustls_connection_read_tls read_tls call conn callback userdata out_n =
     ffi_panic_boundary io_ret (try_mut_from_ptr connection_heap io_ret conn (\<lambda>a _ w.
       if is_null out_n then Returned EINVAL w
       else try_callback io_ret callback (\<lambda>callback w.
         let reader = \<lparr>rd_callback = callback, rd_userdata = userdata\<rparr>
         in and_then (call_inner a (read_tls (CallbackReader_read call reader)) w) (\<lambda>r w.
            case r of
              Inl e \<Rightarrow> Returned (case raw_os_error e of Some c \<Rightarrow> c | None \<Rightarrow> EIO) w
            | Inr n_read \<Rightarrow> and_then (write_cell usize_mem out_n n_read w) (\<lambda>_ w. Returned 0 w))) w))"

definition rustls_connection_write_tls ::
  "(world dyn_Write \<Rightarrow> (io_Error + usize) inner_method) \<Rightarrow>
   world write_callbacks \<Rightarrow> Connection ptr \<Rightarrow> c_fn option \<Rightarrow> void_ptr \<Rightarrow> usize ptr \<Rightarrow>
   (world, rustls_io_result) comp" where
  "rustls_connection_write_tls write_tls call conn callback userdata out_n =
     ffi_panic_boundary io_ret (try_mut_from_ptr connection_heap io_ret conn (\<lambda>a _ w.
       if is_null out_n then Returned EINVAL w
       else try_callback io_ret callback (\<lambda>callback w.
         let writer = \<lparr>wr_callback = callback, wr_userdata = userdata\<rparr>
         in and_then (call_inner a (write_tls (CallbackWriter_dyn call writer)) w) (\<lambda>r w.
            case r of
              Inl e \<Rightarrow> Returned (case raw_os_error e of Some c \<Rightarrow> c | None \<Rightarrow> EIO) w
            | Inr n_written \<Rightarrow> and_then (write_cell usize_mem out_n n_written w) (\<lambda>_ w. Returned 0 w))) w))"

definition rustls_connection_write_tls_vectored ::
  "(world dyn_Write \<Rightarrow> (io_Error + usize) inner_method) \<Rightarrow>
   world write_vectored_callbacks \<Rightarrow> Connection ptr \<Rightarrow> c_fn option \<Rightarrow> void_ptr \<Rightarrow> usize ptr \<Rightarrow>
   (world, rustls_io_result) comp" where
  "rustls_connection_write_tls_vectored write_tls call conn callback userdata out_n =
     ffi_panic_boundary io_ret (try_mut_from_ptr connection_heap io_ret conn (\<lambda>a _ w.
       if is_null out_n then Returned EINVAL w
       else try_callback io_ret callback (\<lambda>callback w.
         let writer = \<lparr>vw_callback = callback, vw_userdata = userdata\<rparr>
         in and_then (call_inner a (write_tls (VectoredCallbackWriter_dyn call writer)) w) (\<lambda>r w.
            case r of
              Inl e \<Rightarrow> Returned (case raw_os_error e of Some c \<Rightarrow> c | None \<Rightarrow> EIO) w
            | Inr n_written \<Rightarrow> and_then (write_cell usize_mem out_n n_written w) (\<lambda>_ w. Returned 0 w))) w))"

section \<open>Processing packets\<close>

text \<open>
  The guard lives in the frame of this function: when rustls unwinds, its \<open>Drop\<close> runs before
  the panic reaches the boundary.
\<close>

definition rustls_connection_process_new_packets ::
  "(rustls_Error + 'io) inner_method \<Rightarrow> Connection ptr \<Rightarrow> (world, rustls_result) comp" where
  "rustls_connection_process_new_packets process_new_packets conn =
     ffi_panic_boundary rr_ret (try_mut_from_ptr connection_heap rr_ret conn (\<lambda>a c w.
       case userdata_push (conn_userdata c) (conn_log_callback c) (USERDATA w) of
         (Inl _, cell) \<Rightarrow> Returned Panic (w\<lparr>USERDATA := cell\<rparr>)
       | (Inr guard, cell) \<Rightarrow>
           (case call_inner a process_new_packets (w\<lparr>USERDATA := cell\<rparr>) of
              Undefined \<Rightarrow> Undefined
            | Unwound w \<Rightarrow> Unwound (w\<lparr>USERDATA := guard_drop guard (USERDATA w)\<rparr>)
            | Returned r w \<Rightarrow>
                let result = (case r of Inr _ \<Rightarrow> Ok | Inl e \<Rightarrow> map_error e)
                in case try_drop guard (USERDATA w) of
                     (Inr _, cell) \<Rightarrow> Returned result (w\<lparr>USERDATA := cell\<rparr>)
                   | (Inl _, cell) \<Rightarrow> Returned Panic (w\<lparr>USERDATA := cell\<rparr>))))"

section \<open>State queries and settings\<close>

definition rustls_connection_wants_read ::
  "(rustls_Connection \<Rightarrow> bool) \<Rightarrow> Connection ptr \<Rightarrow> (world, bool) comp" where
  "rustls_connection_wants_read wants_read conn =
     ffi_panic_boundary defaultable_ret (try_ref_from_ptr connection_heap defaultable_ret conn
       (\<lambda>c. Returned (wants_read (conn_inner c))))"

definition rustls_connection_wants_write ::
  "(rustls_Connection \<Rightarrow> bool) \<Rightarrow> Connection ptr \<Rightarrow> (world, bool) comp" where
  "rustls_connection_wants_write wants_write conn =
     ffi_panic_boundary defaultable_ret (try_ref_from_ptr connection_heap defaultable_ret conn
       (\<lambda>c. Returned (wants_write (conn_inner c))))"

definition rustls_connection_is_handshaking ::
  "(rustls_Connection \<Rightarrow> bool) \<Rightarrow> Connection ptr \<Rightarrow> (world, bool) comp" where
  "rustls_connection_is_handshaking is_handshaking conn =
     ffi_panic_boundary defaultable_ret (try_ref_from_ptr connection_heap defaultable_ret conn
       (\<lambda>c. Returned (is_handshaking (conn_inner c))))"

definition rustls_connection_set_buffer_limit ::
  "(usize option \<Rightarrow> unit inner_method) \<Rightarrow> Connection ptr \<Rightarrow> usize \<Rightarrow> (world, unit) comp" where
  "rustls_connection_set_buffer_limit set_buffer_limit conn n =
     ffi_panic_boundary defaultable_ret (try_mut_from_ptr connection_heap defaultable_ret conn
       (\<lambda>a _. call_inner a (set_buffer_limit (Some n))))"

definition rustls_connection_send_close_notify ::
  "unit inner_method \<Rightarrow> Connection ptr \<Rightarrow> (world, unit) comp" where
  "rustls_connection_send_close_notify send_close_notify conn =
     ffi_panic_boundary defaultable_ret (try_mut_from_ptr connection_heap defaultable_ret conn
       (\<lambda>a _. call_inner a send_close_notify))"

section \<open>What was negotiated\<close>

definition rustls_connection_get_peer_certificate ::
  "(rustls_Connection \<Rightarrow> Certificate list option) \<Rightarrow> Connection ptr \<Rightarrow> usize \<Rightarrow>
   (world, Certificate option) comp" where
  "rustls_connection_get_peer_certificate peer_certificates conn i =
     ffi_panic_boundary defaultable_ret (try_ref_from_ptr connection_heap defaultable_ret conn (\<lambda>c.
       Returned (case peer_certificates (conn_inner c) of None \<Rightarrow> None | Some cs \<Rightarrow> slice_get cs i)))"

definition rustls_connection_get_alpn_protocol ::
  "(rustls_Connection \<Rightarrow> bytes option) \<Rightarrow> Connection ptr \<Rightarrow> u8 sptr ptr \<Rightarrow> usize ptr \<Rightarrow>
   (world, unit) comp" where
  "rustls_connection_get_alpn_protocol alpn_protocol conn protocol_out protocol_out_len =
     ffi_panic_boundary defaultable_ret (try_ref_from_ptr connection_heap defaultable_ret conn (\<lambda>c w.
       if is_null protocol_out \<or> is_null protocol_out_len then Returned () w
       else case alpn_protocol (conn_inner c) of
              Some p \<Rightarrow>
                and_then (write_cell u8_ptr_mem protocol_out (SBorrow p) w) (\<lambda>_ w.
                write_cell usize_mem protocol_out_len (of_nat (length p)) w)
            | None \<Rightarrow>
                and_then (write_cell u8_ptr_mem protocol_out SNull w) (\<lambda>_ w.
                write_cell usize_mem protocol_out_len 0 w)))"

definition rustls_connection_get_protocol_version ::
  "(rustls_Connection \<Rightarrow> 'v option) \<Rightarrow> ('v \<Rightarrow> u16) \<Rightarrow> Connection ptr \<Rightarrow> (world, u16) comp" where
  "rustls_connection_get_protocol_version protocol_version get_u16 conn =
     ffi_panic_boundary defaultable_ret (try_ref_from_ptr connection_heap defaultable_ret conn (\<lambda>c.
       Returned (case protocol_version (conn_inner c) of Some p \<Rightarrow> get_u16 p | _ \<Rightarrow> 0)))"

text \<open>The loop over \<open>ALL_CIPHER_SUITES\<close> returns the first entry that equals the negotiated one.\<close>

definition rustls_connection_get_negotiated_ciphersuite ::
  "(rustls_Connection \<Rightarrow> SupportedCipherSuite option) \<Rightarrow>
   (SupportedCipherSuite \<Rightarrow> SupportedCipherSuite \<Rightarrow> bool) \<Rightarrow> SupportedCipherSuite list \<Rightarrow>
   Connection ptr \<Rightarrow> (world, SupportedCipherSuite option) comp" where
  "rustls_connection_get_negotiated_ciphersuite negotiated_cipher_suite eq ALL_CIPHER_SUITES conn =
     ffi_panic_boundary defaultable_ret (try_ref_from_ptr connection_heap defaultable_ret conn (\<lambda>c.
       Returned (case negotiated_cipher_suite (conn_inner c) of
                   None \<Rightarrow> None
                 | Some negotiated \<Rightarrow> find (\<lambda>cs. eq negotiated cs) ALL_CIPHER_SUITES)))"

section \<open>Plaintext input and output\<close>

definition rustls_connection_write ::
  "(bytes \<Rightarrow> (io_Error + usize) inner_method) \<Rightarrow> Connection ptr \<Rightarrow> u8 sptr \<Rightarrow> usize \<Rightarrow> usize ptr \<Rightarrow>
   (world, rustls_result) comp" where
  "rustls_connection_write writer_write conn buf count out_n =
     ffi_panic_boundary rr_ret (try_mut_from_ptr connection_heap rr_ret conn (\<lambda>a _.
       try_slice u8_mem rr_ret buf count (\<lambda>write_buf w.
       if is_null out_n then Returned NullParameter w
       else and_then (call_inner a (writer_write write_buf) w) (\<lambda>r w.
         case r of
           Inl _ \<Rightarrow> Returned Io w
         | Inr n_written \<Rightarrow> and_then (write_cell usize_mem out_n n_written w) (\<lambda>_ w. Returned Ok w)))))"

text \<open>The codes that \<open>read\<close> reports for an I/O error.\<close>

definition read_error :: "io_Error \<Rightarrow> rustls_result" where
  "read_error e =
     (if io_kind e = UnexpectedEofKind then UnexpectedEof
      else if io_kind e = WouldBlockKind then PlaintextEmpty
      else Io)"

definition rustls_connection_read ::
  "((rustls_Connection \<times> bytes) \<times> world, io_Error + usize) comp \<Rightarrow>
   Connection ptr \<Rightarrow> u8 ptr \<Rightarrow> usize \<Rightarrow> usize ptr \<Rightarrow> (world, rustls_result) comp" where
  "rustls_connection_read reader_read conn buf count out_n =
     ffi_panic_boundary rr_ret (try_mut_from_ptr connection_heap rr_ret conn (\<lambda>a _ w.
       case buf of
         Null \<Rightarrow> Returned NullParameter w
       | Ptr b \<Rightarrow>
           if is_null out_n then Returned NullParameter w
           else and_then (call_inner_buf a b (unat count) reader_read w) (\<lambda>r w.
             case r of
               Inl e \<Rightarrow> Returned (read_error e) w
             | Inr n_read \<Rightarrow> and_then (write_cell usize_mem out_n n_read w) (\<lambda>_ w. Returned Ok w))))"

text \<open>
  \<open>rustls_connection_read_2\<close> (feature \<open>read_buf\<close>): the slice is uninitialised, so the method does
  not see its bytes; it appends to the filled part, which starts empty.
\<close>

definition rustls_connection_read_2 ::
  "(nat \<Rightarrow> ((rustls_Connection \<times> bytes) \<times> world, io_Error + unit) comp) \<Rightarrow>
   Connection ptr \<Rightarrow> u8 ptr \<Rightarrow> usize \<Rightarrow> usize ptr \<Rightarrow> (world, rustls_result) comp" where
  "rustls_connection_read_2 reader_read_buf conn buf count out_n =
     ffi_panic_boundary rr_ret (try_mut_from_ptr connection_heap rr_ret conn (\<lambda>a _ w.
       case buf of
         Null \<Rightarrow> Returned NullParameter w
       | Ptr b \<Rightarrow>
           if is_null out_n then Returned NullParameter w
           else and_then (call_inner_buf a b (unat count)
                  (\<lambda>((i, _), w).
                     case reader_read_buf (unat count) ((i, []), w) of
                       Undefined \<Rightarrow> Undefined
                     | Unwound s \<Rightarrow> Unwound s
                     | Returned r ((i, filled), w) \<Rightarrow>
                         Returned (case r of Inl e \<Rightarrow> Inl e | Inr _ \<Rightarrow> Inr (of_nat (length filled) :: usize))
                                  ((i, filled), w)) w) (\<lambda>r w.
             case r of
               Inl e \<Rightarrow> Returned (read_error e) w
             | Inr n_read \<Rightarrow> and_then (write_cell usize_mem out_n n_read w) (\<lambda>_ w. Returned Ok w))))"

section \<open>The end of a connection\<close>

definition rustls_connection_free ::
  "(rustls_Connection \<Rightarrow> (world, unit) comp) \<Rightarrow> Connection ptr \<Rightarrow> (world, unit) comp" where
  "rustls_connection_free drop_inner conn =
     ffi_panic_boundary defaultable_ret (try_mut_from_ptr connection_heap defaultable_ret conn
       (\<lambda>a c w. drop_inner (conn_inner c) (hdel connection_heap a w)))"

section \<open>Vocabulary of the properties\<close>

text \<open>The state in which rustls processes packets: the connection is borrowed, its userdata is on top.\<close>

definition processing :: "nat \<Rightarrow> Connection \<Rightarrow> world \<Rightarrow> world" where
  "processing a c w =
     w\<lparr>h_connection := (h_connection w)(a := None),
       USERDATA := (USERDATA w)\<lparr>stack := stack (USERDATA w) @
         [\<lparr>ud_userdata = conn_userdata c, ud_log_callback = conn_log_callback c\<rparr>]\<rparr>\<rparr>"

text \<open>The state after a call on the connection that left the rustls connection \<open>i\<close>.\<close>

definition returned_inner :: "nat \<Rightarrow> Connection \<Rightarrow> rustls_Connection \<Rightarrow> world \<Rightarrow> world" where
  "returned_inner a c i w = w\<lparr>h_connection := (h_connection w)(a \<mapsto> c\<lparr>conn_inner := i\<rparr>)\<rparr>"

text \<open>
  What rustls documents of \<open>read_tls\<close> and \<open>write_tls\<close>: an error they return is one that the
  reader or the writer returned.
\<close>

definition reader_errors_only ::
  "((bytes \<Rightarrow> (world, bytes \<times> (io_Error + usize)) comp) \<Rightarrow> (io_Error + usize) inner_method) \<Rightarrow> bool" where
  "reader_errors_only read_tls =
     (\<forall>rd s e s'. read_tls rd s = Returned (Inl e) s' \<longrightarrow> (\<exists>buf w b w'. rd buf w = Returned (b, Inl e) w'))"

definition writer_errors_only :: "(world dyn_Write \<Rightarrow> (io_Error + usize) inner_method) \<Rightarrow> bool" where
  "writer_errors_only write_tls =
     (\<forall>wr s e s'. write_tls wr s = Returned (Inl e) s' \<longrightarrow>
        (\<exists>bufs w w'. dyn_write_vectored wr bufs w = Returned (Inl e) w')
      \<or> (\<exists>buf w w'. dyn_write wr buf w = Returned (Inl e) w'))"

text \<open>
  What the caller learns from the code of a TLS I/O entry point: with 0, the call went through
  and \<open>out_n\<close> has the count of rustls; any other code but \<open>EINVAL\<close> satisfies \<open>from_callback\<close>.
\<close>

definition io_verdict ::
  "(io_Error + usize) inner_method \<Rightarrow> (c_int \<Rightarrow> bool) \<Rightarrow> nat \<Rightarrow> nat \<Rightarrow> world \<Rightarrow> c_int \<Rightarrow> world \<Rightarrow> bool" where
  "io_verdict method from_callback a o' w code w' =
     (if code = 0
      then \<exists>c i w1 n. h_connection w a = Some c
        \<and> method (conn_inner c, w\<lparr>h_connection := (h_connection w)(a := None)\<rparr>) = Returned (Inr n) (i, w1)
        \<and> w' = (returned_inner a c i w1)\<lparr>m_usize := (m_usize w1)(o' \<mapsto> n)\<rparr>
      else code = EINVAL \<or> from_callback code)"

text \<open>The tail that the three TLS I/O entry points share.\<close>

definition tls_io :: "nat \<Rightarrow> (io_Error + usize) inner_method \<Rightarrow> usize ptr \<Rightarrow> (world, c_int) comp" where
  "tls_io a method out_n w =
     and_then (call_inner a method w) (\<lambda>r w.
       case r of
         Inl e \<Rightarrow> Returned (case raw_os_error e of Some c \<Rightarrow> c | None \<Rightarrow> EIO) w
       | Inr n \<Rightarrow> and_then (write_cell usize_mem out_n n w) (\<lambda>_ w. Returned 0 w))"

subsection \<open>Concrete values for the witnesses\<close>

definition demo_connection :: Connection where
  "demo_connection = (from_client (ClientConnection 0))\<lparr>conn_userdata := Ptr 9\<rparr>"

definition demo_conn_world :: world where
  "demo_conn_world = empty_world\<lparr>h_connection := [3 \<mapsto> demo_connection], m_usize := [7 \<mapsto> 0],
     m_u8 := [20 \<mapsto> 0, 21 \<mapsto> 0], m_u8_ptr := [6 \<mapsto> SNull]\<rparr>"

text \<open>A rustls that calls the reader or writer once, on one byte, and passes its result on.\<close>

definition on_world :: "('r, world) outcome \<Rightarrow> rustls_Connection \<Rightarrow> ('r, rustls_Connection \<times> world) outcome" where
  "on_world r i = (case r of Returned a w \<Rightarrow> Returned a (i, w) | Unwound w \<Rightarrow> Unwound (i, w) | Undefined \<Rightarrow> Undefined)"

definition demo_read_tls ::
  "(bytes \<Rightarrow> (world, bytes \<times> (io_Error + usize)) comp) \<Rightarrow> (io_Error + usize) inner_method" where
  "demo_read_tls rd s = on_world (and_then (rd [0] (snd s)) (\<lambda>r w. Returned (snd r) w)) (fst s)"

definition demo_write_tls :: "world dyn_Write \<Rightarrow> (io_Error + usize) inner_method" where
  "demo_write_tls wr s = on_world (dyn_write_vectored wr [[23]] (snd s)) (fst s)"

text \<open>Callbacks: one that fails with 104, one that fails with 32, one that writes a byte.\<close>

definition demo_recv :: "world read_callbacks" where
  "demo_recv cb u buf n = Returned (buf, 0, 104)"

definition demo_send :: "world write_callbacks" where
  "demo_send cb u buf n = Returned (0, 32)"

definition demo_sendv :: "world write_vectored_callbacks" where
  "demo_sendv cb u bufs n = Returned (1, 0)"

text \<open>A reader with one byte of plaintext.\<close>

definition demo_reader :: "((rustls_Connection \<times> bytes) \<times> world, io_Error + usize) comp" where
  "demo_reader s = Returned (Inr 1) ((fst (fst s), [65, 0]), snd s)"

section \<open>Lemmas\<close>

lemmas demo_io_defs = demo_reader_def demo_recv_def demo_send_def demo_sendv_def

lemma demo_conn_world_simps [simp]:
  "h_connection demo_conn_world = [3 \<mapsto> demo_connection]" "m_usize demo_conn_world = [7 \<mapsto> 0]"
  "m_u8 demo_conn_world = [20 \<mapsto> 0, 21 \<mapsto> 0]" "m_u8_ptr demo_conn_world = [6 \<mapsto> SNull]"
  "usable (USERDATA demo_conn_world)" "stack (USERDATA demo_conn_world) = []"
  by (simp_all add: demo_conn_world_def empty_world_def usable_def)

lemma on_world_Returned: "on_world r i = Returned a s \<longleftrightarrow> (\<exists>w. r = Returned a w \<and> s = (i, w))"
  by (auto simp: on_world_def split: outcome.splits)

lemma demo_read_tls_errors: "reader_errors_only demo_read_tls"
  by (auto simp: reader_errors_only_def demo_read_tls_def on_world_Returned and_then_eq_Returned)

lemma demo_write_tls_errors: "writer_errors_only demo_write_tls"
  by (auto simp: writer_errors_only_def demo_write_tls_def on_world_Returned)

lemma process_new_packets_unfold:
  assumes "h_connection w a = Some c" and "usable (USERDATA w)"
  shows "rustls_connection_process_new_packets process_new_packets (Ptr a) w =
     (case process_new_packets (conn_inner c, processing a c w) of
        Returned r (i, w') \<Rightarrow>
          (case try_drop (UserdataGuard_new (conn_userdata c)) (USERDATA w') of
             (Inr _, cell) \<Rightarrow> Returned (case r of Inr _ \<Rightarrow> Ok | Inl e \<Rightarrow> map_error e)
                   ((returned_inner a c i w')\<lparr>USERDATA := cell\<rparr>)
           | (Inl _, cell) \<Rightarrow> Returned Panic ((returned_inner a c i w')\<lparr>USERDATA := cell\<rparr>))
      | Unwound (i, w') \<Rightarrow> Returned Panic ((returned_inner a c i w')\<lparr>USERDATA :=
          guard_drop (UserdataGuard_new (conn_userdata c)) (USERDATA w')\<rparr>)
      | Undefined \<Rightarrow> Undefined)"
proof -
  have pushed: "w\<lparr>USERDATA := USERDATA (processing a c w), h_connection := (h_connection w)(a := None)\<rparr> = processing a c w"
    by (simp add: processing_def)
  have push: "userdata_push (conn_userdata c) (conn_log_callback c) (USERDATA w)
      = (Inr (UserdataGuard_new (conn_userdata c)), USERDATA (processing a c w))"
    using assms(2) by (simp add: push_usable processing_def)
  note unfolds = rustls_connection_process_new_packets_def ffi_panic_boundary_def try_mut_from_ptr_cases 
       assms(1) push pushed call_inner_def returned_inner_def Let_def
  show ?thesis
  proof (cases "process_new_packets (conn_inner c, processing a c w)")
    case (Returned r s)
    obtain i w' where s: "s = (i, w')" by (cases s)
    obtain d cell where "try_drop (UserdataGuard_new (conn_userdata c)) (USERDATA w') = (d, cell)" by fastforce
    then show ?thesis
      by (cases d) (simp_all add: unfolds Returned s)
  next
    case (Unwound s)
    then show ?thesis by (cases s) (simp add: unfolds)
  next
    case Undefined
    then show ?thesis by (simp add: unfolds)
  qed
qed

lemma call_inner_Returned:
  assumes "call_inner a method w = Returned r w'"
  obtains c i w1 where "h_connection w a = Some c"
    and "method (conn_inner c, w\<lparr>h_connection := (h_connection w)(a := None)\<rparr>) = Returned r (i, w1)"
    and "w' = returned_inner a c i w1"
  using assms by (auto simp: call_inner_def returned_inner_def split: option.splits outcome.splits)

lemma tls_io_entries:
  assumes "h_connection w a = Some c"
  shows "rustls_connection_read_tls read_tls rcall (Ptr a) (Some cb) u (Ptr o') w =
      ffi_panic_boundary io_ret (tls_io a (read_tls (CallbackReader_read rcall \<lparr>rd_callback = cb, rd_userdata = u\<rparr>)) (Ptr o')) w"
    and "rustls_connection_write_tls write_tls wcall (Ptr a) (Some cb) u (Ptr o') w =
      ffi_panic_boundary io_ret (tls_io a (write_tls (CallbackWriter_dyn wcall \<lparr>wr_callback = cb, wr_userdata = u\<rparr>)) (Ptr o')) w"
    and "rustls_connection_write_tls_vectored write_tls vcall (Ptr a) (Some cb) u (Ptr o') w =
      ffi_panic_boundary io_ret
        (tls_io a (write_tls (VectoredCallbackWriter_dyn vcall \<lparr>vw_callback = cb, vw_userdata = u\<rparr>)) (Ptr o')) w"
  using assms
  by (simp_all add: rustls_connection_read_tls_def rustls_connection_write_tls_def
      rustls_connection_write_tls_vectored_def ffi_panic_boundary_def tls_io_def)

lemma tls_io_entries_live:
  "rustls_connection_read_tls read_tls rcall (Ptr a) cb u o' w \<noteq> Undefined \<Longrightarrow> \<exists>c. h_connection w a = Some c"
  "rustls_connection_write_tls write_tls wcall (Ptr a) cb u o' w \<noteq> Undefined \<Longrightarrow> \<exists>c. h_connection w a = Some c"
  "rustls_connection_write_tls_vectored write_tls vcall (Ptr a) cb u o' w \<noteq> Undefined \<Longrightarrow> \<exists>c. h_connection w a = Some c"
  by (auto simp: rustls_connection_read_tls_def rustls_connection_write_tls_def
      rustls_connection_write_tls_vectored_def ffi_panic_boundary_def try_mut_from_ptr_cases split: option.splits)

lemma tls_io_Returned:
  assumes "ffi_panic_boundary io_ret (tls_io a method (Ptr o')) w = Returned code w'"
    and "code \<noteq> EINVAL"
  shows "(\<exists>c i w1 n. code = 0 \<and> h_connection w a = Some c
       \<and> method (conn_inner c, w\<lparr>h_connection := (h_connection w)(a := None)\<rparr>) = Returned (Inr n) (i, w1)
       \<and> w' = (returned_inner a c i w1)\<lparr>m_usize := (m_usize w1)(o' \<mapsto> n)\<rparr>)
    \<or> (\<exists>e s s1. method s = Returned (Inl e) s1 \<and> io_code (Inl e :: io_Error + usize) = code)"
proof (cases "call_inner a method w")
  case (Returned r w2)
  from Returned obtain c i w1 where *: "h_connection w a = Some c"
    "method (conn_inner c, w\<lparr>h_connection := (h_connection w)(a := None)\<rparr>) = Returned r (i, w1)"
    "w2 = returned_inner a c i w1"
    by (rule call_inner_Returned)
  show ?thesis
  proof (cases r)
    case (Inl e)
    then show ?thesis
      using assms(1) Returned *(2) by (intro disjI2 exI conjI) (assumption | simp add: ffi_panic_boundary_def tls_io_def)+
  next
    case (Inr n)
    with assms Returned * show ?thesis
      by (auto simp: ffi_panic_boundary_def tls_io_def write_cell_def returned_inner_def split: option.splits)
  qed
qed (use assms in \<open>auto simp: ffi_panic_boundary_def tls_io_def\<close>)

text \<open>An error of a reader or writer is the code of the callback behind it.\<close>

lemma reader_error_is_callback_code:
  assumes "CallbackReader_read call rd buf w = Returned (b, Inl e) w'"
  shows "\<exists>n c. call (rd_callback rd) (rd_userdata rd) buf 0 w = Returned (b, n, c) w' \<and> c \<noteq> 0
     \<and> e = from_raw_os_error c"
  using assms by (auto simp: CallbackReader_read_def and_then_eq_Returned split: if_splits)

lemma writer_error_is_callback_code:
  assumes "dyn_write_vectored (CallbackWriter_dyn call wr) bufs w = Returned (Inl e) w'
         \<or> dyn_write (CallbackWriter_dyn call wr) buf w = Returned (Inl e) w'"
  shows "\<exists>buf n c. call (wr_callback wr) (wr_userdata wr) buf 0 w = Returned (n, c) w' \<and> c \<noteq> 0
     \<and> e = from_raw_os_error c"
proof -
  obtain buf where "CallbackWriter_write call wr buf w = Returned (Inl e) w'"
    using assms by (auto simp: CallbackWriter_dyn_def default_write_vectored_def)
  from callback_writer.error_is_callback_code [OF this] show ?thesis by blast
qed

lemma vectored_error_is_callback_code:
  assumes "dyn_write_vectored (VectoredCallbackWriter_dyn call wr) bufs w = Returned (Inl e) w'
         \<or> dyn_write (VectoredCallbackWriter_dyn call wr) buf w = Returned (Inl e) w'"
  shows "\<exists>bufs n c. call (vw_callback wr) (vw_userdata wr) bufs 0 w = Returned (n, c) w' \<and> c \<noteq> 0
     \<and> e = from_raw_os_error c"
proof -
  obtain bufs where "VectoredCallbackWriter_write_vectored call wr bufs w = Returned (Inl e) w'"
    using assms by (auto simp: VectoredCallbackWriter_dyn_def VectoredCallbackWriter_write_def)
  from vectored_writer.error_is_callback_code [OF this] show ?thesis by blast
qed

lemma tls_io_verdict:
  assumes "ffi_panic_boundary io_ret (tls_io a method (Ptr o')) w = Returned code w'"
    and "\<And>e s s1. method s = Returned (Inl e) s1 \<Longrightarrow>
      \<exists>c. e = from_raw_os_error c \<and> c \<noteq> 0 \<and> from_callback c"
  shows "io_verdict method from_callback a o' w code w'"
proof (cases "code = EINVAL")
  case True
  then show ?thesis by (simp add: io_verdict_def EINVAL_def)
next
  case False
  from tls_io_Returned [OF assms(1) False] show ?thesis
  proof
    assume "\<exists>c i w1 n. code = 0 \<and> h_connection w a = Some c
       \<and> method (conn_inner c, w\<lparr>h_connection := (h_connection w)(a := None)\<rparr>) = Returned (Inr n) (i, w1)
       \<and> w' = (returned_inner a c i w1)\<lparr>m_usize := (m_usize w1)(o' \<mapsto> n)\<rparr>"
    then show ?thesis unfolding io_verdict_def by (elim exE conjE, subst if_P) blast+
  next
    assume "\<exists>e s s1. method s = Returned (Inl e) s1 \<and> io_code (Inl e :: io_Error + usize) = code"
    then obtain e s s1 where e: "method s = Returned (Inl e) s1" "io_code (Inl e :: io_Error + usize) = code"
      by blast
    obtain c where "e = from_raw_os_error c" "c \<noteq> 0" "from_callback c"
      using assms(2) [OF e(1)] by blast
    with e(2) show ?thesis by (simp add: io_verdict_def)
  qed
qed

section \<open>Properties\<close>

text \<open>
  C5. \<open>rustls_connection_process_new_packets\<close> is a scope for the connection's userdata. rustls
  runs with the userdata and the log callback of this connection on top of the thread's stack and the
  connection borrowed; if the code that runs inside leaves the stack balanced, then, whether rustls
  succeeds, fails or panics, the stack afterwards is exactly the one before, the connection is back in place
  with the state rustls left, and the code is \<open>Ok\<close>, the mapped error, or \<open>Panic\<close>; the panic
  never reaches the caller.
\<close>

theorem process_new_packets_scoped:
  assumes "h_connection w a = Some c" and "usable (USERDATA w)"
    and "leaves (\<lambda>(i, w'). USERDATA w' = USERDATA (processing a c w))
           (process_new_packets (conn_inner c, processing a c w))"
  shows "rustls_connection_process_new_packets process_new_packets (Ptr a) w =
     (case process_new_packets (conn_inner c, processing a c w) of
        Returned r (i, w') \<Rightarrow>
          Returned (case r of Inr _ \<Rightarrow> Ok | Inl e \<Rightarrow> map_error e)
                   ((returned_inner a c i w')\<lparr>USERDATA := USERDATA w\<rparr>)
      | Unwound (i, w') \<Rightarrow> Returned Panic ((returned_inner a c i w')\<lparr>USERDATA := USERDATA w\<rparr>)
      | Undefined \<Rightarrow> Undefined)"
proof -
  have push: "userdata_push (conn_userdata c) (conn_log_callback c) (USERDATA w)
      = (Inr (UserdataGuard_new (conn_userdata c)), USERDATA (processing a c w))"
    using assms(2) by (simp add: push_usable processing_def)
  show ?thesis
    using assms(3) unfolding process_new_packets_unfold [OF assms(1,2)]
    by (cases "process_new_packets (conn_inner c, processing a c w)")
      (auto simp: try_drop_pushed [OF push])
qed

theorem process_new_packets_scoped_witness:
  "\<exists>w'. rustls_connection_process_new_packets (\<lambda>s. Unwound s :: (rustls_Error + unit, _) outcome) (Ptr 3) demo_conn_world = Returned Panic w'
     \<and> USERDATA w' = USERDATA demo_conn_world"
proof -
  have "h_connection demo_conn_world 3 = Some demo_connection" "usable (USERDATA demo_conn_world)" by simp_all
  from process_new_packets_scoped [OF this, of "\<lambda>s. Unwound s :: (rustls_Error + unit, _) outcome"] show ?thesis by simp
qed



text \<open>
  The same for \<open>rustls_connection_write_tls\<close>, whose writer falls back to writing the first
  non-empty slice when rustls does vectored writes.
\<close>

theorem write_tls_codes:
  assumes "writer_errors_only write_tls"
    and "rustls_connection_write_tls write_tls call (Ptr a) (Some cb) u (Ptr o') w = Returned code w'"
  shows "io_verdict (write_tls (CallbackWriter_dyn call \<lparr>wr_callback = cb, wr_userdata = u\<rparr>))
           (\<lambda>code. \<exists>buf w0 n w1. call cb u buf 0 w0 = Returned (n, code) w1) a o' w code w'"
proof (rule tls_io_verdict)
  show "ffi_panic_boundary io_ret
     (tls_io a (write_tls (CallbackWriter_dyn call \<lparr>wr_callback = cb, wr_userdata = u\<rparr>)) (Ptr o')) w = Returned code w'"
    using assms(2) tls_io_entries(2) tls_io_entries_live(2) by (metis outcome.distinct(3))
next
  fix e s s1
  assume "write_tls (CallbackWriter_dyn call \<lparr>wr_callback = cb, wr_userdata = u\<rparr>) s = Returned (Inl e) s1"
  then obtain bufs buf w w' where
    "dyn_write_vectored (CallbackWriter_dyn call \<lparr>wr_callback = cb, wr_userdata = u\<rparr>) bufs w = Returned (Inl e) w'
   \<or> dyn_write (CallbackWriter_dyn call \<lparr>wr_callback = cb, wr_userdata = u\<rparr>) buf w = Returned (Inl e) w'"
    using assms(1) unfolding writer_errors_only_def by blast
  from writer_error_is_callback_code [OF this]
  show "\<exists>c. e = from_raw_os_error c \<and> c \<noteq> 0 \<and> (\<exists>buf w0 n w1. call cb u buf 0 w0 = Returned (n, c) w1)"
    by (simp, blast)
qed

theorem write_tls_codes_witness:
  "\<exists>w'. rustls_connection_write_tls demo_write_tls demo_send (Ptr 3) (Some 1) (Ptr 9)
     (Ptr 7) demo_conn_world = Returned 32 w'
   \<and> io_verdict (demo_write_tls (CallbackWriter_dyn demo_send
        \<lparr>wr_callback = 1, wr_userdata = Ptr 9\<rparr>))
        (\<lambda>code. \<exists>buf w0 n w1. demo_send 1 (Ptr 9) buf 0 w0 = Returned (n, code) w1) 3 7 demo_conn_world 32 w'"
proof -
  have "\<exists>w'. rustls_connection_write_tls demo_write_tls demo_send (Ptr 3) (Some 1) (Ptr 9)
     (Ptr 7) demo_conn_world = Returned 32 w'"
    by (simp add: demo_io_defs tls_io_entries ffi_panic_boundary_def tls_io_def call_inner_def demo_write_tls_def on_world_def
      CallbackWriter_dyn_def default_write_vectored_def CallbackWriter_write_def)
  then show ?thesis
  proof
    fix w'
    assume run: "rustls_connection_write_tls demo_write_tls demo_send (Ptr 3) (Some 1) (Ptr 9)
     (Ptr 7) demo_conn_world = Returned 32 w'"
    show ?thesis using run write_tls_codes [OF demo_write_tls_errors run] by (intro exI [of _ w'] conjI)
  qed
qed

text \<open>
  The same for \<open>rustls_connection_write_tls_vectored\<close>, through both the plain and the
  vectored write of its writer.
\<close>

theorem write_tls_vectored_codes:
  assumes "writer_errors_only write_tls"
    and "rustls_connection_write_tls_vectored write_tls call (Ptr a) (Some cb) u (Ptr o') w = Returned code w'"
  shows "io_verdict (write_tls (VectoredCallbackWriter_dyn call \<lparr>vw_callback = cb, vw_userdata = u\<rparr>))
           (\<lambda>code. \<exists>bufs w0 n w1. call cb u bufs 0 w0 = Returned (n, code) w1) a o' w code w'"
proof (rule tls_io_verdict)
  show "ffi_panic_boundary io_ret
     (tls_io a (write_tls (VectoredCallbackWriter_dyn call \<lparr>vw_callback = cb, vw_userdata = u\<rparr>)) (Ptr o')) w
     = Returned code w'"
    using assms(2) tls_io_entries(3) tls_io_entries_live(3) by (metis outcome.distinct(3))
next
  fix e s s1
  assume "write_tls (VectoredCallbackWriter_dyn call \<lparr>vw_callback = cb, vw_userdata = u\<rparr>) s = Returned (Inl e) s1"
  then obtain bufs buf w w' where
    "dyn_write_vectored (VectoredCallbackWriter_dyn call \<lparr>vw_callback = cb, vw_userdata = u\<rparr>) bufs w = Returned (Inl e) w'
   \<or> dyn_write (VectoredCallbackWriter_dyn call \<lparr>vw_callback = cb, vw_userdata = u\<rparr>) buf w = Returned (Inl e) w'"
    using assms(1) unfolding writer_errors_only_def by blast
  from vectored_error_is_callback_code [OF this]
  show "\<exists>c. e = from_raw_os_error c \<and> c \<noteq> 0 \<and> (\<exists>bufs w0 n w1. call cb u bufs 0 w0 = Returned (n, c) w1)"
    by (simp, blast)
qed

theorem write_tls_vectored_codes_witness:
  "\<exists>w'. rustls_connection_write_tls_vectored demo_write_tls demo_sendv (Ptr 3) (Some 1) (Ptr 9)
     (Ptr 7) demo_conn_world = Returned 0 w'
   \<and> io_verdict (demo_write_tls (VectoredCallbackWriter_dyn demo_sendv
        \<lparr>vw_callback = 1, vw_userdata = Ptr 9\<rparr>))
        (\<lambda>code. \<exists>bufs w0 n w1. demo_sendv 1 (Ptr 9) bufs 0 w0 = Returned (n, code) w1) 3 7 demo_conn_world 0 w'"
proof -
  have "\<exists>w'. rustls_connection_write_tls_vectored demo_write_tls demo_sendv (Ptr 3) (Some 1) (Ptr 9)
     (Ptr 7) demo_conn_world = Returned 0 w'"
    by (simp add: demo_io_defs tls_io_entries ffi_panic_boundary_def tls_io_def call_inner_def demo_write_tls_def on_world_def
      VectoredCallbackWriter_dyn_def VectoredCallbackWriter_write_vectored_def write_cell_def)
  then show ?thesis
  proof
    fix w'
    assume run: "rustls_connection_write_tls_vectored demo_write_tls demo_sendv (Ptr 3) (Some 1) (Ptr 9)
     (Ptr 7) demo_conn_world = Returned 0 w'"
    show ?thesis using run write_tls_vectored_codes [OF demo_write_tls_errors run] by (intro exI [of _ w'] conjI)
  qed
qed



text \<open>
  \<open>rustls_connection_get_alpn_protocol\<close> sets pointer and length together: both describe the
  negotiated protocol, or they are null and 0.
\<close>

theorem get_alpn_protocol_exact:
  assumes "h_connection w a = Some c" and "m_u8_ptr w po \<noteq> None" and "m_usize w lo \<noteq> None"
  shows "rustls_connection_get_alpn_protocol alpn_protocol (Ptr a) (Ptr po) (Ptr lo) w =
     Returned () (case alpn_protocol (conn_inner c) of
       Some p \<Rightarrow> w\<lparr>m_u8_ptr := (m_u8_ptr w)(po \<mapsto> SBorrow p), m_usize := (m_usize w)(lo \<mapsto> of_nat (length p))\<rparr>
     | None \<Rightarrow> w\<lparr>m_u8_ptr := (m_u8_ptr w)(po \<mapsto> SNull), m_usize := (m_usize w)(lo \<mapsto> 0)\<rparr>)"
  using assms
  by (auto simp: rustls_connection_get_alpn_protocol_def ffi_panic_boundary_def write_cell_def split: option.splits)

theorem get_alpn_protocol_exact_witness:
  "\<exists>w'. rustls_connection_get_alpn_protocol (\<lambda>i. Some [104, 50]) (Ptr 3) (Ptr 6) (Ptr 7) demo_conn_world = Returned () w'
     \<and> m_u8_ptr w' 6 = Some (SBorrow [104, 50]) \<and> m_usize w' 7 = Some 2"
proof -
  have "h_connection demo_conn_world 3 = Some demo_connection" "m_u8_ptr demo_conn_world 6 \<noteq> None"
    "m_usize demo_conn_world 7 \<noteq> None" by simp_all
  from get_alpn_protocol_exact [OF this, of "\<lambda>i. Some [104, 50]"] show ?thesis by simp
qed

text \<open>
  \<open>rustls_connection_free\<close> takes the connection off the heap; freeing it a second time is
  undefined behaviour, so the single-free rule of the documentation is needed.
\<close>

theorem connection_freed_once:
  assumes "rustls_connection_free drop_inner (Ptr a) w = Returned () w1"
    and "\<And>i w. leaves (\<lambda>w'. h_connection w' = h_connection w) (drop_inner i w)"
  shows "h_connection w1 = (h_connection w)(a := None)
     \<and> rustls_connection_free drop_inner (Ptr a) w1 = Undefined"
proof (cases "h_connection w a")
  case (Some c)
  have "leaves (\<lambda>w'. h_connection w' = (h_connection w)(a := None)) (drop_inner (conn_inner c) (hdel connection_heap a w))"
    using assms(2) [of "hdel connection_heap a w" "conn_inner c"] by simp
  then show ?thesis using assms(1) Some
    by (cases "drop_inner (conn_inner c) (hdel connection_heap a w)")
      (auto simp: rustls_connection_free_def ffi_panic_boundary_def try_mut_from_ptr_cases)
qed (use assms(1) in \<open>simp add: rustls_connection_free_def ffi_panic_boundary_def try_mut_from_ptr_cases\<close>)

theorem connection_freed_once_witness:
  "\<exists>w1. rustls_connection_free (\<lambda>i. Returned ()) (Ptr 3) demo_conn_world = Returned () w1
     \<and> rustls_connection_free (\<lambda>i. Returned ()) (Ptr 3) w1 = Undefined"
proof -
  have "\<exists>w1. rustls_connection_free (\<lambda>i. Returned ()) (Ptr 3) demo_conn_world = Returned () w1"
    by (simp add: rustls_connection_free_def ffi_panic_boundary_def)
  then obtain w1 where run: "rustls_connection_free (\<lambda>i. Returned ()) (Ptr 3) demo_conn_world = Returned () w1" ..
  then show ?thesis using connection_freed_once [OF run] by simp
qed

text \<open>
  A null connection is never dereferenced: every entry point of \<open>src/connection.rs\<close> returns
  at once with the null value of its return type, whatever the other arguments, and changes nothing.
\<close>

theorem connection_null_safe:
  "rustls_connection_set_userdata Null u w = Returned () w
   \<and> rustls_connection_set_log_callback set_logger set_max_level Null cb w = Returned () w
   \<and> rustls_connection_read_tls read_tls rcall Null cb u o' w = Returned EINVAL w
   \<and> rustls_connection_write_tls write_tls wcall Null cb u o' w = Returned EINVAL w
   \<and> rustls_connection_write_tls_vectored write_tls vcall Null cb u o' w = Returned EINVAL w
   \<and> rustls_connection_process_new_packets pnp Null w = Returned NullParameter w
   \<and> rustls_connection_wants_read q Null w = Returned False w
   \<and> rustls_connection_wants_write q Null w = Returned False w
   \<and> rustls_connection_is_handshaking q Null w = Returned False w
   \<and> rustls_connection_set_buffer_limit limit Null n w = Returned () w
   \<and> rustls_connection_send_close_notify close_notify Null w = Returned () w
   \<and> rustls_connection_get_peer_certificate peer Null n w = Returned None w
   \<and> rustls_connection_get_alpn_protocol alpn Null po lo w = Returned () w
   \<and> rustls_connection_get_protocol_version version get_u16 Null w = Returned 0 w
   \<and> rustls_connection_get_negotiated_ciphersuite neg eq suites Null w = Returned None w
   \<and> rustls_connection_write ww Null buf n o' w = Returned NullParameter w
   \<and> rustls_connection_read rr Null b n o' w = Returned NullParameter w
   \<and> rustls_connection_read_2 rrb Null b n o' w = Returned NullParameter w
   \<and> rustls_connection_free drop_inner Null w = Returned () w"
  by (intro conjI; simp add: ffi_panic_boundary_def rustls_connection_set_userdata_def
    rustls_connection_set_log_callback_def rustls_connection_read_tls_def rustls_connection_write_tls_def
    rustls_connection_write_tls_vectored_def rustls_connection_process_new_packets_def
    rustls_connection_wants_read_def rustls_connection_wants_write_def rustls_connection_is_handshaking_def
    rustls_connection_set_buffer_limit_def rustls_connection_send_close_notify_def
    rustls_connection_get_peer_certificate_def rustls_connection_get_alpn_protocol_def
    rustls_connection_get_protocol_version_def rustls_connection_get_negotiated_ciphersuite_def
    rustls_connection_write_def rustls_connection_read_def rustls_connection_read_2_def rustls_connection_free_def)

end
