(* ===== verification/Ffi_Enums.thy ===== *)
theory Ffi_Enums
  imports Ffi_World
begin

text \<open>
  Protocol versions (\<open>src/enums.rs\<close>) and the exported arrays of the versions rustls
  supports.
\<close>

datatype rustls_tls_version = Sslv2 | Sslv3 | Tlsv1_0 | Tlsv1_1 | Tlsv1_2 | Tlsv1_3

primrec tls_version_u16 :: "rustls_tls_version \<Rightarrow> u16" where
  "tls_version_u16 Sslv2 = 0x0200"
| "tls_version_u16 Sslv3 = 0x0300"
| "tls_version_u16 Tlsv1_0 = 0x0301"
| "tls_version_u16 Tlsv1_1 = 0x0302"
| "tls_version_u16 Tlsv1_2 = 0x0303"
| "tls_version_u16 Tlsv1_3 = 0x0304"

definition RUSTLS_ALL_VERSIONS :: "u16 list" where
  "RUSTLS_ALL_VERSIONS = [tls_version_u16 Tlsv1_3, tls_version_u16 Tlsv1_2]"

definition RUSTLS_ALL_VERSIONS_LEN :: usize where
  "RUSTLS_ALL_VERSIONS_LEN = of_nat (length RUSTLS_ALL_VERSIONS)"

definition RUSTLS_DEFAULT_VERSIONS :: "u16 list" where
  "RUSTLS_DEFAULT_VERSIONS = [tls_version_u16 Tlsv1_3, tls_version_u16 Tlsv1_2]"

definition RUSTLS_DEFAULT_VERSIONS_LEN :: usize where
  "RUSTLS_DEFAULT_VERSIONS_LEN = of_nat (length RUSTLS_DEFAULT_VERSIONS)"

lemma tls_version_u16_inject [simp]: "tls_version_u16 a = tls_version_u16 b \<longleftrightarrow> a = b"
  by (cases a; cases b) simp_all

end
