(* ===== verification/Ffi_Client.thy ===== *)
theory Ffi_Client
  imports Ffi_Config Ffi_Connection Ffi_Enums
begin

text \<open>
  Client configurations and connections (\<open>src/client.rs\<close>): the builder and its settings, the
  certificate verifier made from a C callback, the client certificate resolver, and the
  creation of connections.

  Parameters: the builder chain of rustls (\<open>with_protocol_versions\<close>, \<open>with_client_cert_resolver\<close>,
  \<open>with_no_client_auth\<close>), files and PEM parsing, the parsing of server names, \<open>ClientConnection::new\<close>,
  and the C callbacks.
\<close>

section \<open>Making a builder\<close>

definition rustls_client_config_builder_new :: "WantsVerifier \<Rightarrow> (world, ClientConfigBuilder ptr) comp" where
  "rustls_client_config_builder_new safe_defaults =
     ffi_panic_boundary ptr_ret
       (to_mut_ptr client_builder_heap
          \<lparr>ccb_base = safe_defaults, ccb_verifier = NoneVerifier, ccb_alpn_protocols = [],
           ccb_enable_sni = True, ccb_cert_resolver = None\<rparr>)"

definition rustls_client_config_builder_new_custom ::
  "(SupportedCipherSuite \<Rightarrow> SupportedCipherSuite \<Rightarrow> bool) \<Rightarrow> SupportedCipherSuite list \<Rightarrow>
   (u16 \<Rightarrow> 'v) \<Rightarrow> (SupportedProtocolVersion \<Rightarrow> 'v) \<Rightarrow>
   (SupportedCipherSuite list \<Rightarrow> SupportedProtocolVersion list \<Rightarrow> WantsVerifier option) \<Rightarrow>
   SupportedCipherSuite option sptr \<Rightarrow> usize \<Rightarrow> u16 sptr \<Rightarrow> usize \<Rightarrow> ClientConfigBuilder ptr ptr \<Rightarrow>
   (world, rustls_result) comp" where
  "rustls_client_config_builder_new_custom eq ALL_CIPHER_SUITES ProtocolVersion_from version with_protocol_versions
     cipher_suites cipher_suites_len tls_versions tls_versions_len builder_out =
     ffi_panic_boundary rr_ret (try_slice suite_mem rr_ret cipher_suites cipher_suites_len (\<lambda>cipher_suites w.
       case collect_suites eq ALL_CIPHER_SUITES cipher_suites [] of
         Inl e \<Rightarrow> Returned e w
       | Inr cs_vec \<Rightarrow>
           try_slice u16_mem rr_ret tls_versions tls_versions_len (\<lambda>tls_versions w.
             let versions = collect_versions ProtocolVersion_from version tls_versions []
             in case with_protocol_versions cs_vec versions of
                  None \<Rightarrow> Returned InvalidParameter w
                | Some base \<Rightarrow>
                    and_then (set_mut_ptr client_builder_heap client_builder_ptr_mem builder_out
                       \<lparr>ccb_base = base, ccb_verifier = NoneVerifier, ccb_alpn_protocols = [],
                        ccb_enable_sni = True, ccb_cert_resolver = None\<rparr> w)
                      (\<lambda>_ w. Returned Ok w)) w))"

section \<open>Verifying server certificates\<close>

text \<open>The name of the server as rustls has it; only DNS names are supported by the callback.\<close>

datatype ServerName = DnsName bytes | OtherServerName

record rustls_verify_server_cert_params =
  end_entity_cert_der :: rustls_slice_bytes
  intermediate_certs_der :: rustls_slice_slice_bytes
  dns_name :: rustls_str
  ocsp_response :: rustls_slice_bytes

type_synonym verify_callbacks =
  "c_fn \<Rightarrow> void_ptr \<Rightarrow> rustls_verify_server_cert_params \<Rightarrow> (world, u32) comp"

definition NoneVerifier_verify_server_cert ::
  "Certificate \<Rightarrow> Certificate list \<Rightarrow> ServerName \<Rightarrow> bytes \<Rightarrow> (world, rustls_Error + unit) comp" where
  "NoneVerifier_verify_server_cert end_entity intermediates server_name ocsp w =
     Returned (Inl Error_InvalidCertificateSignature) w"

definition Verifier_verify_server_cert ::
  "verify_callbacks \<Rightarrow> c_fn \<Rightarrow> Certificate \<Rightarrow> Certificate list \<Rightarrow> ServerName \<Rightarrow> bytes \<Rightarrow>
   (world, rustls_Error + unit) comp" where
  "Verifier_verify_server_cert call cb end_entity intermediates server_name ocsp w =
     (case server_name of
        OtherServerName \<Rightarrow> Returned (Inl (Error_General ''unknown name type'')) w
      | DnsName n \<Rightarrow>
     case rustls_str_try_from n of
        Inl _ \<Rightarrow> Returned (Inl (Error_General ''NUL byte in SNI'')) w
      | Inr name \<Rightarrow>
     let params =
           \<lparr>end_entity_cert_der = rustls_slice_bytes_from (cert_as_ref end_entity),
            intermediate_certs_der = \<lparr>rssb_inner = map cert_as_ref intermediates\<rparr>,
            dns_name = name,
            ocsp_response = rustls_slice_bytes_from ocsp\<rparr>
     in case userdata_get (USERDATA w) of
          Inl _ \<Rightarrow> Returned (Inl (Error_General ''internal error with thread-local storage'')) w
        | Inr userdata \<Rightarrow>
            and_then (call cb userdata params w) (\<lambda>result w.
              let r = (case rustls_result_try_from result of Some r \<Rightarrow> r | None \<Rightarrow> General)
              in case r of
                   Ok \<Rightarrow> Returned (Inr ()) w
                 | _ \<Rightarrow> Returned (Inl (cert_result_to_error r)) w))"

text \<open>The trait object of a builder or configuration.\<close>

definition verify_server_cert ::
  "(RootCertStore \<Rightarrow> Certificate \<Rightarrow> Certificate list \<Rightarrow> ServerName \<Rightarrow> bytes \<Rightarrow> (world, rustls_Error + unit) comp) \<Rightarrow>
   verify_callbacks \<Rightarrow> ServerCertVerifier \<Rightarrow> Certificate \<Rightarrow> Certificate list \<Rightarrow> ServerName \<Rightarrow> bytes \<Rightarrow>
   (world, rustls_Error + unit) comp" where
  "verify_server_cert webpki call v =
     (case v of
        NoneVerifier \<Rightarrow> NoneVerifier_verify_server_cert
      | Verifier cb \<Rightarrow> Verifier_verify_server_cert call cb
      | WebPkiVerifier st \<Rightarrow> webpki st)"

section \<open>Settings\<close>

definition rustls_client_config_builder_dangerous_set_certificate_verifier ::
  "ClientConfigBuilder ptr \<Rightarrow> c_fn option \<Rightarrow> (world, rustls_result) comp" where
  "rustls_client_config_builder_dangerous_set_certificate_verifier config_builder callback =
     ffi_panic_boundary rr_ret (try_mut_from_ptr client_builder_heap rr_ret config_builder (\<lambda>a b w.
       case callback of
         None \<Rightarrow> Returned InvalidParameter w
       | Some cb \<Rightarrow> Returned Ok (hput client_builder_heap a (b\<lparr>ccb_verifier := Verifier cb\<rparr>) w)))"

definition rustls_client_config_builder_use_roots ::
  "ClientConfigBuilder ptr \<Rightarrow> RootCertStore ptr \<Rightarrow> (world, rustls_result) comp" where
  "rustls_client_config_builder_use_roots config_builder root_ptr =
     ffi_panic_boundary rr_ret (try_mut_from_ptr client_builder_heap rr_ret config_builder (\<lambda>a b.
       try_ref_from_ptr root_store_heap rr_ret root_ptr (\<lambda>root_store w.
       Returned Ok (hput client_builder_heap a (b\<lparr>ccb_verifier := WebPkiVerifier root_store\<rparr>) w))))"

definition rustls_client_config_builder_load_roots_from_file ::
  "(bytes \<Rightarrow> 'f option) \<Rightarrow> ('f \<Rightarrow> bytes list option) \<Rightarrow>
   (RootCertStore \<Rightarrow> bytes list \<Rightarrow> RootCertStore \<times> nat \<times> nat) \<Rightarrow>
   ClientConfigBuilder ptr \<Rightarrow> u8 ptr \<Rightarrow> (world, rustls_result) comp" where
  "rustls_client_config_builder_load_roots_from_file File_open certs add_parsable_certificates
     config_builder filename =
     ffi_panic_boundary rr_ret (try_mut_from_ptr client_builder_heap rr_ret config_builder (\<lambda>a b w.
       case filename of
         Null \<Rightarrow> Returned NullParameter w
       | Ptr f \<Rightarrow>
       case cstr_bytes (m_u8 w) f of
         None \<Rightarrow> Undefined
       | Some filename \<Rightarrow>
       if \<not> utf8_valid filename then Returned Io w
       else case File_open filename of
         None \<Rightarrow> Returned Io w
       | Some cafile \<Rightarrow>
       case certs cafile of
         None \<Rightarrow> Returned Io w
       | Some ders \<Rightarrow>
       case add_parsable_certificates \<lparr>roots = []\<rparr> ders of (roots', _, failed) \<Rightarrow>
         if failed > 0 then Returned CertificateParseError w
         else Returned Ok (hput client_builder_heap a (b\<lparr>ccb_verifier := WebPkiVerifier roots'\<rparr>) w)))"

definition rustls_client_config_builder_set_alpn_protocols ::
  "ClientConfigBuilder ptr \<Rightarrow> rustls_slice_bytes sptr \<Rightarrow> usize \<Rightarrow> (world, rustls_result) comp" where
  "rustls_client_config_builder_set_alpn_protocols builder protocols len =
     ffi_panic_boundary rr_ret (try_mut_from_ptr client_builder_heap rr_ret builder (\<lambda>a config.
       try_slice slice_mem rr_ret protocols len (\<lambda>protocols w.
       and_then (collect_alpn protocols [] w) (\<lambda>r w.
       case r of
         None \<Rightarrow> Returned NullParameter w
       | Some vv \<Rightarrow> Returned Ok (hput client_builder_heap a (config\<lparr>ccb_alpn_protocols := vv\<rparr>) w)))))"

definition rustls_client_config_builder_set_enable_sni ::
  "ClientConfigBuilder ptr \<Rightarrow> bool \<Rightarrow> (world, unit) comp" where
  "rustls_client_config_builder_set_enable_sni config enable =
     ffi_panic_boundary defaultable_ret (try_mut_from_ptr client_builder_heap defaultable_ret config
       (\<lambda>a c w. Returned () (hput client_builder_heap a (c\<lparr>ccb_enable_sni := enable\<rparr>) w)))"

text \<open>Dropping a client certificate resolver drops the references it holds.\<close>

definition drop_client_resolver :: "ResolvesClientCert option \<Rightarrow> (world, unit) comp" where
  "drop_client_resolver r w =
     (case r of None \<Rightarrow> Returned () w | Some (ResolvesClientCertFromChoices keys) \<Rightarrow> release_keys keys w)"

text \<open>Assigning the field drops the resolver that was there.\<close>

definition rustls_client_config_builder_set_certified_key ::
  "ClientConfigBuilder ptr \<Rightarrow> CertifiedKey ptr sptr \<Rightarrow> usize \<Rightarrow> (world, rustls_result) comp" where
  "rustls_client_config_builder_set_certified_key builder certified_keys certified_keys_len =
     ffi_panic_boundary rr_ret (try_mut_from_ptr client_builder_heap rr_ret builder (\<lambda>a config.
       try_slice key_ptr_mem rr_ret certified_keys certified_keys_len (\<lambda>keys_ptrs w.
       and_then (collect_keys keys_ptrs [] w) (\<lambda>r w.
       case r of
         None \<Rightarrow> Returned NullParameter w
       | Some keys \<Rightarrow>
           and_then (drop_client_resolver (ccb_cert_resolver config) w) (\<lambda>_ w.
           Returned Ok (hput client_builder_heap a
             (config\<lparr>ccb_cert_resolver := Some (ResolvesClientCertFromChoices keys)\<rparr>) w))))))"

section \<open>Resolving the client certificate\<close>

fun client_resolve ::
  "(SigningKey \<Rightarrow> SignatureScheme list \<Rightarrow> Signer option) \<Rightarrow> SignatureScheme list \<Rightarrow> nat list \<Rightarrow>
   (world, nat option) comp" where
  "client_resolve choose_scheme sig_schemes [] w = Returned None w"
| "client_resolve choose_scheme sig_schemes (key # rest) w =
     (case h_certified_key w key of
        None \<Rightarrow> Undefined
      | Some ck \<Rightarrow>
     case h_signing_key w (ck_key (arc_data ck)) of
        None \<Rightarrow> Undefined
      | Some signing_key \<Rightarrow>
          if choose_scheme (arc_data signing_key) sig_schemes \<noteq> None
          then to_arc certified_key_heap (Ptr key) w
          else client_resolve choose_scheme sig_schemes rest w)"

primrec ResolvesClientCertFromChoices_resolve ::
  "(SigningKey \<Rightarrow> SignatureScheme list \<Rightarrow> Signer option) \<Rightarrow> ResolvesClientCert \<Rightarrow> bytes list \<Rightarrow>
   SignatureScheme list \<Rightarrow> (world, nat option) comp" where
  "ResolvesClientCertFromChoices_resolve choose_scheme (ResolvesClientCertFromChoices keys)
     acceptable_issuers sig_schemes = client_resolve choose_scheme sig_schemes keys"

primrec has_certs :: "ResolvesClientCert \<Rightarrow> bool" where
  "has_certs (ResolvesClientCertFromChoices keys) = (keys \<noteq> [])"

section \<open>Building and freeing\<close>

definition rustls_client_config_builder_build ::
  "(WantsVerifier \<Rightarrow> ServerCertVerifier \<Rightarrow> ResolvesClientCert \<Rightarrow> ClientConfig) \<Rightarrow>
   (WantsVerifier \<Rightarrow> ServerCertVerifier \<Rightarrow> ClientConfig) \<Rightarrow>
   ClientConfigBuilder ptr \<Rightarrow> (world, ClientConfig ptr) comp" where
  "rustls_client_config_builder_build with_client_cert_resolver with_no_client_auth builder =
     ffi_panic_boundary const_ptr_ret (try_box_from_ptr client_builder_heap const_ptr_ret builder (\<lambda>builder.
       let config = (case ccb_cert_resolver builder of
                       Some r \<Rightarrow> with_client_cert_resolver (ccb_base builder) (ccb_verifier builder) r
                     | None \<Rightarrow> with_no_client_auth (ccb_base builder) (ccb_verifier builder))
       in to_const_ptr client_config_heap
            (config\<lparr>cc_alpn_protocols := ccb_alpn_protocols builder, cc_enable_sni := ccb_enable_sni builder\<rparr>)))"

definition rustls_client_config_builder_free :: "ClientConfigBuilder ptr \<Rightarrow> (world, unit) comp" where
  "rustls_client_config_builder_free config =
     ffi_panic_boundary defaultable_ret (\<lambda>w.
       and_then (to_box client_builder_heap config w) (\<lambda>b w.
       case b of None \<Rightarrow> Returned () w | Some builder \<Rightarrow> drop_client_resolver (ccb_cert_resolver builder) w))"

definition rustls_client_config_free :: "ClientConfig ptr \<Rightarrow> (world, unit) comp" where
  "rustls_client_config_free config =
     ffi_panic_boundary defaultable_ret (\<lambda>w.
       case config of
         Null \<Rightarrow> Returned () w
       | Ptr a \<Rightarrow>
           and_then (arc_drop client_config_heap a w) (\<lambda>r w.
           case r of None \<Rightarrow> Returned () w | Some c \<Rightarrow> drop_client_resolver (cc_cert_resolver c) w))"

section \<open>Connections\<close>

text \<open>
  The new reference to the configuration is dropped again on the early returns; otherwise
  \<open>ClientConnection::new\<close> owns it. Its error is unwrapped, so it becomes a panic.
\<close>

definition release_client_config :: "nat \<Rightarrow> (world, unit) comp" where
  "release_client_config a w =
     and_then (arc_drop client_config_heap a w) (\<lambda>r w.
       case r of None \<Rightarrow> Returned () w | Some c \<Rightarrow> drop_client_resolver (cc_cert_resolver c) w)"

definition rustls_client_connection_new ::
  "(bytes \<Rightarrow> ServerName option) \<Rightarrow> (nat \<Rightarrow> ServerName \<Rightarrow> (world, rustls_Error + ClientConnection) comp) \<Rightarrow>
   ClientConfig ptr \<Rightarrow> u8 ptr \<Rightarrow> Connection ptr ptr \<Rightarrow> (world, rustls_result) comp" where
  "rustls_client_connection_new ServerName_try_from ClientConnection_new config hostname conn_out =
     ffi_panic_boundary rr_ret (\<lambda>w.
       case hostname of
         Null \<Rightarrow> Returned NullParameter w
       | Ptr h \<Rightarrow>
       case cstr_bytes (m_u8 w) h of
         None \<Rightarrow> Undefined
       | Some hostname \<Rightarrow>
       try_arc_from_ptr client_config_heap rr_ret config (\<lambda>config w.
         if \<not> utf8_valid hostname
         then and_then (release_client_config config w) (\<lambda>_ w. Returned InvalidDnsNameError w)
         else case ServerName_try_from hostname of
           None \<Rightarrow> and_then (release_client_config config w) (\<lambda>_ w. Returned InvalidDnsNameError w)
         | Some server_name \<Rightarrow>
             and_then (ClientConnection_new config server_name w) (\<lambda>r w.
             case r of
               Inl _ \<Rightarrow> Unwound w
             | Inr client \<Rightarrow>
                 and_then (set_mut_ptr connection_heap conn_ptr_mem conn_out (from_client client) w)
                   (\<lambda>_ w. Returned Ok w))) w)"

section \<open>The interface of key selection\<close>

interpretation client_choices:
  key_selection "key_compatible choose_scheme schemes" "client_resolve choose_scheme schemes"
    "\<lambda>k. to_arc certified_key_heap (Ptr k)" None
  for choose_scheme schemes
  by unfold_locales (auto simp: key_compatible_def split: option.splits)

section \<open>Vocabulary of the properties\<close>

text \<open>What the callback gets to see of a certificate chain for the name \<open>n\<close>.\<close>

definition verify_params :: "Certificate \<Rightarrow> Certificate list \<Rightarrow> bytes \<Rightarrow> bytes \<Rightarrow> rustls_verify_server_cert_params" where
  "verify_params end_entity intermediates n ocsp =
     \<lparr>end_entity_cert_der = rustls_slice_bytes_from (cert_as_ref end_entity),
      intermediate_certs_der = \<lparr>rssb_inner = map cert_as_ref intermediates\<rparr>,
      dns_name = from_str_unchecked n,
      ocsp_response = rustls_slice_bytes_from ocsp\<rparr>"

text \<open>The state after a builder has taken a reference to each of the keys.\<close>

definition client_with_keys :: "nat \<Rightarrow> ClientConfigBuilder \<Rightarrow> nat list \<Rightarrow> world \<Rightarrow> world" where
  "client_with_keys b cfg ks w =
     (bump_keys ks w)\<lparr>h_client_builder := (h_client_builder w)
        (b \<mapsto> cfg\<lparr>ccb_cert_resolver := Some (ResolvesClientCertFromChoices ks)\<rparr>)\<rparr>"

subsection \<open>Concrete values for the witnesses\<close>

definition demo_builder :: ClientConfigBuilder where
  "demo_builder = \<lparr>ccb_base = WantsVerifier 0, ccb_verifier = NoneVerifier, ccb_alpn_protocols = [],
     ccb_enable_sni = True, ccb_cert_resolver = None\<rparr>"

definition demo_config :: "ServerCertVerifier \<Rightarrow> ResolvesClientCert option \<Rightarrow> ClientConfig" where
  "demo_config v r = \<lparr>cc_base = WantsVerifier 0, cc_verifier = v, cc_cert_resolver = r, cc_alpn_protocols = [],
     cc_enable_sni = True\<rparr>"

definition demo_client_world :: world where
  "demo_client_world = empty_world\<lparr>next_addr := 10,
     USERDATA := \<lparr>destroyed = False, borrowed = False, stack = [\<lparr>ud_userdata = Ptr 9, ud_log_callback = None\<rparr>]\<rparr>,
     h_client_builder := [4 \<mapsto> demo_builder],
     h_certified_key := [2 \<mapsto> \<lparr>strong = 1, arc_data = demo_key [] 1\<rparr>],
     h_signing_key := [1 \<mapsto> \<lparr>strong = 1, arc_data = SigningKey 3\<rparr>],
     h_client_config := [6 \<mapsto> \<lparr>strong = 1, arc_data = demo_config NoneVerifier None\<rparr>],
     m_u8 := [20 \<mapsto> 97, 21 \<mapsto> 0], m_conn_ptr := [8 \<mapsto> Null]\<rparr>"

section \<open>Lemmas\<close>

lemma demo_client_world_simps [simp]:
  "h_client_builder demo_client_world = [4 \<mapsto> demo_builder]"
  "h_certified_key demo_client_world = [2 \<mapsto> \<lparr>strong = 1, arc_data = demo_key [] 1\<rparr>]"
  "h_signing_key demo_client_world = [1 \<mapsto> \<lparr>strong = 1, arc_data = SigningKey 3\<rparr>]"
  "h_client_config demo_client_world = [6 \<mapsto> \<lparr>strong = 1, arc_data = demo_config NoneVerifier None\<rparr>]"
  "m_u8 demo_client_world = [20 \<mapsto> 97, 21 \<mapsto> 0]" "m_conn_ptr demo_client_world = [8 \<mapsto> Null]"
  "next_addr demo_client_world = 10" "userdata_get (USERDATA demo_client_world) = Inr (Ptr 9)"
  "ccb_cert_resolver demo_builder = None"
  by (simp_all add: demo_client_world_def demo_builder_def userdata_get_def)

lemma demo_client_world_keys:
  "live_keys [Ptr 2, Ptr 2] demo_client_world" "live_keys [Ptr 2, Null] demo_client_world"
  by (auto simp: live_keys_def)

lemma bump_keys_client_builder [simp]:
  "bump_keys ks (w\<lparr>h_client_builder := h\<rparr>) = (bump_keys ks w)\<lparr>h_client_builder := h\<rparr>"
  "h_client_builder (bump_keys ks w) = h_client_builder w"
  by (simp_all add: bump_keys_def)

lemma live_keys_client_builder [simp]: "live_keys ps (w\<lparr>h_client_builder := h\<rparr>) = live_keys ps w"
  by (simp add: live_keys_def)

lemma set_certified_key_run:
  assumes "h_client_builder w b = Some cfg" and "from_raw_parts key_ptr_mem w ptrs n = Some ps"
  shows "rustls_client_config_builder_set_certified_key (Ptr b) ptrs n w =
    ffi_panic_boundary rr_ret (\<lambda>w. and_then (collect_keys ps [] w) (\<lambda>r w.
       case r of
         None \<Rightarrow> Returned NullParameter w
       | Some keys \<Rightarrow>
           and_then (drop_client_resolver (ccb_cert_resolver cfg) w) (\<lambda>_ w.
           Returned Ok (hput client_builder_heap b
             (cfg\<lparr>ccb_cert_resolver := Some (ResolvesClientCertFromChoices keys)\<rparr>) w)))) w"
proof -
  have "ptrs \<noteq> SNull" using assms(2) by auto
  then show ?thesis
    using assms by (simp add: rustls_client_config_builder_set_certified_key_def ffi_panic_boundary_def)
qed

lemma set_certified_key_first:
  assumes "h_client_builder w b = Some cfg" and "from_raw_parts key_ptr_mem w ptrs n = Some (map Ptr ks)"
    and "ccb_cert_resolver cfg = None" and "live_keys (map Ptr ks) w"
  shows "rustls_client_config_builder_set_certified_key (Ptr b) ptrs n w = Returned Ok (client_with_keys b cfg ks w)"
  using assms by (simp add: set_certified_key_run ffi_panic_boundary_def collect_keys_all drop_client_resolver_def
      client_with_keys_def)

text \<open>Setting keys again replaces the resolver and gives the old references back.\<close>

lemma set_certified_key_again:
  assumes "from_raw_parts key_ptr_mem w ptrs n = Some (map Ptr ls)"
    and "live_keys (map Ptr ks) w" and "live_keys (map Ptr ls) w"
  shows "rustls_client_config_builder_set_certified_key (Ptr b) ptrs n (client_with_keys b cfg ks w) =
    Returned Ok (client_with_keys b cfg ls w)"
proof -
  let ?w = "w\<lparr>h_client_builder := (h_client_builder w)
        (b \<mapsto> cfg\<lparr>ccb_cert_resolver := Some (ResolvesClientCertFromChoices ks)\<rparr>)\<rparr>"
  have start: "client_with_keys b cfg ks w = bump_keys ks ?w" by (simp add: client_with_keys_def)
  have "from_raw_parts key_ptr_mem (bump_keys ks ?w) ptrs n = Some (map Ptr ls)"
    using assms(1) from_raw_parts_cong [of key_ptr_mem "bump_keys ks ?w" w] by (simp add: bump_keys_def)
  moreover have "live_keys (map Ptr ls) (bump_keys ks ?w)"
    using assms(3) by (intro live_keys_bump) simp
  moreover have "release_keys ks (bump_keys ls (bump_keys ks ?w)) = Returned () (bump_keys ls ?w)"
    using release_keys_bumped [of ks ?w ls] assms(2) by (simp add: bump_keys_append)
  ultimately show ?thesis
    unfolding start
    by (subst set_certified_key_run [where cfg = "cfg\<lparr>ccb_cert_resolver := Some (ResolvesClientCertFromChoices ks)\<rparr>" and ps = "map Ptr ls"])
      (simp_all add: ffi_panic_boundary_def collect_keys_all drop_client_resolver_def client_with_keys_def
        del: bump_keys_client_builder(1) | simp add: client_with_keys_def)+
qed

lemma set_certified_key_null:
  assumes "h_client_builder w b = Some cfg" and "from_raw_parts key_ptr_mem w ptrs n = Some ps"
    and "live_keys ps w" and "Null \<in> set ps"
  shows "rustls_client_config_builder_set_certified_key (Ptr b) ptrs n w = Returned NullParameter w"
  using assms collect_keys_null [of "[]" ps w]
  by (simp add: set_certified_key_run ffi_panic_boundary_def)

text \<open>The verifier refuses without asking the callback.\<close>

lemma verifier_refuses:
  "Verifier_verify_server_cert call cb ee ims OtherServerName ocsp w = Returned (Inl (Error_General ''unknown name type'')) w"
  "0 \<in> set n \<Longrightarrow>
     Verifier_verify_server_cert call cb ee ims (DnsName n) ocsp w = Returned (Inl (Error_General ''NUL byte in SNI'')) w"
  "\<lbrakk>0 \<notin> set n; userdata_get (USERDATA w) = Inl e\<rbrakk> \<Longrightarrow>
     Verifier_verify_server_cert call cb ee ims (DnsName n) ocsp w =
       Returned (Inl (Error_General ''internal error with thread-local storage'')) w"
  by (simp_all add: Verifier_verify_server_cert_def rustls_str_try_from_unchecked)

text \<open>The resolver returns a new reference to the first compatible key.\<close>

lemma client_resolve_first:
  assumes "\<forall>k \<in> set ks. key_compatible choose_scheme schemes w k \<noteq> None"
  shows "client_resolve choose_scheme schemes ks w =
    (case find (\<lambda>k. key_compatible choose_scheme schemes w k = Some True) ks of
       Some k \<Rightarrow> Returned (Some k) (bump_keys [k] w)
     | None \<Rightarrow> Returned None w)"
proof (cases "find (\<lambda>k. key_compatible choose_scheme schemes w k = Some True) ks")
  case (Some k)
  then have "key_compatible choose_scheme schemes w k = Some True" by (auto simp: find_Some_iff)
  then obtain i where "h_certified_key w k = Some i" by (auto simp: key_compatible_def split: option.splits)
  then show ?thesis using client_choices.select_first [OF assms] Some by (simp add: to_arc_bump)
qed (simp add: client_choices.select_first [OF assms])

lemma release_client_config_retained:
  assumes "h_client_config w a = Some i" and "0 < strong i"
    and "to_arc client_config_heap (Ptr a) w = Returned (Some a) w1"
  shows "release_client_config a w1 = Returned () w"
  using client_config_arc.to_arc_then_drop [of a w a w1 i] assms by (simp add: release_client_config_def)

section \<open>Properties\<close>

text \<open>
  C9. The custom certificate verifier accepts exactly when the callback, called with the userdata
  of the connection being processed and the whole chain, returns the number of \<open>Ok\<close>. Any other answer is a
  rejection, and the code the application finally gets for it is the callback's own code when
  that is one of the certificate errors and \<open>General\<close> otherwise, also for numbers that are no code at all.
\<close>

theorem verifier_verdict:
  assumes "userdata_get (USERDATA w) = Inr u" and "0 \<notin> set n"
    and "call cb u (verify_params end_entity intermediates n ocsp) w = Returned code w'"
  shows "\<exists>r. Verifier_verify_server_cert call cb end_entity intermediates (DnsName n) ocsp w = Returned r w'
     \<and> (case r of
          Inr _ \<Rightarrow> code = discriminant Ok
        | Inl e \<Rightarrow> code \<noteq> discriminant Ok
            \<and> map_error e = (if rustls_result_is_cert_error code then the (rustls_result_try_from code) else General))"
proof -
  let ?r = "case rustls_result_try_from code of Some r \<Rightarrow> r | None \<Rightarrow> General"
  have run: "Verifier_verify_server_cert call cb end_entity intermediates (DnsName n) ocsp w =
     Returned (if code = discriminant Ok then Inr () else Inl (cert_result_to_error ?r)) w'"
    using assms
    by (simp add: Verifier_verify_server_cert_def verify_params_def rustls_str_try_from_unchecked Let_def case_Ok
        try_from_Ok_iff)
  have "map_error (cert_result_to_error ?r) =
     (if rustls_result_is_cert_error code then the (rustls_result_try_from code) else General)"
  proof (cases "rustls_result_try_from code")
    case None
    then have "\<not> rustls_result_is_cert_error code"
      by (simp add: rustls_result_is_cert_error_def)
    then show ?thesis using None by (simp add: map_cert_result is_cert_error_discriminant)
  next
    case (Some r)
    then have "code = discriminant r" by (simp add: try_from_Some_iff)
    then show ?thesis by (simp only: map_cert_result try_from_discriminant option.simps option.sel)
  qed
  then show ?thesis using run by (intro exI conjI) (assumption, simp)
qed

theorem verifier_verdict_witness:
  "\<exists>r. Verifier_verify_server_cert (\<lambda>cb u params. Returned 7117) 1 (Certificate [1]) [] (DnsName [97]) [] demo_client_world
       = Returned r demo_client_world
     \<and> (case r of
          Inr _ \<Rightarrow> 7117 = discriminant Ok
        | Inl e \<Rightarrow> 7117 \<noteq> discriminant Ok
            \<and> map_error e = (if rustls_result_is_cert_error 7117 then the (rustls_result_try_from 7117) else General))"
  by (rule verifier_verdict [where u = "Ptr 9"]) simp_all

text \<open>
  C24. A configuration built without choosing a verifier rejects every server certificate, whatever
  the chain, the name and the OCSP response.
\<close>

theorem new_config_trusts_nobody:
  assumes "\<And>b v. cc_verifier (with_no_client_auth b v) = v"
    and "rustls_client_config_builder_new safe_defaults w = Returned p w1"
  shows "\<exists>a c w2. rustls_client_config_builder_build with_resolver with_no_client_auth p w1 = Returned (Ptr a) w2
     \<and> h_client_config w2 a = Some c \<and> strong c = 1
     \<and> (\<forall>end_entity intermediates name ocsp w'.
          verify_server_cert webpki call (cc_verifier (arc_data c)) end_entity intermediates name ocsp w' =
            Returned (Inl Error_InvalidCertificateSignature) w')"
  using assms
  by (auto simp: rustls_client_config_builder_new_def rustls_client_config_builder_build_def ffi_panic_boundary_def
      to_mut_ptr_def to_const_ptr_def Let_def try_box_from_ptr_def to_box_def verify_server_cert_def
      NoneVerifier_verify_server_cert_def)

theorem new_config_trusts_nobody_witness:
  "\<exists>p w1 a w2. rustls_client_config_builder_new (WantsVerifier 0) empty_world = Returned p w1
     \<and> rustls_client_config_builder_build (\<lambda>b v r. demo_config v (Some r)) (\<lambda>b v. demo_config v None) p w1
       = Returned (Ptr a) w2"
proof -
  obtain p w1 where new: "rustls_client_config_builder_new (WantsVerifier 0) empty_world = Returned p w1"
    by (simp add: rustls_client_config_builder_new_def ffi_panic_boundary_def to_mut_ptr_def Let_def)
  have "\<And>b v. cc_verifier ((\<lambda>b v. demo_config v None) b v) = v" by (simp add: demo_config_def)
  from new_config_trusts_nobody [where with_no_client_auth = "\<lambda>b v. demo_config v None", OF this new] new
  show ?thesis by blast
qed

text \<open>
  \<open>rustls_client_config_builder_set_certified_key\<close> is all or nothing. With a null pointer anywhere in the
  array it returns \<open>NullParameter\<close>, and every reference it had taken before is given back; otherwise the
  builder holds exactly one new reference for each entry of the array.
\<close>

theorem set_certified_key_all_or_nothing:
  assumes "h_client_builder w b = Some cfg" and "from_raw_parts key_ptr_mem w ptrs n = Some ps"
    and "ccb_cert_resolver cfg = None" and "live_keys ps w"
  shows "rustls_client_config_builder_set_certified_key (Ptr b) ptrs n w =
    (if Null \<in> set ps then Returned NullParameter w
     else Returned Ok (client_with_keys b cfg (map (\<lambda>p. case p of Ptr a \<Rightarrow> a | Null \<Rightarrow> 0) ps) w))"
proof (cases "Null \<in> set ps")
  case True
  then show ?thesis using set_certified_key_null assms by simp
next
  case False
  then have "ps = map Ptr (map (\<lambda>p. case p of Ptr a \<Rightarrow> a | Null \<Rightarrow> 0) ps)"
    by (induction ps) (auto split: ptr.splits)
  then show ?thesis
    using set_certified_key_first [of w b cfg ptrs n "map (\<lambda>p. case p of Ptr a \<Rightarrow> a | Null \<Rightarrow> 0) ps"] False assms
    by simp
qed

theorem set_certified_key_all_or_nothing_witness:
  "rustls_client_config_builder_set_certified_key (Ptr 4) (SBorrow [Ptr 2, Null]) 2 demo_client_world =
     Returned NullParameter demo_client_world"
  by (subst set_certified_key_all_or_nothing [where cfg = demo_builder and ps = "[Ptr 2, Null]"])
    (simp_all add: demo_client_world_keys)

text \<open>
  The references travel with the resolver: setting keys, building the configuration and freeing it all
  succeed; building consumes the builder and moves the references without changing any count, and after the
  free every certified key and signing key is exactly as it was before, so nothing leaks and nothing is
  released twice.
\<close>

theorem client_config_lifecycle:
  assumes "h_client_builder w b = Some cfg" and "from_raw_parts key_ptr_mem w ptrs n = Some (map Ptr ks)"
    and "ccb_cert_resolver cfg = None" and "live_keys (map Ptr ks) w"
    and "\<And>b v r. cc_cert_resolver (with_resolver b v r) = Some r"
    and "h_client_config w (next_addr w) = None"
  shows "\<exists>w1 w2 w3 p. rustls_client_config_builder_set_certified_key (Ptr b) ptrs n w = Returned Ok w1
     \<and> rustls_client_config_builder_build with_resolver with_no_client_auth (Ptr b) w1 = Returned p w2
     \<and> h_certified_key w2 = h_certified_key w1 \<and> h_client_builder w2 b = None
     \<and> rustls_client_config_free p w2 = Returned () w3
     \<and> h_certified_key w3 = h_certified_key w \<and> h_signing_key w3 = h_signing_key w
     \<and> h_client_config w3 = h_client_config w"
proof -
  let ?w2 = "\<lambda>c. (client_with_keys b cfg ks w)\<lparr>h_client_builder := (h_client_builder w)(b := None),
     next_addr := Suc (next_addr w), h_client_config := (h_client_config w)(next_addr w \<mapsto> c)\<rparr>"
  let ?w3 = "w\<lparr>h_client_builder := (h_client_builder w)(b := None), next_addr := Suc (next_addr w)\<rparr>"
  have build: "\<exists>c. rustls_client_config_builder_build with_resolver with_no_client_auth (Ptr b) (client_with_keys b cfg ks w)
      = Returned (Ptr (next_addr w)) (?w2 c)
     \<and> strong c = 1 \<and> cc_cert_resolver (arc_data c) = Some (ResolvesClientCertFromChoices ks)"
    using assms(5)
    by (auto simp: rustls_client_config_builder_build_def ffi_panic_boundary_def try_box_from_ptr_def to_box_def
        to_const_ptr_def Let_def client_with_keys_def bump_keys_def)
  then obtain c where c: "rustls_client_config_builder_build with_resolver with_no_client_auth (Ptr b)
      (client_with_keys b cfg ks w) = Returned (Ptr (next_addr w)) (?w2 c)"
    "strong c = 1" "cc_cert_resolver (arc_data c) = Some (ResolvesClientCertFromChoices ks)" by blast
  have "release_keys ks (bump_keys (ks @ []) ?w3) = Returned () (bump_keys [] ?w3)"
    by (rule release_keys_bumped) (use assms(4) in \<open>simp add: live_keys_def\<close>)
  moreover have "hdel client_config_heap (next_addr w) (?w2 c) = bump_keys ks ?w3"
    using assms(6) by (simp add: client_with_keys_def bump_keys_def fun_upd_idem)
  ultimately have "rustls_client_config_free (Ptr (next_addr w)) (?w2 c) = Returned () ?w3"
    using c(2,3) client_config_arc.last_drop [of "?w2 c" "next_addr w" c]
    by (simp add: rustls_client_config_free_def ffi_panic_boundary_def drop_client_resolver_def)
  then show ?thesis
    using set_certified_key_first [OF assms(1-4)] c(1)
    by (intro exI [of _ "client_with_keys b cfg ks w"] exI [of _ "?w2 c"] exI [of _ ?w3] exI [of _ "Ptr (next_addr w)"])
      (simp add: client_with_keys_def)
qed

theorem client_config_lifecycle_witness:
  "\<exists>w1 w2 w3 p. rustls_client_config_builder_set_certified_key (Ptr 4) (SBorrow [Ptr 2, Ptr 2]) 2 demo_client_world
       = Returned Ok w1
     \<and> rustls_client_config_builder_build (\<lambda>b v r. demo_config v (Some r)) (\<lambda>b v. demo_config v None) (Ptr 4) w1
       = Returned p w2
     \<and> rustls_client_config_free p w2 = Returned () w3 \<and> h_certified_key w3 = h_certified_key demo_client_world"
proof -
  have *: "h_client_builder demo_client_world 4 = Some demo_builder"
    "from_raw_parts key_ptr_mem demo_client_world (SBorrow [Ptr 2, Ptr 2]) 2 = Some (map Ptr [2, 2])"
    "ccb_cert_resolver demo_builder = None" "live_keys (map Ptr [2, 2]) demo_client_world"
    "\<And>b v r. cc_cert_resolver ((\<lambda>b v r. demo_config v (Some r)) b v r) = Some r"
    "h_client_config demo_client_world (next_addr demo_client_world) = None"
    by (simp_all add: demo_client_world_keys demo_config_def)
  from client_config_lifecycle [where with_resolver = "\<lambda>b v r. demo_config v (Some r)" and
      with_no_client_auth = "\<lambda>b v. demo_config v None", OF *]
  show ?thesis by blast
qed

text \<open>
  As documented, the application may free its certified keys right after handing them to a
  builder: the builder's references keep every key alive and unchanged.
\<close>

theorem keys_outlive_their_free:
  assumes "h_client_builder w b = Some cfg" and "from_raw_parts key_ptr_mem w ptrs n = Some (map Ptr ks)"
    and "ccb_cert_resolver cfg = None" and "live_keys (map Ptr ks) w"
  shows "\<exists>w1 w2. rustls_client_config_builder_set_certified_key (Ptr b) ptrs n w = Returned Ok w1
     \<and> free_keys ks w1 = Returned () w2
     \<and> h_certified_key w2 = h_certified_key w \<and> h_signing_key w2 = h_signing_key w
     \<and> (\<exists>c. h_client_builder w2 b = Some c \<and> ccb_cert_resolver c = Some (ResolvesClientCertFromChoices ks))"
proof -
  let ?w2 = "w\<lparr>h_client_builder := (h_client_builder w)
        (b \<mapsto> cfg\<lparr>ccb_cert_resolver := Some (ResolvesClientCertFromChoices ks)\<rparr>)\<rparr>"
  have "free_keys ks (bump_keys (ks @ []) ?w2) = Returned () (bump_keys [] ?w2)"
    by (rule free_keys_bumped) (use assms(4) in simp)
  then show ?thesis
    using set_certified_key_first [OF assms]
    by (intro exI [of _ "client_with_keys b cfg ks w"] exI [of _ ?w2]) (simp add: client_with_keys_def)
qed

theorem keys_outlive_their_free_witness:
  "\<exists>w1 w2. rustls_client_config_builder_set_certified_key (Ptr 4) (SBorrow [Ptr 2, Ptr 2]) 2 demo_client_world
       = Returned Ok w1
     \<and> free_keys [2, 2] w1 = Returned () w2 \<and> h_certified_key w2 = h_certified_key demo_client_world"
proof -
  have *: "h_client_builder demo_client_world 4 = Some demo_builder"
    "from_raw_parts key_ptr_mem demo_client_world (SBorrow [Ptr 2, Ptr 2]) 2 = Some (map Ptr [2, 2])"
    "ccb_cert_resolver demo_builder = None" "live_keys (map Ptr [2, 2]) demo_client_world"
    by (simp_all add: demo_client_world_keys)
  from keys_outlive_their_free [OF *] show ?thesis by blast
qed



end
