(* ===== verification/Ffi_Session.thy ===== *)
theory Ffi_Session
  imports Ffi_Error
begin

text \<open>
  The session store broker (\<open>src/session.rs\<close>): the session storage traits of rustls,
  implemented by two callbacks of the C program.

  The \<open>get\<close> callback writes into a buffer of 65 KiB that it gets by value; its result has the
  buffer's new contents, the value it left in \<open>out_n\<close> and its return code.
\<close>

type_synonym 'w session_get_callbacks =
  "c_fn \<Rightarrow> void_ptr \<Rightarrow> rustls_slice_bytes \<Rightarrow> c_int \<Rightarrow> bytes \<Rightarrow> usize \<Rightarrow> ('w, bytes \<times> usize \<times> u32) comp"

type_synonym 'w session_put_callbacks =
  "c_fn \<Rightarrow> void_ptr \<Rightarrow> rustls_slice_bytes \<Rightarrow> rustls_slice_bytes \<Rightarrow> ('w, u32) comp"

definition SessionStoreBroker_new :: "c_fn \<Rightarrow> c_fn \<Rightarrow> SessionStoreBroker" where
  "SessionStoreBroker_new get_cb' put_cb' = \<lparr>get_cb = get_cb', put_cb = put_cb'\<rparr>"

definition session_buffer_size :: nat where
  "session_buffer_size = 65 * 1024"

text \<open>
  \<open>data.set_len(out_n)\<close> beyond the capacity of the vector is undefined, and so is a callback that
  writes outside the buffer (it hands back contents of another length).
\<close>

definition retrieve ::
  "world session_get_callbacks \<Rightarrow> SessionStoreBroker \<Rightarrow> bytes \<Rightarrow> bool \<Rightarrow> (world, bytes option) comp" where
  "retrieve call self key remove w =
     (case userdata_get (USERDATA w) of
        Inl _ \<Rightarrow> Returned None w
      | Inr userdata \<Rightarrow>
          and_then (call (get_cb self) userdata (rustls_slice_bytes_from key) (of_bool remove)
                      (replicate session_buffer_size 0) 0 w)
            (\<lambda>(data, out_n, result) w.
               if length data \<noteq> session_buffer_size then Undefined
               else case (case rustls_result_try_from result of Some r \<Rightarrow> r | None \<Rightarrow> General) of
                 Ok \<Rightarrow> if unat out_n \<le> session_buffer_size then Returned (Some (take (unat out_n) data)) w
                       else Undefined
               | _ \<Rightarrow> Returned None w))"

definition store ::
  "world session_put_callbacks \<Rightarrow> SessionStoreBroker \<Rightarrow> bytes \<Rightarrow> bytes \<Rightarrow> (world, bool) comp" where
  "store call self key value w =
     (case userdata_get (USERDATA w) of
        Inl _ \<Rightarrow> Returned False w
      | Inr userdata \<Rightarrow>
          and_then (call (put_cb self) userdata (rustls_slice_bytes_from key) (rustls_slice_bytes_from value) w)
            (\<lambda>result w. Returned (result = discriminant Ok) w))"

section \<open>The traits\<close>

definition server_sessions_put ::
  "world session_put_callbacks \<Rightarrow> SessionStoreBroker \<Rightarrow> bytes \<Rightarrow> bytes \<Rightarrow> (world, bool) comp" where
  "server_sessions_put call self key value = store call self key value"

definition server_sessions_get ::
  "world session_get_callbacks \<Rightarrow> SessionStoreBroker \<Rightarrow> bytes \<Rightarrow> (world, bytes option) comp" where
  "server_sessions_get call self key = retrieve call self key False"

definition server_sessions_take ::
  "world session_get_callbacks \<Rightarrow> SessionStoreBroker \<Rightarrow> bytes \<Rightarrow> (world, bytes option) comp" where
  "server_sessions_take call self key = retrieve call self key True"

definition server_sessions_can_cache :: "SessionStoreBroker \<Rightarrow> bool" where
  "server_sessions_can_cache self = True"

definition client_sessions_put ::
  "world session_put_callbacks \<Rightarrow> SessionStoreBroker \<Rightarrow> bytes \<Rightarrow> bytes \<Rightarrow> (world, bool) comp" where
  "client_sessions_put call self key value = store call self key value"

definition client_sessions_get ::
  "world session_get_callbacks \<Rightarrow> SessionStoreBroker \<Rightarrow> bytes \<Rightarrow> (world, bytes option) comp" where
  "client_sessions_get call self key = retrieve call self key False"

section \<open>The documented contract of the callbacks\<close>

text \<open>
  What the comments on the callback types ask of the C program, for a store whose contents in
  a state are \<open>view\<close>: \<open>put\<close> returns the code of \<open>Ok\<close> exactly when it has stored the value;
  \<open>get\<close> copies the value of a key that is present to the start of the buffer, sets \<open>out_n\<close> and
  returns the code of \<open>Ok\<close>, unless the value does not fit, in which case it drops the value and acts as
  if there was none; \<open>remove_after\<close> drops the value as well. Neither touches the library's stack.
\<close>

definition obeys_put :: "world session_put_callbacks \<Rightarrow> (world \<Rightarrow> bytes \<rightharpoonup> bytes) \<Rightarrow> c_fn \<Rightarrow> bool" where
  "obeys_put call view cb =
     (\<forall>u key val w. \<exists>code w'.
        call cb u (rustls_slice_bytes_from key) (rustls_slice_bytes_from val) w = Returned code w'
        \<and> USERDATA w' = USERDATA w
        \<and> view w' = (if code = discriminant Ok then (view w)(key \<mapsto> val) else view w))"

definition obeys_get :: "world session_get_callbacks \<Rightarrow> (world \<Rightarrow> bytes \<rightharpoonup> bytes) \<Rightarrow> c_fn \<Rightarrow> bool" where
  "obeys_get call view cb =
     (\<forall>buf u key rm w. length buf = session_buffer_size \<longrightarrow> (\<exists>buf' n code w'.
        call cb u (rustls_slice_bytes_from key) rm buf 0 w = Returned (buf', n, code) w'
        \<and> length buf' = length buf \<and> USERDATA w' = USERDATA w
        \<and> (case view w key of
             None \<Rightarrow> code = discriminant NotFound \<and> view w' = view w
           | Some val \<Rightarrow>
               if length val \<le> length buf
               then code = discriminant Ok \<and> unat n = length val \<and> take (length val) buf' = val
                    \<and> view w' = (if rm \<noteq> 0 then (view w)(key := None) else view w)
               else code = discriminant NotFound \<and> view w' = (view w)(key := None))))"

text \<open>A C program that keeps one session: the key at address 100, the value at address 101.\<close>

definition demo_view :: "world \<Rightarrow> bytes \<rightharpoonup> bytes" where
  "demo_view w = (case (m_slice w 100, m_slice w 101) of
      (Some k, Some v) \<Rightarrow> (case (rsb_data k, rsb_data v) of
          (SBorrow k, SBorrow v) \<Rightarrow> [k \<mapsto> v] | _ \<Rightarrow> Map.empty)
    | _ \<Rightarrow> Map.empty)"

text \<open>It refuses to store a second session, and frees the place when a session is taken.\<close>

definition demo_put :: "world session_put_callbacks" where
  "demo_put cb u key val w =
     (if demo_view w = Map.empty
      then Returned (discriminant Ok) (w\<lparr>m_slice := (m_slice w)(100 \<mapsto> key, 101 \<mapsto> val)\<rparr>)
      else Returned (discriminant Io) w)"

definition demo_get :: "world session_get_callbacks" where
  "demo_get cb u key rm buf n w =
     (let k = (case rsb_data key of SBorrow k \<Rightarrow> k | _ \<Rightarrow> []);
          w' = w\<lparr>m_slice := (m_slice w)(101 := None)\<rparr>
      in case demo_view w k of
           None \<Rightarrow> Returned (buf, 0, discriminant NotFound) w
         | Some v \<Rightarrow>
             if length v \<le> length buf \<and> length v < 2 ^ 64
             then Returned (v @ drop (length v) buf, of_nat (length v), discriminant Ok) (if rm \<noteq> 0 then w' else w)
             else Returned (buf, 0, discriminant NotFound) w')"

definition demo_session_world :: world where
  "demo_session_world = empty_world\<lparr>USERDATA := \<lparr>destroyed = False, borrowed = False,
     stack = [\<lparr>ud_userdata = Ptr 9, ud_log_callback = None\<rparr>]\<rparr>\<rparr>"

section \<open>Lemmas\<close>

lemma retrieve_returned:
  assumes "userdata_get (USERDATA w) = Inr u"
    and "call (get_cb self) u (rustls_slice_bytes_from key) (of_bool rm) (replicate session_buffer_size 0) 0 w
         = Returned (data, n, code) w'"
    and "length data = session_buffer_size" and "unat n \<le> session_buffer_size"
  shows "retrieve call self key rm w =
     Returned (if code = discriminant Ok then Some (take (unat n) data) else None) w'"
  using assms by (simp add: retrieve_def case_Ok try_from_Ok_iff)

lemma retrieve_obeying:
  assumes "obeys_get call view (get_cb self)" and "userdata_get (USERDATA w) = Inr u"
  shows "\<exists>w'. retrieve call self key rm w =
       Returned (case view w key of None \<Rightarrow> None
                 | Some val \<Rightarrow> if length val \<le> session_buffer_size then Some val else None) w'
     \<and> USERDATA w' = USERDATA w
     \<and> view w' = (case view w key of None \<Rightarrow> view w
                  | Some val \<Rightarrow> if rm \<or> session_buffer_size < length val then (view w)(key := None) else view w)"
proof -
  obtain data n code w' where
    run: "call (get_cb self) u (rustls_slice_bytes_from key) (of_bool rm) (replicate session_buffer_size 0) 0 w
       = Returned (data, n, code) w'"
    and len: "length data = session_buffer_size" and ud: "USERDATA w' = USERDATA w"
    and res: "case view w key of
             None \<Rightarrow> code = discriminant NotFound \<and> view w' = view w
           | Some val \<Rightarrow>
               if length val \<le> session_buffer_size
               then code = discriminant Ok \<and> unat n = length val \<and> take (length val) data = val
                    \<and> view w' = (if of_bool rm \<noteq> (0 :: c_int) then (view w)(key := None) else view w)
               else code = discriminant NotFound \<and> view w' = (view w)(key := None)"
    using assms(1) [unfolded obeys_get_def, rule_format, of "replicate session_buffer_size 0" u key "of_bool rm" w]
    unfolding length_replicate by blast
  have found: "retrieve call self key rm w = Returned (Some (take (unat n) data)) w'"
    if "code = discriminant Ok" "unat n \<le> session_buffer_size"
    using retrieve_returned [where call = call, OF assms(2) run len that(2)] that(1) by simp
  have absent: "retrieve call self key rm w = Returned None w'" if "code = discriminant NotFound"
    using assms(2) run len that by (simp add: retrieve_def case_Ok try_from_Ok_iff)
  show ?thesis
    using res ud found absent by (intro exI [of _ w']) (auto split: option.splits if_splits)
qed

lemma store_obeying:
  assumes "obeys_put call view (put_cb self)" and "userdata_get (USERDATA w) = Inr u"
  shows "\<exists>stored w'. store call self key val w = Returned stored w' \<and> USERDATA w' = USERDATA w
     \<and> view w' = (if stored then (view w)(key \<mapsto> val) else view w)"
  using assms(1) [unfolded obeys_put_def, rule_format, of u key val w] assms(2)
  by (auto simp: store_def)

lemma demo_view_cases:
  "demo_view w = Map.empty \<or> (\<exists>k v. demo_view w = [k \<mapsto> v])"
  by (auto simp: demo_view_def split: option.splits sptr.splits)

lemma demo_view_removed: "demo_view (w\<lparr>m_slice := (m_slice w)(101 := None)\<rparr>) = Map.empty"
  by (simp add: demo_view_def split: option.splits)

lemma demo_obeys_put: "obeys_put demo_put demo_view cb"
  by (auto simp: obeys_put_def demo_put_def rustls_slice_bytes_from_def) (auto simp: demo_view_def)

lemma demo_obeys_get: "obeys_get demo_get demo_view cb"
  unfolding obeys_get_def
proof (intro allI impI)
  fix buf :: bytes and u key rm w
  assume "length buf = session_buffer_size"
  then have small: "length buf < 2 ^ 64" by (simp add: session_buffer_size_def)
  consider "demo_view w = Map.empty" | k v where "demo_view w = [k \<mapsto> v]"
    using demo_view_cases by blast
  then show "\<exists>buf' n code w'. demo_get cb u (rustls_slice_bytes_from key) rm buf 0 w = Returned (buf', n, code) w'
        \<and> length buf' = length buf \<and> USERDATA w' = USERDATA w
        \<and> (case demo_view w key of
             None \<Rightarrow> code = discriminant NotFound \<and> demo_view w' = demo_view w
           | Some val \<Rightarrow>
               if length val \<le> length buf
               then code = discriminant Ok \<and> unat n = length val \<and> take (length val) buf' = val
                    \<and> demo_view w' = (if rm \<noteq> 0 then (demo_view w)(key := None) else demo_view w)
               else code = discriminant NotFound \<and> demo_view w' = (demo_view w)(key := None))"
    by cases (use small in \<open>auto simp: demo_get_def rustls_slice_bytes_from_def demo_view_removed Let_def
      unat_of_nat take_bit_nat_eq_self\<close>)
qed

lemma demo_session_world_userdata: "userdata_get (USERDATA demo_session_world) = Inr (Ptr 9)"
  by (simp add: demo_session_world_def userdata_get_def)

lemma demo_session_world_view: "demo_view demo_session_world = Map.empty"
  by (simp add: demo_session_world_def demo_view_def empty_world_def)

section \<open>Properties\<close>

text \<open>
  C14. The broker implements a bounded session store. When the callbacks do what their
  documentation asks, \<open>retrieve\<close> always returns, with the stored value when it fits the buffer
  of 65 KiB and with nothing otherwise; the value is gone afterwards exactly when it was to be
  removed or did not fit; the thread-local stack is as before.
\<close>

theorem retrieve_refines_store:
  assumes "obeys_get call view (get_cb self)" and "userdata_get (USERDATA w) = Inr u"
  shows "\<exists>w'. retrieve call self key rm w =
       Returned (case view w key of None \<Rightarrow> None
                 | Some val \<Rightarrow> if length val \<le> 65 * 1024 then Some val else None) w'
     \<and> USERDATA w' = USERDATA w
     \<and> view w' = (case view w key of None \<Rightarrow> view w
                  | Some val \<Rightarrow> if rm \<or> 65 * 1024 < length val then (view w)(key := None) else view w)"
  using retrieve_obeying [OF assms, unfolded session_buffer_size_def, of key rm] .

theorem retrieve_refines_store_witness:
  "\<exists>w'. retrieve demo_get \<lparr>get_cb = 1, put_cb = 2\<rparr> [5] False demo_session_world = Returned None w'"
  using retrieve_refines_store [OF demo_obeys_get demo_session_world_userdata,
      of "\<lparr>get_cb = 1, put_cb = 2\<rparr>" "[5]" False]
  by (auto simp: demo_session_world_view)

text \<open>
  C15. Round trip through the C program: a session that was stored with success is returned
  unchanged by \<open>get\<close>, again by \<open>take\<close>, and is gone after that.
\<close>

theorem session_roundtrip:
  assumes "obeys_put put view (put_cb self)" and "obeys_get get view (get_cb self)"
    and "userdata_get (USERDATA w) = Inr u"
    and "server_sessions_put put self key val w = Returned True w1" and "length val \<le> 65 * 1024"
  shows "\<exists>w2 w3 w4. server_sessions_get get self key w1 = Returned (Some val) w2
     \<and> server_sessions_take get self key w2 = Returned (Some val) w3
     \<and> server_sessions_get get self key w3 = Returned None w4 \<and> view w4 = (view w)(key := None)"
proof -
  have 1: "USERDATA w1 = USERDATA w" "view w1 = (view w)(key \<mapsto> val)"
    using store_obeying [OF assms(1,3), of key val] assms(4) by (auto simp: server_sessions_put_def)
  have fits: "length val \<le> session_buffer_size" using assms(5) by (simp add: session_buffer_size_def)
  obtain w2 where 2: "retrieve get self key False w1 = Returned (Some val) w2" "USERDATA w2 = USERDATA w"
      "view w2 = (view w)(key \<mapsto> val)"
    using retrieve_obeying [OF assms(2), of w1 u key False] 1 assms(3) fits by auto
  obtain w3 where 3: "retrieve get self key True w2 = Returned (Some val) w3" "USERDATA w3 = USERDATA w"
      "view w3 = (view w)(key := None)"
    using retrieve_obeying [OF assms(2), of w2 u key True] 2 assms(3) fits by auto
  obtain w4 where "retrieve get self key False w3 = Returned None w4" "view w4 = (view w)(key := None)"
    using retrieve_obeying [OF assms(2), of w3 u key False] 3 assms(3) by auto
  with 2 3 show ?thesis by (auto simp: server_sessions_get_def server_sessions_take_def)
qed

theorem session_roundtrip_witness:
  "\<exists>w1 w2. server_sessions_put demo_put \<lparr>get_cb = 1, put_cb = 2\<rparr> [5] [6, 7] demo_session_world = Returned True w1
     \<and> server_sessions_get demo_get \<lparr>get_cb = 1, put_cb = 2\<rparr> [5] w1 = Returned (Some [6, 7]) w2"
proof -
  let ?b = "\<lparr>get_cb = 1, put_cb = 2\<rparr>"
  have "\<exists>w1. server_sessions_put demo_put ?b [5] [6, 7] demo_session_world = Returned True w1"
    by (simp add: server_sessions_put_def store_def demo_session_world_userdata demo_put_def
        demo_session_world_view)
  then obtain w1 where put: "server_sessions_put demo_put ?b [5] [6, 7] demo_session_world = Returned True w1" ..
  have "length [6 :: u8, 7] \<le> 65 * 1024" by simp
  from session_roundtrip [OF demo_obeys_put demo_obeys_get demo_session_world_userdata put this] put
  show ?thesis by blast
qed

text \<open>
  Outside of the processing of a connection (no userdata on the stack, or the stack not
  accessible) no session callback runs: a lookup finds nothing, a store reports failure, and the
  state does not change.
\<close>

theorem no_connection_no_callback:
  assumes "userdata_get (USERDATA w) = Inl e"
  shows "retrieve get self key rm w = Returned None w \<and> store put self key val w = Returned False w"
  using assms by (simp add: retrieve_def store_def)

theorem no_connection_no_callback_witness:
  "retrieve demo_get \<lparr>get_cb = 1, put_cb = 2\<rparr> [5] True empty_world = Returned None empty_world
   \<and> store demo_put \<lparr>get_cb = 1, put_cb = 2\<rparr> [5] [6] empty_world = Returned False empty_world"
proof -
  have "userdata_get (USERDATA empty_world) = Inl EmptyStack"
    by (simp add: empty_world_def userdata_get_def)
  from no_connection_no_callback [OF this] show ?thesis .
qed

end
