(* ===== verification/Ffi_Server.thy ===== *)
theory Ffi_Server
  imports Ffi_Config Ffi_Connection Ffi_Session
begin

text \<open>
  Server configurations and connections (\<open>src/server.rs\<close>): the builder and its settings, the
  two certificate resolvers, the client hello and the selection of a key for it, session
  persistence, and the creation of connections.

  Parameters: the builder chain of rustls, \<open>ServerConnection::new\<close> and \<open>sni_hostname\<close>, the numbers
  and the choice of signature schemes, and the C callbacks.
\<close>

section \<open>Making a builder\<close>

definition rustls_server_config_builder_new :: "WantsVerifier \<Rightarrow> (world, ServerConfigBuilder ptr) comp" where
  "rustls_server_config_builder_new safe_defaults =
     ffi_panic_boundary ptr_ret
       (to_mut_ptr server_builder_heap
          \<lparr>scb_base = safe_defaults, scb_verifier = NoClientAuth, scb_cert_resolver = None,
           scb_session_storage = None, scb_alpn_protocols = [], scb_ignore_client_order = None\<rparr>)"

definition rustls_server_config_builder_new_custom ::
  "(SupportedCipherSuite \<Rightarrow> SupportedCipherSuite \<Rightarrow> bool) \<Rightarrow> SupportedCipherSuite list \<Rightarrow>
   (u16 \<Rightarrow> 'v) \<Rightarrow> (SupportedProtocolVersion \<Rightarrow> 'v) \<Rightarrow>
   (SupportedCipherSuite list \<Rightarrow> SupportedProtocolVersion list \<Rightarrow> WantsVerifier option) \<Rightarrow>
   SupportedCipherSuite option sptr \<Rightarrow> usize \<Rightarrow> u16 sptr \<Rightarrow> usize \<Rightarrow> ServerConfigBuilder ptr ptr \<Rightarrow>
   (world, rustls_result) comp" where
  "rustls_server_config_builder_new_custom eq ALL_CIPHER_SUITES ProtocolVersion_from version with_protocol_versions
     cipher_suites cipher_suites_len tls_versions tls_versions_len builder_out =
     ffi_panic_boundary rr_ret (try_slice suite_mem rr_ret cipher_suites cipher_suites_len (\<lambda>cipher_suites w.
       case collect_suites eq ALL_CIPHER_SUITES cipher_suites [] of
         Inl e \<Rightarrow> Returned e w
       | Inr cs_vec \<Rightarrow>
           try_slice u16_mem rr_ret tls_versions tls_versions_len (\<lambda>tls_versions w.
             let versions = collect_versions ProtocolVersion_from version tls_versions []
             in case with_protocol_versions cs_vec versions of
                  None \<Rightarrow> Returned InvalidParameter w
                | Some base \<Rightarrow>
                    and_then (set_mut_ptr server_builder_heap server_builder_ptr_mem builder_out
                       \<lparr>scb_base = base, scb_verifier = NoClientAuth, scb_cert_resolver = None,
                        scb_session_storage = None, scb_alpn_protocols = [], scb_ignore_client_order = None\<rparr> w)
                      (\<lambda>_ w. Returned Ok w)) w))"

section \<open>Drop glue\<close>

definition drop_client_cert_verifier :: "ClientCertVerifier \<Rightarrow> (world, unit) comp" where
  "drop_client_cert_verifier v w =
     (case v of
        NoClientAuth \<Rightarrow> Returned () w
      | VerifyRequired a \<Rightarrow> and_then (arc_drop client_verifier_heap a w) (\<lambda>_ w. Returned () w)
      | VerifyOptional a \<Rightarrow> and_then (arc_drop client_verifier_optional_heap a w) (\<lambda>_ w. Returned () w))"

definition drop_server_resolver :: "ResolvesServerCert option \<Rightarrow> (world, unit) comp" where
  "drop_server_resolver r w =
     (case r of Some (ResolvesServerCertFromChoices keys) \<Rightarrow> release_keys keys w | _ \<Rightarrow> Returned () w)"

definition drop_server_builder :: "ServerConfigBuilder \<Rightarrow> (world, unit) comp" where
  "drop_server_builder b w =
     and_then (drop_client_cert_verifier (scb_verifier b) w)
       (\<lambda>_ w. drop_server_resolver (scb_cert_resolver b) w)"

definition drop_server_config :: "ServerConfig \<Rightarrow> (world, unit) comp" where
  "drop_server_config c w =
     and_then (drop_client_cert_verifier (sc_verifier c) w)
       (\<lambda>_ w. drop_server_resolver (Some (sc_cert_resolver c)) w)"

section \<open>Settings\<close>

definition rustls_server_config_builder_set_client_verifier ::
  "ServerConfigBuilder ptr \<Rightarrow> AllowAnyAuthenticatedClient ptr \<Rightarrow> (world, unit) comp" where
  "rustls_server_config_builder_set_client_verifier builder verifier =
     ffi_panic_boundary defaultable_ret (try_mut_from_ptr server_builder_heap defaultable_ret builder (\<lambda>a b.
       try_arc_from_ptr client_verifier_heap defaultable_ret verifier (\<lambda>verifier w.
       and_then (drop_client_cert_verifier (scb_verifier b) w) (\<lambda>_ w.
       Returned () (hput server_builder_heap a (b\<lparr>scb_verifier := VerifyRequired verifier\<rparr>) w)))))"

definition rustls_server_config_builder_set_client_verifier_optional ::
  "ServerConfigBuilder ptr \<Rightarrow> AllowAnyAnonymousOrAuthenticatedClient ptr \<Rightarrow> (world, unit) comp" where
  "rustls_server_config_builder_set_client_verifier_optional builder verifier =
     ffi_panic_boundary defaultable_ret (try_mut_from_ptr server_builder_heap defaultable_ret builder (\<lambda>a b.
       try_arc_from_ptr client_verifier_optional_heap defaultable_ret verifier (\<lambda>verifier w.
       and_then (drop_client_cert_verifier (scb_verifier b) w) (\<lambda>_ w.
       Returned () (hput server_builder_heap a (b\<lparr>scb_verifier := VerifyOptional verifier\<rparr>) w)))))"

definition rustls_server_config_builder_free :: "ServerConfigBuilder ptr \<Rightarrow> (world, unit) comp" where
  "rustls_server_config_builder_free config =
     ffi_panic_boundary defaultable_ret (\<lambda>w.
       and_then (to_box server_builder_heap config w) (\<lambda>b w.
       case b of None \<Rightarrow> Returned () w | Some builder \<Rightarrow> drop_server_builder builder w))"

definition rustls_server_config_builder_set_ignore_client_order ::
  "ServerConfigBuilder ptr \<Rightarrow> bool \<Rightarrow> (world, rustls_result) comp" where
  "rustls_server_config_builder_set_ignore_client_order builder ignore =
     ffi_panic_boundary rr_ret (try_mut_from_ptr server_builder_heap rr_ret builder (\<lambda>a config w.
       Returned Ok (hput server_builder_heap a (config\<lparr>scb_ignore_client_order := Some ignore\<rparr>) w)))"

definition rustls_server_config_builder_set_alpn_protocols ::
  "ServerConfigBuilder ptr \<Rightarrow> rustls_slice_bytes sptr \<Rightarrow> usize \<Rightarrow> (world, rustls_result) comp" where
  "rustls_server_config_builder_set_alpn_protocols builder protocols len =
     ffi_panic_boundary rr_ret (try_mut_from_ptr server_builder_heap rr_ret builder (\<lambda>a config.
       try_slice slice_mem rr_ret protocols len (\<lambda>protocols w.
       and_then (collect_alpn protocols [] w) (\<lambda>r w.
       case r of
         None \<Rightarrow> Returned NullParameter w
       | Some vv \<Rightarrow> Returned Ok (hput server_builder_heap a (config\<lparr>scb_alpn_protocols := vv\<rparr>) w)))))"

text \<open>
  \<open>ResolvesServerCertFromChoices::new(&keys)\<close> clones the vector; the vector \<open>keys\<close> itself is
  dropped when the function returns.
\<close>

definition ResolvesServerCertFromChoices_new :: "nat list \<Rightarrow> (world, ResolvesServerCert) comp" where
  "ResolvesServerCertFromChoices_new choices w =
     and_then (clone_keys choices w) (\<lambda>_ w. Returned (ResolvesServerCertFromChoices choices) w)"

definition rustls_server_config_builder_set_certified_keys ::
  "ServerConfigBuilder ptr \<Rightarrow> CertifiedKey ptr sptr \<Rightarrow> usize \<Rightarrow> (world, rustls_result) comp" where
  "rustls_server_config_builder_set_certified_keys builder certified_keys certified_keys_len =
     ffi_panic_boundary rr_ret (try_mut_from_ptr server_builder_heap rr_ret builder (\<lambda>a b.
       try_slice key_ptr_mem rr_ret certified_keys certified_keys_len (\<lambda>keys_ptrs w.
       and_then (collect_keys keys_ptrs [] w) (\<lambda>r w.
       case r of
         None \<Rightarrow> Returned NullParameter w
       | Some keys \<Rightarrow>
           and_then (ResolvesServerCertFromChoices_new keys w) (\<lambda>resolver w.
           and_then (drop_server_resolver (scb_cert_resolver b) w) (\<lambda>_ w.
           and_then (release_keys keys (hput server_builder_heap a (b\<lparr>scb_cert_resolver := Some resolver\<rparr>) w))
             (\<lambda>_ w. Returned Ok w)))))))"

definition ClientHelloResolver_new :: "c_fn \<Rightarrow> ResolvesServerCert" where
  "ClientHelloResolver_new callback = ClientHelloResolver callback"

declare ClientHelloResolver_new_def [simp]

definition rustls_server_config_builder_set_hello_callback ::
  "ServerConfigBuilder ptr \<Rightarrow> c_fn option \<Rightarrow> (world, rustls_result) comp" where
  "rustls_server_config_builder_set_hello_callback builder callback =
     ffi_panic_boundary rr_ret (\<lambda>w.
       case callback of
         None \<Rightarrow> Returned NullParameter w
       | Some cb \<Rightarrow>
           try_mut_from_ptr server_builder_heap rr_ret builder (\<lambda>a b w.
             and_then (drop_server_resolver (scb_cert_resolver b) w) (\<lambda>_ w.
             Returned Ok (hput server_builder_heap a (b\<lparr>scb_cert_resolver := Some (ClientHelloResolver_new cb)\<rparr>) w))) w)"

definition rustls_server_config_builder_set_persistence ::
  "ServerConfigBuilder ptr \<Rightarrow> c_fn option \<Rightarrow> c_fn option \<Rightarrow> (world, rustls_result) comp" where
  "rustls_server_config_builder_set_persistence builder get_cb' put_cb' =
     ffi_panic_boundary rr_ret (\<lambda>w.
       case get_cb' of
         None \<Rightarrow> Returned NullParameter w
       | Some get_cb' \<Rightarrow>
       case put_cb' of
         None \<Rightarrow> Returned NullParameter w
       | Some put_cb' \<Rightarrow>
           try_mut_from_ptr server_builder_heap rr_ret builder (\<lambda>a b w.
             Returned Ok (hput server_builder_heap a
               (b\<lparr>scb_session_storage := Some (Broker (SessionStoreBroker_new get_cb' put_cb'))\<rparr>) w)) w)"

section \<open>Building and freeing\<close>

text \<open>
  Without a resolver the function returns null; the builder is gone all the same, with the
  reference to the client verifier that it held.
\<close>

definition rustls_server_config_builder_build ::
  "(WantsVerifier \<Rightarrow> ClientCertVerifier \<Rightarrow> ResolvesServerCert \<Rightarrow> ServerConfig) \<Rightarrow>
   ServerConfigBuilder ptr \<Rightarrow> (world, ServerConfig ptr) comp" where
  "rustls_server_config_builder_build with_cert_resolver builder =
     ffi_panic_boundary const_ptr_ret (try_box_from_ptr server_builder_heap const_ptr_ret builder (\<lambda>builder w.
       case scb_cert_resolver builder of
         None \<Rightarrow> and_then (drop_server_builder builder w) (\<lambda>_ w. Returned Null w)
       | Some r \<Rightarrow>
           let config = with_cert_resolver (scb_base builder) (scb_verifier builder) r;
               config = (case scb_session_storage builder of
                           Some ss \<Rightarrow> config\<lparr>sc_session_storage := ss\<rparr> | None \<Rightarrow> config);
               config = config\<lparr>sc_alpn_protocols := scb_alpn_protocols builder\<rparr>;
               config = (case scb_ignore_client_order builder of
                           Some ignore \<Rightarrow> config\<lparr>sc_ignore_client_order := ignore\<rparr> | None \<Rightarrow> config)
           in to_const_ptr server_config_heap config w))"

definition release_server_config :: "nat \<Rightarrow> (world, unit) comp" where
  "release_server_config a w =
     and_then (arc_drop server_config_heap a w) (\<lambda>r w.
       case r of None \<Rightarrow> Returned () w | Some c \<Rightarrow> drop_server_config c w)"

definition rustls_server_config_free :: "ServerConfig ptr \<Rightarrow> (world, unit) comp" where
  "rustls_server_config_free config =
     ffi_panic_boundary defaultable_ret (\<lambda>w.
       case config of Null \<Rightarrow> Returned () w | Ptr a \<Rightarrow> release_server_config a w)"

section \<open>Connections\<close>

definition rustls_server_connection_new ::
  "(nat \<Rightarrow> (world, rustls_Error + ServerConnection) comp) \<Rightarrow> ServerConfig ptr \<Rightarrow> Connection ptr ptr \<Rightarrow>
   (world, rustls_result) comp" where
  "rustls_server_connection_new ServerConnection_new config conn_out =
     ffi_panic_boundary rr_ret (try_arc_from_ptr server_config_heap rr_ret config (\<lambda>config w.
       and_then (ServerConnection_new config w) (\<lambda>r w.
       case r of
         Inl e \<Rightarrow> Returned (map_error e) w
       | Inr server_connection \<Rightarrow>
           and_then (set_mut_ptr connection_heap conn_ptr_mem conn_out (from_server server_connection) w)
             (\<lambda>_ w. Returned Ok w))))"

definition rustls_server_connection_get_sni_hostname ::
  "(ServerConnection \<Rightarrow> bytes option) \<Rightarrow> Connection ptr \<Rightarrow> u8 ptr \<Rightarrow> usize \<Rightarrow> usize ptr \<Rightarrow>
   (world, rustls_result) comp" where
  "rustls_server_connection_get_sni_hostname sni_hostname conn buf count out_n =
     ffi_panic_boundary rr_ret (try_ref_from_ptr connection_heap rr_ret conn (\<lambda>conn w.
       if is_null buf then Returned NullParameter w
       else if is_null out_n then Returned NullParameter w
       else case as_server conn of
         None \<Rightarrow> Returned InvalidParameter w
       | Some server_connection \<Rightarrow>
       case sni_hostname server_connection of
         None \<Rightarrow> and_then (write_cell usize_mem out_n 0 w) (\<lambda>_ w. Returned Ok w)
       | Some name \<Rightarrow>
           let len = (of_nat (length name) :: usize)
           in if len > count
              then and_then (write_cell usize_mem out_n 0 w) (\<lambda>_ w. Returned InsufficientSize w)
              else and_then (copy_to u8_mem buf name w) (\<lambda>_ w.
                   and_then (write_cell usize_mem out_n len w) (\<lambda>_ w. Returned Ok w))))"

section \<open>Resolving the server certificate\<close>

text \<open>The \<open>ClientHello\<close> that rustls gives to a resolver.\<close>

record ClientHello =
  hello_server_name :: "bytes option"
  hello_signature_schemes :: "SignatureScheme list"
  hello_alpn :: "bytes list option"

fun server_resolve ::
  "(SigningKey \<Rightarrow> SignatureScheme list \<Rightarrow> Signer option) \<Rightarrow> SignatureScheme list \<Rightarrow> nat list \<Rightarrow>
   (world, nat option) comp" where
  "server_resolve choose_scheme schemes [] w = Returned None w"
| "server_resolve choose_scheme schemes (key # rest) w =
     (case h_certified_key w key of
        None \<Rightarrow> Undefined
      | Some ck \<Rightarrow>
     case h_signing_key w (ck_key (arc_data ck)) of
        None \<Rightarrow> Undefined
      | Some signing_key \<Rightarrow>
          if choose_scheme (arc_data signing_key) schemes \<noteq> None
          then to_arc certified_key_heap (Ptr key) w
          else server_resolve choose_scheme schemes rest w)"

definition ResolvesServerCertFromChoices_resolve ::
  "(SigningKey \<Rightarrow> SignatureScheme list \<Rightarrow> Signer option) \<Rightarrow> nat list \<Rightarrow> ClientHello \<Rightarrow> (world, nat option) comp" where
  "ResolvesServerCertFromChoices_resolve choose_scheme choices client_hello =
     server_resolve choose_scheme (hello_signature_schemes client_hello) choices"

record rustls_client_hello =
  ch_sni_name :: rustls_str
  ch_signature_schemes :: rustls_slice_u16
  ch_alpn :: "rustls_slice_slice_bytes option"

type_synonym hello_callbacks = "c_fn \<Rightarrow> void_ptr \<Rightarrow> rustls_client_hello \<Rightarrow> (world, CertifiedKey ptr) comp"

text \<open>The view of a client hello that the callback gets; \<open>None\<close> when the name has a NUL byte.\<close>

definition client_hello_view :: "(SignatureScheme \<Rightarrow> u16) \<Rightarrow> ClientHello \<Rightarrow> rustls_client_hello option" where
  "client_hello_view get_u16 client_hello =
     (let sni_name = (case hello_server_name client_hello of Some c \<Rightarrow> c | None \<Rightarrow> as_bytes '''')
      in case rustls_str_try_from sni_name of
           Inl _ \<Rightarrow> None
         | Inr sni_name \<Rightarrow>
             let mapped_sigs = map get_u16 (hello_signature_schemes client_hello);
                 alpn = (case hello_alpn client_hello of Some ps \<Rightarrow> ps | None \<Rightarrow> [])
             in Some \<lparr>ch_sni_name = sni_name, ch_signature_schemes = rustls_slice_u16_from mapped_sigs,
                      ch_alpn = Some \<lparr>rssb_inner = alpn\<rparr>\<rparr>)"

text \<open>
  The key that the callback returns is cloned into a new \<open>Arc\<close>; the clone has its own
  reference to the signing key.
\<close>

definition ClientHelloResolver_resolve ::
  "(SignatureScheme \<Rightarrow> u16) \<Rightarrow> hello_callbacks \<Rightarrow> c_fn \<Rightarrow> ClientHello \<Rightarrow> (world, nat option) comp" where
  "ClientHelloResolver_resolve get_u16 call callback client_hello w =
     (case client_hello_view get_u16 client_hello of
        None \<Rightarrow> Returned None w
      | Some hello \<Rightarrow>
     case userdata_get (USERDATA w) of
        Inl _ \<Rightarrow> Returned None w
      | Inr userdata \<Rightarrow>
          and_then (call callback userdata hello w) (\<lambda>key_ptr.
          try_ref_from_arc_ptr certified_key_heap defaultable_ret key_ptr (\<lambda>certified_key w.
          and_then (to_arc signing_key_heap (Ptr (ck_key certified_key)) w) (\<lambda>_ w.
          and_then (to_const_ptr certified_key_heap certified_key w) (\<lambda>p w.
          Returned (case p of Null \<Rightarrow> None | Ptr a \<Rightarrow> Some a) w)))))"

section \<open>Selecting a key for a client hello\<close>

definition sigscheme :: "u16 \<Rightarrow> SignatureScheme" where
  "sigscheme n =
     (if n = 0x0201 then RSA_PKCS1_SHA1
      else if n = 0x0203 then ECDSA_SHA1_Legacy
      else if n = 0x0401 then RSA_PKCS1_SHA256
      else if n = 0x0403 then ECDSA_NISTP256_SHA256
      else if n = 0x0501 then RSA_PKCS1_SHA384
      else if n = 0x0503 then ECDSA_NISTP384_SHA384
      else if n = 0x0601 then RSA_PKCS1_SHA512
      else if n = 0x0603 then ECDSA_NISTP521_SHA512
      else if n = 0x0804 then RSA_PSS_SHA256
      else if n = 0x0805 then RSA_PSS_SHA384
      else if n = 0x0806 then RSA_PSS_SHA512
      else if n = 0x0807 then ED25519
      else if n = 0x0808 then ED448
      else Unknown n)"

definition sigschemes :: "u16 list \<Rightarrow> SignatureScheme list" where
  "sigschemes input = map sigscheme input"

fun select_key_loop ::
  "(SigningKey \<Rightarrow> SignatureScheme list \<Rightarrow> Signer option) \<Rightarrow> SignatureScheme list \<Rightarrow> CertifiedKey ptr ptr \<Rightarrow>
   CertifiedKey ptr list \<Rightarrow> (world, rustls_result) comp" where
  "select_key_loop choose_scheme schemes out_key [] w = Returned NotFound w"
| "select_key_loop choose_scheme schemes out_key (Null # rest) w = Returned NullParameter w"
| "select_key_loop choose_scheme schemes out_key (Ptr key # rest) w =
     (case h_certified_key w key of
        None \<Rightarrow> Undefined
      | Some ck \<Rightarrow>
     case h_signing_key w (ck_key (arc_data ck)) of
        None \<Rightarrow> Undefined
      | Some signing_key \<Rightarrow>
          if choose_scheme (arc_data signing_key) schemes \<noteq> None
          then and_then (write_cell key_ptr_mem out_key (Ptr key) w) (\<lambda>_ w. Returned Ok w)
          else select_key_loop choose_scheme schemes out_key rest w)"

definition rustls_client_hello_select_certified_key ::
  "(SigningKey \<Rightarrow> SignatureScheme list \<Rightarrow> Signer option) \<Rightarrow> rustls_client_hello option \<Rightarrow>
   CertifiedKey ptr sptr \<Rightarrow> usize \<Rightarrow> CertifiedKey ptr ptr \<Rightarrow> (world, rustls_result) comp" where
  "rustls_client_hello_select_certified_key choose_scheme hello certified_keys certified_keys_len out_key =
     ffi_panic_boundary rr_ret (try_ref_from_view rr_ret hello (\<lambda>hello.
       try_slice u16_mem rr_ret (rsu_data (ch_signature_schemes hello)) (rsu_len (ch_signature_schemes hello))
         (\<lambda>numbers w.
         let schemes = sigschemes numbers
         in if is_null out_key then Returned NullParameter w
            else try_slice key_ptr_mem rr_ret certified_keys certified_keys_len (\<lambda>keys_ptrs.
                   select_key_loop choose_scheme schemes out_key keys_ptrs) w)))"

section \<open>The interface of key selection\<close>

interpretation server_choices:
  key_selection "key_compatible choose_scheme schemes" "server_resolve choose_scheme schemes"
    "\<lambda>k. to_arc certified_key_heap (Ptr k)" None
  for choose_scheme schemes
  by unfold_locales (auto simp: key_compatible_def split: option.splits)

interpretation hello_selection:
  key_selection "key_compatible choose_scheme schemes"
    "\<lambda>ks. select_key_loop choose_scheme schemes out_key (map Ptr ks)"
    "\<lambda>k w. and_then (write_cell key_ptr_mem out_key (Ptr k) w) (\<lambda>_ w. Returned Ok w)" NotFound
  for choose_scheme schemes out_key
  by unfold_locales (auto simp: key_compatible_def split: option.splits)

section \<open>Vocabulary of the properties\<close>

text \<open>The numbers of the signature schemes (RFC 8446), which \<open>get_u16\<close> of rustls returns.\<close>

definition scheme_numbers :: "(SignatureScheme \<Rightarrow> u16) \<Rightarrow> bool" where
  "scheme_numbers get_u16 =
     (get_u16 RSA_PKCS1_SHA1 = 0x0201 \<and> get_u16 ECDSA_SHA1_Legacy = 0x0203
      \<and> get_u16 RSA_PKCS1_SHA256 = 0x0401 \<and> get_u16 ECDSA_NISTP256_SHA256 = 0x0403
      \<and> get_u16 RSA_PKCS1_SHA384 = 0x0501 \<and> get_u16 ECDSA_NISTP384_SHA384 = 0x0503
      \<and> get_u16 RSA_PKCS1_SHA512 = 0x0601 \<and> get_u16 ECDSA_NISTP521_SHA512 = 0x0603
      \<and> get_u16 RSA_PSS_SHA256 = 0x0804 \<and> get_u16 RSA_PSS_SHA384 = 0x0805
      \<and> get_u16 RSA_PSS_SHA512 = 0x0806 \<and> get_u16 ED25519 = 0x0807 \<and> get_u16 ED448 = 0x0808
      \<and> (\<forall>n. get_u16 (Unknown n) = n))"

text \<open>A scheme as rustls parses it: \<open>Unknown\<close> is used for numbers without a name alone.\<close>

definition parsed_scheme :: "SignatureScheme \<Rightarrow> bool" where
  "parsed_scheme s = (\<forall>n. s = Unknown n \<longrightarrow> sigscheme n = Unknown n)"

text \<open>A client hello callback that selects from an array of keys and returns the selection.\<close>

definition selecting_callback ::
  "(SigningKey \<Rightarrow> SignatureScheme list \<Rightarrow> Signer option) \<Rightarrow> CertifiedKey ptr sptr \<Rightarrow> usize \<Rightarrow> nat \<Rightarrow> hello_callbacks" where
  "selecting_callback choose_scheme keys n out cb u hello w =
     and_then (rustls_client_hello_select_certified_key choose_scheme (Some hello) keys n (Ptr out) w) (\<lambda>r w.
       Returned (if r = Ok then case m_key_ptr w out of Some p \<Rightarrow> p | None \<Rightarrow> Null else Null) w)"

text \<open>The state after a builder has taken a reference to each of the keys.\<close>

definition server_with_keys :: "nat \<Rightarrow> ServerConfigBuilder \<Rightarrow> nat list \<Rightarrow> world \<Rightarrow> world" where
  "server_with_keys b cfg ks w =
     (bump_keys ks w)\<lparr>h_server_builder := (h_server_builder w)
        (b \<mapsto> cfg\<lparr>scb_cert_resolver := Some (ResolvesServerCertFromChoices ks)\<rparr>)\<rparr>"

subsection \<open>Concrete values for the witnesses\<close>

primrec demo_get_u16 :: "SignatureScheme \<Rightarrow> u16" where
  "demo_get_u16 RSA_PKCS1_SHA1 = 0x0201" | "demo_get_u16 ECDSA_SHA1_Legacy = 0x0203"
| "demo_get_u16 RSA_PKCS1_SHA256 = 0x0401" | "demo_get_u16 ECDSA_NISTP256_SHA256 = 0x0403"
| "demo_get_u16 RSA_PKCS1_SHA384 = 0x0501" | "demo_get_u16 ECDSA_NISTP384_SHA384 = 0x0503"
| "demo_get_u16 RSA_PKCS1_SHA512 = 0x0601" | "demo_get_u16 ECDSA_NISTP521_SHA512 = 0x0603"
| "demo_get_u16 RSA_PSS_SHA256 = 0x0804" | "demo_get_u16 RSA_PSS_SHA384 = 0x0805"
| "demo_get_u16 RSA_PSS_SHA512 = 0x0806" | "demo_get_u16 ED25519 = 0x0807"
| "demo_get_u16 ED448 = 0x0808" | "demo_get_u16 (Unknown n) = n"

definition demo_choose :: "SigningKey \<Rightarrow> SignatureScheme list \<Rightarrow> Signer option" where
  "demo_choose sk schemes = (if sk = SigningKey 3 \<and> ED25519 \<in> set schemes then Some (Signer 0) else None)"

definition demo_hello :: ClientHello where
  "demo_hello = \<lparr>hello_server_name = Some [97], hello_signature_schemes = [RSA_PSS_SHA256, ED25519], hello_alpn = None\<rparr>"

definition demo_server_builder :: ServerConfigBuilder where
  "demo_server_builder = \<lparr>scb_base = WantsVerifier 0, scb_verifier = NoClientAuth, scb_cert_resolver = None,
     scb_session_storage = None, scb_alpn_protocols = [[104, 50]], scb_ignore_client_order = Some True\<rparr>"

definition demo_server_config :: "WantsVerifier \<Rightarrow> ClientCertVerifier \<Rightarrow> ResolvesServerCert \<Rightarrow> ServerConfig" where
  "demo_server_config b v r = \<lparr>sc_base = b, sc_verifier = v, sc_cert_resolver = r, sc_session_storage = RustlsStorage 0,
     sc_alpn_protocols = [], sc_ignore_client_order = False\<rparr>"

definition demo_server_world :: world where
  "demo_server_world = empty_world\<lparr>next_addr := 10,
     USERDATA := \<lparr>destroyed = False, borrowed = False, stack = [\<lparr>ud_userdata = Ptr 9, ud_log_callback = None\<rparr>]\<rparr>,
     h_server_builder := [4 \<mapsto> demo_server_builder],
     h_certified_key := [2 \<mapsto> \<lparr>strong = 1, arc_data = demo_key [] 1\<rparr>],
     h_signing_key := [1 \<mapsto> \<lparr>strong = 1, arc_data = SigningKey 3\<rparr>],
     h_connection := [3 \<mapsto> from_server (ServerConnection 0)],
     m_key_ptr := [5 \<mapsto> Null], m_u8 := [20 \<mapsto> 0, 21 \<mapsto> 0], m_usize := [7 \<mapsto> 1]\<rparr>"

section \<open>Lemmas\<close>

lemma demo_server_world_simps [simp]:
  "h_server_builder demo_server_world = [4 \<mapsto> demo_server_builder]"
  "h_certified_key demo_server_world = [2 \<mapsto> \<lparr>strong = 1, arc_data = demo_key [] 1\<rparr>]"
  "h_signing_key demo_server_world = [1 \<mapsto> \<lparr>strong = 1, arc_data = SigningKey 3\<rparr>]"
  "h_connection demo_server_world = [3 \<mapsto> from_server (ServerConnection 0)]"
  "m_key_ptr demo_server_world = [5 \<mapsto> Null]" "m_u8 demo_server_world = [20 \<mapsto> 0, 21 \<mapsto> 0]"
  "m_usize demo_server_world = [7 \<mapsto> 1]"
  "next_addr demo_server_world = 10" "userdata_get (USERDATA demo_server_world) = Inr (Ptr 9)"
  "scb_cert_resolver demo_server_builder = None"
  by (simp_all add: demo_server_world_def demo_server_builder_def userdata_get_def)

lemma demo_get_u16_numbers: "scheme_numbers demo_get_u16"
  by (simp add: scheme_numbers_def)

lemma sigscheme_inverse: "\<lbrakk>scheme_numbers get_u16; parsed_scheme s\<rbrakk> \<Longrightarrow> sigscheme (get_u16 s) = s"
  by (cases s) (simp_all add: scheme_numbers_def parsed_scheme_def, simp_all add: sigscheme_def)

lemma sigschemes_inverse:
  "\<lbrakk>scheme_numbers get_u16; \<forall>s \<in> set ss. parsed_scheme s\<rbrakk> \<Longrightarrow> sigschemes (map get_u16 ss) = ss"
  by (auto simp: sigschemes_def sigscheme_inverse intro: map_idI)

lemma to_arc_compatible:
  "key_compatible choose_scheme schemes w k = Some True \<Longrightarrow>
     to_arc certified_key_heap (Ptr k) w = Returned (Some k) (bump_keys [k] w)"
  by (auto simp: key_compatible_def to_arc_bump split: option.splits)

lemma demo_hello_facts:
  "\<forall>s \<in> set (hello_signature_schemes demo_hello). parsed_scheme s"
  "length (hello_signature_schemes demo_hello) < 2 ^ 63"
  "\<exists>v. client_hello_view demo_get_u16 demo_hello = Some v"
  "key_compatible demo_choose (hello_signature_schemes demo_hello) demo_server_world 2 = Some True"
  by (simp_all add: demo_hello_def parsed_scheme_def client_hello_view_def rustls_str_try_from_unchecked
      key_compatible_def demo_key_def demo_choose_def)

text \<open>A hello that rustls made, read back by the selection.\<close>

lemma hello_schemes_read:
  assumes "scheme_numbers get_u16" and "\<forall>s \<in> set (hello_signature_schemes hello). parsed_scheme s"
    and "client_hello_view get_u16 hello = Some v" and "length (hello_signature_schemes hello) < 2 ^ 63"
  shows "rustls_client_hello_select_certified_key choose_scheme (Some v) keys n (Ptr out) w =
    ffi_panic_boundary rr_ret (try_slice key_ptr_mem rr_ret keys n
      (select_key_loop choose_scheme (hello_signature_schemes hello) (Ptr out))) w"
proof -
  have "ch_signature_schemes v = rustls_slice_u16_from (map get_u16 (hello_signature_schemes hello))"
    using assms(3) by (auto simp: client_hello_view_def Let_def split: sum.splits)
  moreover have "unat (of_nat (length (hello_signature_schemes hello)) :: usize) = length (hello_signature_schemes hello)"
    using assms(4) by (simp add: unat_of_nat take_bit_nat_eq_self)
  ultimately show ?thesis
    using sigschemes_inverse [OF assms(1,2)]
    by (simp add: rustls_client_hello_select_certified_key_def ffi_panic_boundary_def rustls_slice_u16_from_def)
qed

lemma select_first_compatible:
  assumes "scheme_numbers get_u16" and "\<forall>s \<in> set (hello_signature_schemes hello). parsed_scheme s"
    and "client_hello_view get_u16 hello = Some v" and "length (hello_signature_schemes hello) < 2 ^ 63"
    and "from_raw_parts key_ptr_mem w keys n = Some (map Ptr ks)" and "m_key_ptr w out \<noteq> None"
    and "\<forall>k \<in> set ks. key_compatible choose_scheme (hello_signature_schemes hello) w k \<noteq> None"
  shows "case find (\<lambda>k. key_compatible choose_scheme (hello_signature_schemes hello) w k = Some True) ks of
       Some k \<Rightarrow>
         ResolvesServerCertFromChoices_resolve choose_scheme ks hello w = Returned (Some k) (bump_keys [k] w)
         \<and> rustls_client_hello_select_certified_key choose_scheme (Some v) keys n (Ptr out) w =
             Returned Ok (w\<lparr>m_key_ptr := (m_key_ptr w)(out \<mapsto> Ptr k)\<rparr>)
     | None \<Rightarrow>
         ResolvesServerCertFromChoices_resolve choose_scheme ks hello w = Returned None w
         \<and> rustls_client_hello_select_certified_key choose_scheme (Some v) keys n (Ptr out) w = Returned NotFound w"
proof -
  have "keys \<noteq> SNull" using assms(5) by auto
  then have select: "rustls_client_hello_select_certified_key choose_scheme (Some v) keys n (Ptr out) w =
     ffi_panic_boundary rr_ret (select_key_loop choose_scheme (hello_signature_schemes hello) (Ptr out) (map Ptr ks)) w"
    using assms(5) hello_schemes_read [OF assms(1-4)] by (simp add: ffi_panic_boundary_def)
  have resolve: "ResolvesServerCertFromChoices_resolve choose_scheme ks hello w =
     server_resolve choose_scheme (hello_signature_schemes hello) ks w"
    by (simp add: ResolvesServerCertFromChoices_resolve_def)
  note first = server_choices.select_first [OF assms(7)] hello_selection.select_first [OF assms(7), of "Ptr out"]
  show ?thesis
  proof (cases "find (\<lambda>k. key_compatible choose_scheme (hello_signature_schemes hello) w k = Some True) ks")
    case None
    then show ?thesis by (simp add: select resolve ffi_panic_boundary_def first)
  next
    case (Some k)
    then have "key_compatible choose_scheme (hello_signature_schemes hello) w k = Some True"
      by (auto simp: find_Some_iff)
    moreover obtain old where "m_key_ptr w out = Some old" using assms(6) by blast
    ultimately show ?thesis
      using Some by (simp add: select resolve ffi_panic_boundary_def first to_arc_compatible write_cell_def)
  qed
qed

lemma hello_resolver_run:
  assumes "client_hello_view get_u16 hello = Some v" and "userdata_get (USERDATA w) = Inr u"
    and "call cb u v w = Returned (Ptr k) w1" and "h_certified_key w1 k = Some i"
    and "h_signing_key w1 (ck_key (arc_data i)) = Some sk"
  shows "ClientHelloResolver_resolve get_u16 call cb hello w = Returned (Some (next_addr w1))
    (w1\<lparr>next_addr := Suc (next_addr w1),
        h_signing_key := (h_signing_key w1)(ck_key (arc_data i) \<mapsto> sk\<lparr>strong := strong sk + 1\<rparr>),
        h_certified_key := (h_certified_key w1)(next_addr w1 \<mapsto> \<lparr>strong = 1, arc_data = arc_data i\<rparr>)\<rparr>)"
  using assms
  by (simp add: ClientHelloResolver_resolve_def to_arc_def to_const_ptr_def Let_def)

text \<open>The resolver gives up without calling the callback, or when the callback has no key.\<close>

lemma hello_resolver_none:
  "client_hello_view get_u16 hello = None \<Longrightarrow> ClientHelloResolver_resolve get_u16 call cb hello w = Returned None w"
  "userdata_get (USERDATA w) = Inl e \<Longrightarrow> ClientHelloResolver_resolve get_u16 call cb hello w = Returned None w"
  "\<lbrakk>client_hello_view get_u16 hello = Some v; userdata_get (USERDATA w) = Inr u; call cb u v w = Returned Null w1\<rbrakk> \<Longrightarrow>
     ClientHelloResolver_resolve get_u16 call cb hello w = Returned None w1"
  by (simp_all add: ClientHelloResolver_resolve_def split: option.splits)

lemma bump_keys_server_builder [simp]:
  "bump_keys ks (w\<lparr>h_server_builder := h\<rparr>) = (bump_keys ks w)\<lparr>h_server_builder := h\<rparr>"
  "h_server_builder (bump_keys ks w) = h_server_builder w"
  by (simp_all add: bump_keys_def)

lemma live_keys_server_builder [simp]: "live_keys ps (w\<lparr>h_server_builder := h\<rparr>) = live_keys ps w"
  by (simp add: live_keys_def)

text \<open>The vector is cloned into the resolver and then dropped: one reference each remains.\<close>

lemma set_certified_keys_first:
  assumes "h_server_builder w b = Some cfg" and "from_raw_parts key_ptr_mem w ptrs n = Some (map Ptr ks)"
    and "scb_cert_resolver cfg = None" and "live_keys (map Ptr ks) w"
  shows "rustls_server_config_builder_set_certified_keys (Ptr b) ptrs n w = Returned Ok (server_with_keys b cfg ks w)"
proof -
  let ?w = "w\<lparr>h_server_builder := (h_server_builder w)
        (b \<mapsto> cfg\<lparr>scb_cert_resolver := Some (ResolvesServerCertFromChoices ks)\<rparr>)\<rparr>"
  have "ptrs \<noteq> SNull" using assms(2) by auto
  moreover have "clone_keys ks (bump_keys ks w) = Returned () (bump_keys (ks @ ks) w)"
    using clone_keys_bump [OF live_keys_bump [OF assms(4)], of ks] by (simp add: bump_keys_append)
  moreover have "release_keys ks ((bump_keys (ks @ ks) w)\<lparr>h_server_builder := (h_server_builder w)
        (b \<mapsto> cfg\<lparr>scb_cert_resolver := Some (ResolvesServerCertFromChoices ks)\<rparr>)\<rparr>) = Returned () (server_with_keys b cfg ks w)"
    using release_keys_bumped [of ks ?w ks] assms(4) by (simp add: server_with_keys_def)
  ultimately show ?thesis
    using assms
    by (simp add: rustls_server_config_builder_set_certified_keys_def ffi_panic_boundary_def collect_keys_all
        ResolvesServerCertFromChoices_new_def drop_server_resolver_def)
qed

lemma set_certified_keys_null:
  assumes "h_server_builder w b = Some cfg" and "from_raw_parts key_ptr_mem w ptrs n = Some ps"
    and "live_keys ps w" and "Null \<in> set ps"
  shows "rustls_server_config_builder_set_certified_keys (Ptr b) ptrs n w = Returned NullParameter w"
proof -
  have "ptrs \<noteq> SNull" using assms(2) by auto
  then show ?thesis
    using assms collect_keys_null [of "[]" ps w]
    by (simp add: rustls_server_config_builder_set_certified_keys_def ffi_panic_boundary_def)
qed

section \<open>Properties\<close>

text \<open>
  C10. Selecting a key by hand and letting the library do it agree. For a client hello that rustls passed to the
  callback, \<open>rustls_client_hello_select_certified_key\<close> picks from an array the key that a resolver configured with
  the same keys picks: the first one that is compatible with the client's signature schemes, which survive the
  translation to numbers and back. It reports \<open>NotFound\<close> exactly when the resolver finds none.
\<close>

theorem select_agrees_with_resolver:
  assumes "scheme_numbers get_u16" and "\<forall>s \<in> set (hello_signature_schemes hello). parsed_scheme s"
    and "client_hello_view get_u16 hello = Some v" and "length (hello_signature_schemes hello) < 2 ^ 63"
    and "from_raw_parts key_ptr_mem w keys n = Some (map Ptr ks)" and "m_key_ptr w out \<noteq> None"
    and "\<forall>k \<in> set ks. key_compatible choose_scheme (hello_signature_schemes hello) w k \<noteq> None"
  shows "case find (\<lambda>k. key_compatible choose_scheme (hello_signature_schemes hello) w k = Some True) ks of
       Some k \<Rightarrow>
         ResolvesServerCertFromChoices_resolve choose_scheme ks hello w = Returned (Some k) (bump_keys [k] w)
         \<and> rustls_client_hello_select_certified_key choose_scheme (Some v) keys n (Ptr out) w =
             Returned Ok (w\<lparr>m_key_ptr := (m_key_ptr w)(out \<mapsto> Ptr k)\<rparr>)
     | None \<Rightarrow>
         ResolvesServerCertFromChoices_resolve choose_scheme ks hello w = Returned None w
         \<and> rustls_client_hello_select_certified_key choose_scheme (Some v) keys n (Ptr out) w = Returned NotFound w"
  by (rule select_first_compatible [OF assms])

theorem select_agrees_with_resolver_witness:
  "\<exists>v. client_hello_view demo_get_u16 demo_hello = Some v
     \<and> ResolvesServerCertFromChoices_resolve demo_choose [2] demo_hello demo_server_world =
         Returned (Some 2) (bump_keys [2] demo_server_world)
     \<and> rustls_client_hello_select_certified_key demo_choose (Some v) (SBorrow [Ptr 2]) 1 (Ptr 5) demo_server_world =
         Returned Ok (demo_server_world\<lparr>m_key_ptr := [5 \<mapsto> Ptr 2]\<rparr>)"
proof -
  obtain v where v: "client_hello_view demo_get_u16 demo_hello = Some v" using demo_hello_facts(3) ..
  have *: "from_raw_parts key_ptr_mem demo_server_world (SBorrow [Ptr 2]) 1 = Some (map Ptr [2])"
    "m_key_ptr demo_server_world 5 \<noteq> None"
    "\<forall>k \<in> set [2]. key_compatible demo_choose (hello_signature_schemes demo_hello) demo_server_world k \<noteq> None"
    by (simp_all add: demo_hello_facts)
  from select_agrees_with_resolver [OF demo_get_u16_numbers demo_hello_facts(1) v demo_hello_facts(2) *]
  show ?thesis using v by (simp add: demo_hello_facts)
qed

text \<open>
  C11. End to end: a server with a client hello callback that selects from an array of keys resolves to a
  certified key with the same contents as the server configured with these keys directly, as an \<open>Arc\<close> of its own with
  one reference; when the latter has no key, so does the former, and nothing changes.
\<close>

theorem hello_callback_equivalent:
  assumes "scheme_numbers get_u16" and "\<forall>s \<in> set (hello_signature_schemes hello). parsed_scheme s"
    and "client_hello_view get_u16 hello = Some v" and "length (hello_signature_schemes hello) < 2 ^ 63"
    and "from_raw_parts key_ptr_mem w keys n = Some (map Ptr ks)" and "m_key_ptr w out \<noteq> None"
    and "\<forall>k \<in> set ks. key_compatible choose_scheme (hello_signature_schemes hello) w k \<noteq> None"
    and "userdata_get (USERDATA w) = Inr u"
  shows "case ResolvesServerCertFromChoices_resolve choose_scheme ks hello w of
      Returned (Some k) _ \<Rightarrow>
        \<exists>w' i. ClientHelloResolver_resolve get_u16 (selecting_callback choose_scheme keys n out) cb hello w =
            Returned (Some (next_addr w)) w'
          \<and> h_certified_key w k = Some i
          \<and> h_certified_key w' = (h_certified_key w)(next_addr w \<mapsto> \<lparr>strong = 1, arc_data = arc_data i\<rparr>)
    | Returned None _ \<Rightarrow>
        ClientHelloResolver_resolve get_u16 (selecting_callback choose_scheme keys n out) cb hello w = Returned None w
    | _ \<Rightarrow> False"
proof (cases "find (\<lambda>k. key_compatible choose_scheme (hello_signature_schemes hello) w k = Some True) ks")
  case None
  note agree = select_first_compatible [OF assms(1-7), unfolded None option.simps]
  then have "selecting_callback choose_scheme keys n out cb u v w = Returned Null w"
    by (simp add: selecting_callback_def)
  from hello_resolver_none(3) [where call = "selecting_callback choose_scheme keys n out", OF assms(3,8) this] agree show ?thesis by simp
next
  case (Some k)
  note agree = select_first_compatible [OF assms(1-7), unfolded Some option.simps]
  let ?w1 = "w\<lparr>m_key_ptr := (m_key_ptr w)(out \<mapsto> Ptr k)\<rparr>"
  have run: "selecting_callback choose_scheme keys n out cb u v w = Returned (Ptr k) ?w1"
    using agree by (simp add: selecting_callback_def)
  obtain i sk where "h_certified_key w k = Some i" "h_signing_key w (ck_key (arc_data i)) = Some sk"
    using Some by (auto simp: find_Some_iff key_compatible_def split: option.splits)
  then show ?thesis
    using agree hello_resolver_run [where call = "selecting_callback choose_scheme keys n out", OF assms(3,8) run, of i sk]
    by simp
qed

theorem hello_callback_equivalent_witness:
  "\<exists>w'. ClientHelloResolver_resolve demo_get_u16 (selecting_callback demo_choose (SBorrow [Ptr 2]) 1 5) 1 demo_hello
     demo_server_world = Returned (Some 10) w'"
proof -
  obtain v where v: "client_hello_view demo_get_u16 demo_hello = Some v" using demo_hello_facts(3) ..
  have *: "from_raw_parts key_ptr_mem demo_server_world (SBorrow [Ptr 2]) 1 = Some (map Ptr [2])"
    "m_key_ptr demo_server_world 5 \<noteq> None"
    "\<forall>k \<in> set [2]. key_compatible demo_choose (hello_signature_schemes demo_hello) demo_server_world k \<noteq> None"
    "userdata_get (USERDATA demo_server_world) = Inr (Ptr 9)"
    by (simp_all add: demo_hello_facts)
  have "ResolvesServerCertFromChoices_resolve demo_choose [2] demo_hello demo_server_world =
      Returned (Some 2) (bump_keys [2] demo_server_world)"
    using server_choices.select_found [OF demo_hello_facts(4), of "[]"] to_arc_compatible [OF demo_hello_facts(4)]
    by (simp add: ResolvesServerCertFromChoices_resolve_def)
  with hello_callback_equivalent [OF demo_get_u16_numbers demo_hello_facts(1) v demo_hello_facts(2) *, of 1]
  show ?thesis by auto
qed



text \<open>
  \<open>rustls_server_config_builder_build\<close> consumes the builder in every case. Without a certificate resolver it
  returns null and drops what the builder held; otherwise the configuration has the builder's client verifier,
  resolver and ALPN protocols, and its session storage and cipher order setting where they were set.
\<close>

theorem server_build_exact:
  assumes "h_server_builder w b = Some cfg"
    and "\<And>base v r. sc_verifier (with_cert_resolver base v r) = v"
    and "\<And>base v r. sc_cert_resolver (with_cert_resolver base v r) = r"
  shows "case scb_cert_resolver cfg of
      None \<Rightarrow> rustls_server_config_builder_build with_cert_resolver (Ptr b) w =
        ffi_panic_boundary const_ptr_ret (\<lambda>w. and_then (drop_client_cert_verifier (scb_verifier cfg) w) (\<lambda>_ w. Returned Null w))
          (w\<lparr>h_server_builder := (h_server_builder w)(b := None)\<rparr>)
    | Some r \<Rightarrow> \<exists>c. rustls_server_config_builder_build with_cert_resolver (Ptr b) w =
        Returned (Ptr (next_addr w)) (w\<lparr>h_server_builder := (h_server_builder w)(b := None),
          next_addr := Suc (next_addr w),
          h_server_config := (h_server_config w)(next_addr w \<mapsto> \<lparr>strong = 1, arc_data = c\<rparr>)\<rparr>)
      \<and> sc_verifier c = scb_verifier cfg \<and> sc_cert_resolver c = r \<and> sc_alpn_protocols c = scb_alpn_protocols cfg
      \<and> (\<forall>s. scb_session_storage cfg = Some s \<longrightarrow> sc_session_storage c = s)
      \<and> (\<forall>i. scb_ignore_client_order cfg = Some i \<longrightarrow> sc_ignore_client_order c = i)"
  using assms
  by (auto simp: rustls_server_config_builder_build_def ffi_panic_boundary_def try_box_from_ptr_def to_box_def
      drop_server_builder_def drop_server_resolver_def to_const_ptr_def Let_def and_then_assoc
      split: option.splits)

theorem server_build_exact_witness:
  "rustls_server_config_builder_build demo_server_config (Ptr 4) demo_server_world =
     Returned Null (demo_server_world\<lparr>h_server_builder := Map.empty\<rparr>)"
proof -
  have "h_server_builder demo_server_world 4 = Some demo_server_builder" by simp
  from server_build_exact [where with_cert_resolver = demo_server_config, OF this]
  show ?thesis
    by (simp add: demo_server_config_def ffi_panic_boundary_def drop_client_cert_verifier_def demo_server_builder_def)
qed



end
