(* ===== verification/Ffi_Reentrancy.thy ===== *)
theory Ffi_Reentrancy
  imports Ffi_Client Ffi_Server
begin

text \<open>
  The thread-local stack under calls back into the library.

  While a connection is processed, rustls calls callbacks of the C program, and these may call the
  library again, on other connections too. The theory shows that no entry point but
  \<open>rustls_connection_process_new_packets\<close> touches the stack, and that this one restores it at any depth
  of nesting, so that a callback always sees the userdata of the innermost connection.
\<close>

section \<open>Computations that keep the stack\<close>

definition keeps :: "world \<Rightarrow> ('a, world) outcome \<Rightarrow> bool" where
  "keeps w r = leaves (\<lambda>w'. USERDATA w' = USERDATA w) r"

definition balanced :: "(world, 'a) comp \<Rightarrow> bool" where
  "balanced f = (\<forall>w. keeps w (f w))"

lemma keeps_simps [simp]:
  "keeps w (Returned a w') \<longleftrightarrow> USERDATA w' = USERDATA w"
  "keeps w (Unwound w') \<longleftrightarrow> USERDATA w' = USERDATA w"
  "keeps w Undefined"
  by (simp_all add: keeps_def)

lemma balancedD: "balanced f \<Longrightarrow> USERDATA w1 = USERDATA w \<Longrightarrow> keeps w (f w1)"
  by (auto simp: balanced_def keeps_def dest: spec [of _ w1])

lemma keeps_and_then [balanced_intros]:
  "\<lbrakk>keeps w r; \<And>a w'. USERDATA w' = USERDATA w \<Longrightarrow> keeps w (k a w')\<rbrakk> \<Longrightarrow> keeps w (and_then r k)"
  by (cases r) simp_all

lemma keeps_boundary [balanced_intros]: "keeps w (f w1) \<Longrightarrow> keeps w (ffi_panic_boundary d f w1)"
  by (simp add: ffi_panic_boundary_def split: outcome.splits) (auto simp: keeps_def)

lemma keeps_try_ref [balanced_intros]:
  "(\<And>v. keeps w (k v w1)) \<Longrightarrow> USERDATA w1 = USERDATA w \<Longrightarrow> keeps w (try_ref_from_ptr L d p k w1)"
  by (simp add: try_ref_from_ptr_cases split: ptr.splits option.splits)

lemma keeps_try_ref_arc [balanced_intros]:
  "(\<And>v. keeps w (k v w1)) \<Longrightarrow> USERDATA w1 = USERDATA w \<Longrightarrow> keeps w (try_ref_from_arc_ptr L d p k w1)"
  by (simp add: try_ref_from_arc_ptr_def split: ptr.splits option.splits)

lemma keeps_try_mut [balanced_intros]:
  "(\<And>a v. keeps w (k a v w1)) \<Longrightarrow> USERDATA w1 = USERDATA w \<Longrightarrow> keeps w (try_mut_from_ptr L d p k w1)"
  by (simp add: try_mut_from_ptr_cases split: ptr.splits option.splits)

lemma keeps_try_slice [balanced_intros]:
  "(\<And>xs. keeps w (k xs w1)) \<Longrightarrow> USERDATA w1 = USERDATA w \<Longrightarrow> keeps w (try_slice L d p n k w1)"
  by (simp add: try_slice_def split: option.splits)

lemma keeps_try_callback [balanced_intros]:
  "(\<And>c. keeps w (k c w1)) \<Longrightarrow> USERDATA w1 = USERDATA w \<Longrightarrow> keeps w (try_callback d cb k w1)"
  by (simp add: try_callback_def split: option.splits)

lemma keeps_try_view [balanced_intros]:
  "(\<And>v. keeps w (k v w1)) \<Longrightarrow> USERDATA w1 = USERDATA w \<Longrightarrow> keeps w (try_ref_from_view d p k w1)"
  by (simp add: try_ref_from_view_def split: option.splits)

subsection \<open>Ownership operations\<close>

context cast_ptr
begin

lemma userdata_hput: "USERDATA (hput L a v w) = USERDATA w"
  by (simp add: hput_def userdata_upd)

lemma userdata_hdel: "USERDATA (hdel L a w) = USERDATA w"
  by (simp add: hdel_def userdata_upd)

lemma keeps_to_mut_ptr: "USERDATA w1 = USERDATA w \<Longrightarrow> keeps w (to_mut_ptr L v w1)"
  by (simp add: to_mut_ptr_def Let_def userdata_hput)

lemma keeps_to_box: "USERDATA w1 = USERDATA w \<Longrightarrow> keeps w (to_box L p w1)"
  by (simp add: to_box_def userdata_hdel split: ptr.splits option.splits)

lemma keeps_try_box:
  "\<lbrakk>USERDATA w1 = USERDATA w; \<And>v w'. USERDATA w' = USERDATA w \<Longrightarrow> keeps w (k v w')\<rbrakk> \<Longrightarrow>
     keeps w (try_box_from_ptr L d p k w1)"
  by (auto simp: try_box_from_ptr_def intro!: keeps_and_then keeps_to_box split: option.splits)

end

context arc_cast
begin

lemma keeps_to_arc: "USERDATA w1 = USERDATA w \<Longrightarrow> keeps w (to_arc L p w1)"
  by (simp add: to_arc_def userdata_hput split: ptr.splits option.splits)

lemma keeps_to_const_ptr: "USERDATA w1 = USERDATA w \<Longrightarrow> keeps w (to_const_ptr L v w1)"
  by (simp add: to_const_ptr_def Let_def userdata_hput)

lemma keeps_arc_drop: "USERDATA w1 = USERDATA w \<Longrightarrow> keeps w (arc_drop L a w1)"
  by (simp add: arc_drop_def userdata_hput userdata_hdel split: option.splits)

lemma keeps_try_arc:
  "\<lbrakk>USERDATA w1 = USERDATA w; \<And>a w'. USERDATA w' = USERDATA w \<Longrightarrow> keeps w (k a w')\<rbrakk> \<Longrightarrow>
     keeps w (try_arc_from_ptr L d p k w1)"
  by (auto simp: try_arc_from_ptr_def intro!: keeps_and_then keeps_to_arc split: option.splits)

end

lemmas keeps_ownership [balanced_intros] =
  connection_box.keeps_to_mut_ptr client_builder_box.keeps_to_mut_ptr server_builder_box.keeps_to_mut_ptr
  root_store_box.keeps_to_mut_ptr client_builder_box.keeps_to_box server_builder_box.keeps_to_box
  client_builder_box.keeps_try_box server_builder_box.keeps_try_box root_store_box.keeps_try_box
  client_config_arc.keeps_to_const_ptr server_config_arc.keeps_to_const_ptr certified_key_arc.keeps_to_const_ptr
  signing_key_arc.keeps_to_const_ptr client_verifier_arc.keeps_to_const_ptr
  client_verifier_optional_arc.keeps_to_const_ptr
  certified_key_arc.keeps_to_arc signing_key_arc.keeps_to_arc client_config_arc.keeps_try_arc
  server_config_arc.keeps_try_arc client_verifier_arc.keeps_try_arc client_verifier_optional_arc.keeps_try_arc
  client_config_arc.keeps_arc_drop server_config_arc.keeps_arc_drop certified_key_arc.keeps_arc_drop
  signing_key_arc.keeps_arc_drop client_verifier_arc.keeps_arc_drop client_verifier_optional_arc.keeps_arc_drop

lemma keeps_write_cell [balanced_intros]:
  "USERDATA w1 = USERDATA w \<Longrightarrow> keeps w (write_cell u8_ptr_mem p a w1)"
  "USERDATA w1 = USERDATA w \<Longrightarrow> keeps w (write_cell usize_mem q b w1)"
  "USERDATA w1 = USERDATA w \<Longrightarrow> keeps w (write_cell key_ptr_mem r c w1)"
  "USERDATA w1 = USERDATA w \<Longrightarrow> keeps w (write_cell conn_ptr_mem s d w1)"
  "USERDATA w1 = USERDATA w \<Longrightarrow> keeps w (write_cell client_builder_ptr_mem t e w1)"
  "USERDATA w1 = USERDATA w \<Longrightarrow> keeps w (write_cell server_builder_ptr_mem u f w1)"
  by (simp_all add: write_cell_def split: ptr.splits option.splits)

lemma keeps_copy_to [balanced_intros]: "USERDATA w1 = USERDATA w \<Longrightarrow> keeps w (copy_to u8_mem p xs w1)"
  by (simp add: copy_to_def split: ptr.splits option.splits)

lemma keeps_release_certified_key [balanced_intros]:
  "USERDATA w1 = USERDATA w \<Longrightarrow> keeps w (release_certified_key a w1)"
  "USERDATA w1 = USERDATA w \<Longrightarrow> keeps w (drop_certified_key ck w1)"
  by (auto simp: release_certified_key_def drop_certified_key_def intro!: balanced_intros split: option.splits)

lemma keeps_release_keys [balanced_intros]: "USERDATA w1 = USERDATA w \<Longrightarrow> keeps w (release_keys ks w1)"
  by (induction ks arbitrary: w1) (auto intro!: balanced_intros)

lemma keeps_clone_keys [balanced_intros]: "USERDATA w1 = USERDATA w \<Longrightarrow> keeps w (clone_keys ks w1)"
  by (induction ks arbitrary: w1) (auto intro!: balanced_intros)

lemma keeps_collect_keys [balanced_intros]: "USERDATA w1 = USERDATA w \<Longrightarrow> keeps w (collect_keys ps ks w1)"
  by (induction ps arbitrary: ks w1) (auto intro!: balanced_intros split: option.splits)

lemma keeps_collect_alpn [balanced_intros]: "USERDATA w1 = USERDATA w \<Longrightarrow> keeps w (collect_alpn ps vv w1)"
  by (induction ps arbitrary: vv) (auto split: option.splits)

lemma keeps_select_key_loop [balanced_intros]:
  "USERDATA w1 = USERDATA w \<Longrightarrow> keeps w (select_key_loop choose_scheme schemes out_key ps w1)"
  by (induction choose_scheme schemes out_key ps w1 rule: select_key_loop.induct)
    (auto intro!: balanced_intros split: option.splits)

lemma keeps_drop_glue [balanced_intros]:
  "USERDATA w1 = USERDATA w \<Longrightarrow> keeps w (drop_client_resolver r w1)"
  "USERDATA w1 = USERDATA w \<Longrightarrow> keeps w (drop_client_cert_verifier v w1)"
  "USERDATA w1 = USERDATA w \<Longrightarrow> keeps w (drop_server_resolver s w1)"
  by (auto simp: drop_client_resolver_def drop_client_cert_verifier_def drop_server_resolver_def intro!: balanced_intros
      split: option.splits ResolvesClientCert.splits ResolvesServerCert.splits ClientCertVerifier.splits)

lemma keeps_config_glue [balanced_intros]:
  "USERDATA w1 = USERDATA w \<Longrightarrow> keeps w (release_client_config a w1)"
  "USERDATA w1 = USERDATA w \<Longrightarrow> keeps w (drop_server_builder b w1)"
  "USERDATA w1 = USERDATA w \<Longrightarrow> keeps w (drop_server_config c w1)"
  by (auto simp: release_client_config_def drop_server_builder_def drop_server_config_def intro!: balanced_intros
      split: option.splits)

lemma keeps_release_server_config [balanced_intros]:
  "USERDATA w1 = USERDATA w \<Longrightarrow> keeps w (release_server_config a w1)"
  by (auto simp: release_server_config_def intro!: balanced_intros split: option.splits)

lemma keeps_set_mut_ptr [balanced_intros]:
  "USERDATA w1 = USERDATA w \<Longrightarrow> keeps w (set_mut_ptr connection_heap conn_ptr_mem p c w1)"
  "USERDATA w1 = USERDATA w \<Longrightarrow> keeps w (set_mut_ptr client_builder_heap client_builder_ptr_mem q d w1)"
  "USERDATA w1 = USERDATA w \<Longrightarrow> keeps w (set_mut_ptr server_builder_heap server_builder_ptr_mem r e w1)"
  by (auto simp: set_mut_ptr_def intro!: balanced_intros)

text \<open>A method of rustls keeps the stack when its own effects and those of the callbacks it runs do.\<close>

definition method_balanced :: "'r inner_method \<Rightarrow> bool" where
  "method_balanced f = (\<forall>i w. leaves (\<lambda>(i', w'). USERDATA w' = USERDATA w) (f (i, w)))"

lemma keeps_call_inner [balanced_intros]:
  assumes "method_balanced f" and "USERDATA w1 = USERDATA w"
  shows "keeps w (call_inner a f w1)"
proof (cases "h_connection w1 a")
  case (Some c)
  have "leaves (\<lambda>(i', w'). USERDATA w' = USERDATA w) (f (conn_inner c, hdel connection_heap a w1))"
    using assms(1) [unfolded method_balanced_def, rule_format, of "hdel connection_heap a w1" "conn_inner c"] assms(2)
    by simp
  then show ?thesis
    using Some by (cases "f (conn_inner c, hdel connection_heap a w1)") (auto simp: call_inner_def)
qed (simp add: call_inner_def)

section \<open>The entry points\<close>

lemmas entry_point_defs [ffi_defs] =
  rustls_certificate_get_der_def rustls_supported_ciphersuite_get_suite_def
  rustls_supported_ciphersuite_get_name_def rustls_certified_key_build_def
  rustls_certified_key_get_certificate_def rustls_certified_key_clone_with_ocsp_def
  rustls_certified_key_free_def rustls_root_cert_store_new_def rustls_root_cert_store_add_pem_def
  rustls_root_cert_store_free_def rustls_client_cert_verifier_new_def rustls_client_cert_verifier_free_def
  rustls_client_cert_verifier_optional_new_def rustls_client_cert_verifier_optional_free_def
  rustls_connection_set_userdata_def rustls_connection_wants_read_def rustls_connection_wants_write_def
  rustls_connection_is_handshaking_def rustls_connection_get_peer_certificate_def
  rustls_connection_get_alpn_protocol_def rustls_connection_get_protocol_version_def
  rustls_connection_get_negotiated_ciphersuite_def rustls_client_config_builder_new_def
  rustls_client_config_builder_new_custom_def
  rustls_client_config_builder_dangerous_set_certificate_verifier_def
  rustls_client_config_builder_use_roots_def rustls_client_config_builder_load_roots_from_file_def
  rustls_client_config_builder_set_alpn_protocols_def rustls_client_config_builder_set_enable_sni_def
  rustls_client_config_builder_set_certified_key_def rustls_client_config_builder_build_def
  rustls_client_config_builder_free_def rustls_client_config_free_def rustls_server_config_builder_new_def
  rustls_server_config_builder_new_custom_def rustls_server_config_builder_set_client_verifier_def
  rustls_server_config_builder_set_client_verifier_optional_def rustls_server_config_builder_free_def
  rustls_server_config_builder_set_ignore_client_order_def
  rustls_server_config_builder_set_alpn_protocols_def rustls_server_config_builder_set_certified_keys_def
  rustls_server_config_builder_set_hello_callback_def rustls_server_config_builder_set_persistence_def
  rustls_server_config_builder_build_def rustls_server_config_free_def
  rustls_server_connection_get_sni_hostname_def rustls_client_hello_select_certified_key_def

lemmas method_entry_defs [ffi_defs] =
  rustls_connection_read_tls_def rustls_connection_write_tls_def rustls_connection_write_tls_vectored_def
  rustls_connection_process_new_packets_def rustls_connection_set_buffer_limit_def
  rustls_connection_send_close_notify_def rustls_connection_write_def rustls_connection_read_def
  rustls_connection_read_2_def rustls_connection_free_def rustls_client_connection_new_def
  rustls_server_connection_new_def

text \<open>The entry points that call a method of rustls keep the stack when the method does.\<close>

lemma method_entries_keep_stack:
  "method_balanced (read_tls (CallbackReader_read rcall \<lparr>rd_callback = cb, rd_userdata = u\<rparr>)) \<Longrightarrow>
     balanced (rustls_connection_read_tls read_tls rcall conn (Some cb) u out_len)"
  "method_balanced (write_tls (CallbackWriter_dyn wcall \<lparr>wr_callback = cb, wr_userdata = u\<rparr>)) \<Longrightarrow>
     balanced (rustls_connection_write_tls write_tls wcall conn (Some cb) u out_len)"
  "method_balanced (write_tls (VectoredCallbackWriter_dyn vcall \<lparr>vw_callback = cb, vw_userdata = u\<rparr>)) \<Longrightarrow>
     balanced (rustls_connection_write_tls_vectored write_tls vcall conn (Some cb) u out_len)"
  "method_balanced (limit (Some n)) \<Longrightarrow> balanced (rustls_connection_set_buffer_limit limit conn n)"
  "method_balanced notify \<Longrightarrow> balanced (rustls_connection_send_close_notify notify conn)"
  "(\<And>bs. method_balanced (ww bs)) \<Longrightarrow> balanced (rustls_connection_write ww conn buf_p n out_len)"
  unfolding balanced_def method_entry_defs
  by (auto intro!: balanced_intros simp: Let_def split: option.splits sum.splits)

section \<open>Calls back into the library\<close>

text \<open>
  What the code that rustls calls may do to the state, as runs from one state to another: steps that
  do not touch the stack (the C program's own memory is separate from it, and so are all other entry
  points), in sequence, and the processing of a connection, with whatever runs inside. The last
  rule covers processing that returns and processing that panics, since both drop the guard.
\<close>

inductive app_run :: "world \<Rightarrow> world \<Rightarrow> bool" where
  app_local: "USERDATA w' = USERDATA w \<Longrightarrow> app_run w w'"
| app_seq: "\<lbrakk>app_run w w1; app_run w1 w2\<rbrakk> \<Longrightarrow> app_run w w2"
| app_process:
    "\<lbrakk>h_connection w a = Some c; usable (USERDATA w); app_run (processing a c w) w1\<rbrakk> \<Longrightarrow>
     app_run w ((returned_inner a c i w1)\<lparr>USERDATA :=
       guard_drop (UserdataGuard_new (conn_userdata c)) (USERDATA w1)\<rparr>)"

lemma processing_push:
  "usable (USERDATA w) \<Longrightarrow> userdata_push (conn_userdata c) (conn_log_callback c) (USERDATA w)
     = (Inr (UserdataGuard_new (conn_userdata c)), USERDATA (processing a c w))"
  by (simp add: push_usable processing_def)

lemma app_run_balanced: "app_run w w' \<Longrightarrow> USERDATA w' = USERDATA w"
proof (induction rule: app_run.induct)
  case (app_process w a c w1 i)
  then show ?case using try_drop_pushed(2) [OF processing_push] by simp
qed simp_all

text \<open>A call of any entry point but the processing one is a run.\<close>

lemma balanced_app_run: "balanced f \<Longrightarrow> leaves (app_run w) (f w)"
  unfolding balanced_def keeps_def by (cases "f w") (auto intro!: app_local dest!: meta_spec [of _ w] spec [of _ w])

text \<open>Processing a connection, with runs inside, is again a run: the rules can be nested to any depth.\<close>

lemma process_is_app_run:
  assumes "h_connection w a = Some c" and "usable (USERDATA w)"
    and "leaves (\<lambda>(i, w'). app_run (processing a c w) w') (process_new_packets (conn_inner c, processing a c w))"
  shows "leaves (app_run w) (rustls_connection_process_new_packets process_new_packets (Ptr a) w)"
proof -
  note drop = try_drop_pushed [OF processing_push [OF assms(2)], of c a]
  have end_of_run: "USERDATA w' = USERDATA (processing a c w)" if "app_run (processing a c w) w'" for w'
    using app_run_balanced [OF that] .
  show ?thesis
  proof (cases "process_new_packets (conn_inner c, processing a c w)")
    case (Returned r s)
    then show ?thesis
      using assms(3) app_process [OF assms(1,2), of "snd s" "fst s"] end_of_run [of "snd s"]
      by (cases s) (simp add: process_new_packets_unfold [OF assms(1,2)] drop)
  next
    case (Unwound s)
    then show ?thesis
      using assms(3) app_process [OF assms(1,2), of "snd s" "fst s"]
      by (cases s) (simp add: process_new_packets_unfold [OF assms(1,2)])
  qed (simp add: process_new_packets_unfold [OF assms(1,2)])
qed

text \<open>
  During the processing of a connection, at every point that the code inside can reach, also after nested processing
  of other connections, \<open>userdata_get\<close> and \<open>log_callback_get\<close> return the userdata and the log callback of this connection:
  verifiers, session stores, hello callbacks and loggers never see those of another one.
\<close>

lemma processing_top:
  assumes "usable (USERDATA w)" and "app_run (processing a c w) w'"
  shows "userdata_get (USERDATA w') = Inr (conn_userdata c)
    \<and> log_callback_get (USERDATA w') = Inr (conn_log_callback c, conn_userdata c)"
  using app_run_balanced [OF assms(2)] push_get_top [OF processing_push [OF assms(1)]] by metis

section \<open>An example of nesting\<close>

text \<open>Two connections; a callback of the first one processes the second one, which panics.\<close>

definition demo_nested_world :: world where
  "demo_nested_world = demo_conn_world\<lparr>h_connection :=
     (h_connection demo_conn_world)(4 \<mapsto> demo_connection\<lparr>conn_userdata := Ptr 5\<rparr>)\<rparr>"

definition demo_nested_process :: "(rustls_Error + unit) inner_method" where
  "demo_nested_process = (\<lambda>(i, w).
     case rustls_connection_process_new_packets (\<lambda>s. Unwound s :: (rustls_Error + unit, _) outcome) (Ptr 4) w of
       Returned r w \<Rightarrow> Returned (Inr ()) (i, w)
     | Unwound w \<Rightarrow> Unwound (i, w)
     | Undefined \<Rightarrow> Undefined)"

section \<open>Properties\<close>

text \<open>
  No entry point touches the thread-local stack, apart from those that run code of rustls on a
  connection. This covers the certificate, key, root store, verifier, configuration and accessor functions,
  on every path and for all arguments.
\<close>

theorem entry_points_keep_stack:
  "balanced (rustls_certificate_get_der cert out_der out_len)
   \<and> balanced (rustls_supported_ciphersuite_get_suite get_u16 cs)
   \<and> balanced (rustls_supported_ciphersuite_get_name as_str cs)
   \<and> balanced (rustls_certified_key_build pkcs8 rsa any_type certs ck_new chain chain_len key key_len key_out)
   \<and> balanced (rustls_certified_key_get_certificate ckey n)
   \<and> balanced (rustls_certified_key_clone_with_ocsp ckey ocsp key_out)
   \<and> balanced (rustls_certified_key_free ckey)
   \<and> balanced (rustls_root_cert_store_new)
   \<and> balanced (rustls_root_cert_store_add_pem certs add st chain chain_len strict)
   \<and> balanced (rustls_root_cert_store_free st)
   \<and> balanced (rustls_client_cert_verifier_new st)
   \<and> balanced (rustls_client_cert_verifier_free cv)
   \<and> balanced (rustls_client_cert_verifier_optional_new st)
   \<and> balanced (rustls_client_cert_verifier_optional_free cvo)
   \<and> balanced (rustls_connection_set_userdata conn u)
   \<and> balanced (rustls_connection_wants_read q conn)
   \<and> balanced (rustls_connection_wants_write q conn)
   \<and> balanced (rustls_connection_is_handshaking q conn)
   \<and> balanced (rustls_connection_get_peer_certificate peer conn n)
   \<and> balanced (rustls_connection_get_alpn_protocol alpn conn out_der out_len)
   \<and> balanced (rustls_connection_get_protocol_version pv pv16 conn)
   \<and> balanced (rustls_connection_get_negotiated_ciphersuite neg eq suites conn)
   \<and> balanced (rustls_client_config_builder_new wants)
   \<and> balanced (rustls_client_config_builder_new_custom eq suites pfrom pver wpv suites_p n versions_p m cb_out)
   \<and> balanced (rustls_client_config_builder_dangerous_set_certificate_verifier cb fn)
   \<and> balanced (rustls_client_config_builder_use_roots cb st)
   \<and> balanced (rustls_client_config_builder_load_roots_from_file fopen fcerts add cb cstr)
   \<and> balanced (rustls_client_config_builder_set_alpn_protocols cb protos n)
   \<and> balanced (rustls_client_config_builder_set_enable_sni cb flag)
   \<and> balanced (rustls_client_config_builder_set_certified_key cb keys n)
   \<and> balanced (rustls_client_config_builder_build wr wn cb)
   \<and> balanced (rustls_client_config_builder_free cb)
   \<and> balanced (rustls_client_config_free cc)
   \<and> balanced (rustls_server_config_builder_new wants)
   \<and> balanced (rustls_server_config_builder_new_custom eq suites pfrom pver wpv suites_p n versions_p m sb_out)
   \<and> balanced (rustls_server_config_builder_set_client_verifier sb cv)
   \<and> balanced (rustls_server_config_builder_set_client_verifier_optional sb cvo)
   \<and> balanced (rustls_server_config_builder_free sb)
   \<and> balanced (rustls_server_config_builder_set_ignore_client_order sb flag)
   \<and> balanced (rustls_server_config_builder_set_alpn_protocols sb protos n)
   \<and> balanced (rustls_server_config_builder_set_certified_keys sb keys n)
   \<and> balanced (rustls_server_config_builder_set_hello_callback sb fn)
   \<and> balanced (rustls_server_config_builder_set_persistence sb fn fn2)
   \<and> balanced (rustls_server_config_builder_build wcr sb)
   \<and> balanced (rustls_server_config_free sc)
   \<and> balanced (rustls_server_connection_get_sni_hostname sni conn buf n out_len)
   \<and> balanced (rustls_client_hello_select_certified_key choose_scheme hello keys n key_out)"
  unfolding balanced_def entry_point_defs
  by (intro conjI; auto intro!: balanced_intros simp: Let_def certified_key_build_def ResolvesServerCertFromChoices_new_def
      arc_drop_opaque_def split: option.splits ptr.splits sum.splits prod.splits)




end
