(* ===== verification/Ffi_Ownership.thy ===== *)
theory Ffi_Ownership
  imports Ffi_Client Ffi_Server "HOL-Library.Multiset"
begin

text \<open>
  Ownership of the objects that C and Rust share. C holds pointers to boxes and counted references; boxes and counted
  objects hold references to other objects. The invariant \<open>owned\<close> says that for every object the number of its holders,
  in C and in the heap, does not exceed its count. It follows that nobody holds a dangling pointer.

  The locales give the laws of one kind of object: how allocating, changing, retaining and dropping it changes
  who holds what. They are interpreted for all ten kinds, and the second half of the theory derives from them what
  cloning and dropping compound values does.
\<close>

section \<open>Objects and who holds them\<close>

datatype resource =
    RConnection nat | RClientBuilder nat | RServerBuilder nat | RRootStore nat
  | RClientConfig nat | RServerConfig nat | RKey nat | RSigningKey nat | RVerifier nat | RVerifierOptional nat

definition supply_at :: "(nat \<rightharpoonup> 'v) \<Rightarrow> ('v \<Rightarrow> nat) \<Rightarrow> nat \<Rightarrow> nat" where
  "supply_at h cnt a = (case h a of None \<Rightarrow> 0 | Some v \<Rightarrow> cnt v)"

lemma supply_at_upd [simp]:
  "supply_at (h(a \<mapsto> v)) cnt b = (if b = a then cnt v else supply_at h cnt b)"
  "supply_at (h(a := None)) cnt b = (if b = a then 0 else supply_at h cnt b)"
  by (simp_all add: supply_at_def)

primrec supply_of :: "world \<Rightarrow> resource \<Rightarrow> nat" where
  "supply_of w (RConnection a) = supply_at (h_connection w) (\<lambda>_. 1) a"
| "supply_of w (RClientBuilder a) = supply_at (h_client_builder w) (\<lambda>_. 1) a"
| "supply_of w (RServerBuilder a) = supply_at (h_server_builder w) (\<lambda>_. 1) a"
| "supply_of w (RRootStore a) = supply_at (h_root_store w) (\<lambda>_. 1) a"
| "supply_of w (RClientConfig a) = supply_at (h_client_config w) strong a"
| "supply_of w (RServerConfig a) = supply_at (h_server_config w) strong a"
| "supply_of w (RKey a) = supply_at (h_certified_key w) strong a"
| "supply_of w (RSigningKey a) = supply_at (h_signing_key w) strong a"
| "supply_of w (RVerifier a) = supply_at (h_client_verifier w) strong a"
| "supply_of w (RVerifierOptional a) = supply_at (h_client_verifier_optional w) strong a"

definition contents_at :: "(nat \<rightharpoonup> 'v) \<Rightarrow> ('v \<Rightarrow> resource multiset) \<Rightarrow> nat \<Rightarrow> resource multiset" where
  "contents_at h c a = (case h a of None \<Rightarrow> {#} | Some v \<Rightarrow> c v)"

definition contents :: "nat \<Rightarrow> (nat \<rightharpoonup> 'v) \<Rightarrow> ('v \<Rightarrow> resource multiset) \<Rightarrow> resource multiset" where
  "contents n h c = (\<Sum>a<n. contents_at h c a)"

lemma contents_put:
  "a < n \<Longrightarrow> contents n (h(a \<mapsto> v)) c + contents_at h c a = contents n h c + c v"
  by (simp add: contents_def contents_at_def sum.remove [of "{..<n}" a] ac_simps)

lemma contents_del:
  "a < n \<Longrightarrow> contents n (h(a := None)) c + contents_at h c a = contents n h c"
  by (simp add: contents_def contents_at_def sum.remove [of "{..<n}" a] ac_simps)

lemma count_contents_put:
  assumes "a < n"
  shows "count (contents n (h(a \<mapsto> v)) c) r + count (contents_at h c a) r = count (contents n h c) r + count (c v) r"
  using arg_cong [OF contents_put [OF assms, of h v c], of "\<lambda>m. count m r"] by simp

lemma count_contents_del:
  assumes "a < n"
  shows "count (contents n (h(a := None)) c) r + count (contents_at h c a) r = count (contents n h c) r"
  using arg_cong [OF contents_del [OF assms, of h c], of "\<lambda>m. count m r"] by simp

lemma contents_Suc: "h n = None \<Longrightarrow> contents (Suc n) h c = contents n h c"
  by (simp add: contents_def contents_at_def)

primrec client_resolver_refs :: "ResolvesClientCert \<Rightarrow> resource multiset" where
  "client_resolver_refs (ResolvesClientCertFromChoices keys) = image_mset RKey (mset keys)"

primrec server_resolver_refs :: "ResolvesServerCert \<Rightarrow> resource multiset" where
  "server_resolver_refs (ResolvesServerCertFromChoices keys) = image_mset RKey (mset keys)"
| "server_resolver_refs (ClientHelloResolver cb) = {#}"

primrec verifier_refs :: "ClientCertVerifier \<Rightarrow> resource multiset" where
  "verifier_refs NoClientAuth = {#}"
| "verifier_refs (VerifyRequired a) = {#RVerifier a#}"
| "verifier_refs (VerifyOptional a) = {#RVerifierOptional a#}"

definition opt_refs :: "('r \<Rightarrow> resource multiset) \<Rightarrow> 'r option \<Rightarrow> resource multiset" where
  "opt_refs f r = (case r of None \<Rightarrow> {#} | Some x \<Rightarrow> f x)"

lemma opt_refs_simps [simp]: "opt_refs f None = {#}" "opt_refs f (Some x) = f x"
  by (simp_all add: opt_refs_def)

definition client_builder_refs :: "ClientConfigBuilder \<Rightarrow> resource multiset" where
  "client_builder_refs b = opt_refs client_resolver_refs (ccb_cert_resolver b)"

definition server_builder_refs :: "ServerConfigBuilder \<Rightarrow> resource multiset" where
  "server_builder_refs b = verifier_refs (scb_verifier b) + opt_refs server_resolver_refs (scb_cert_resolver b)"

definition client_config_refs :: "ClientConfig \<Rightarrow> resource multiset" where
  "client_config_refs c = opt_refs client_resolver_refs (cc_cert_resolver c)"

definition server_config_refs :: "ServerConfig \<Rightarrow> resource multiset" where
  "server_config_refs c = verifier_refs (sc_verifier c) + server_resolver_refs (sc_cert_resolver c)"

definition key_refs :: "CertifiedKey \<Rightarrow> resource multiset" where
  "key_refs ck = {#RSigningKey (ck_key ck)#}"

type_synonym connection_refs = "rustls_Connection \<Rightarrow> resource multiset"

definition refs :: "connection_refs \<Rightarrow> world \<Rightarrow> resource multiset" where
  "refs C w =
     contents (next_addr w) (h_connection w) (\<lambda>c. C (conn_inner c))
     + contents (next_addr w) (h_client_builder w) client_builder_refs
     + contents (next_addr w) (h_server_builder w) server_builder_refs
     + contents (next_addr w) (h_client_config w) (\<lambda>i. client_config_refs (arc_data i))
     + contents (next_addr w) (h_server_config w) (\<lambda>i. server_config_refs (arc_data i))
     + contents (next_addr w) (h_certified_key w) (\<lambda>i. key_refs (arc_data i))"

text \<open>Objects live below the next address, and every reference counted object has a reference.\<close>

definition well_formed :: "world \<Rightarrow> bool" where
  "well_formed w =
     (fresh_above connection_heap w \<and> fresh_above client_builder_heap w \<and> fresh_above server_builder_heap w
      \<and> fresh_above root_store_heap w \<and> fresh_above client_config_heap w \<and> fresh_above server_config_heap w
      \<and> fresh_above certified_key_heap w \<and> fresh_above signing_key_heap w
      \<and> fresh_above client_verifier_heap w \<and> fresh_above client_verifier_optional_heap w
      \<and> live_counts client_config_heap w \<and> live_counts server_config_heap w \<and> live_counts certified_key_heap w
      \<and> live_counts signing_key_heap w \<and> live_counts client_verifier_heap w \<and> live_counts client_verifier_optional_heap w)"

text \<open>
  The count of an object covers its holders: there are not more holders than references, and, in the exact form, not
  fewer either. The first means that nobody holds a dangling pointer, the second that nothing is leaked.
\<close>

definition covers :: "bool \<Rightarrow> nat \<Rightarrow> nat \<Rightarrow> bool" where
  "covers e holders n = (if e then holders = n else holders \<le> n)"

lemma covers_shift: "\<lbrakk>covers e x y; x' + y = x + y'\<rbrakk> \<Longrightarrow> covers e x' y'"
  by (auto simp: covers_def split: if_splits)

definition owned :: "bool \<Rightarrow> connection_refs \<Rightarrow> world \<Rightarrow> resource multiset \<Rightarrow> bool" where
  "owned e C w H = (well_formed w \<and> (\<forall>r. covers e (count (refs C w + H) r) (supply_of w r)))"

lemma owned_well_formed: "owned e C w H \<Longrightarrow> well_formed w"
  by (simp add: owned_def)

lemma owned_le: "owned e C w H \<Longrightarrow> count (refs C w + H) r \<le> supply_of w r"
  by (auto simp: owned_def covers_def split: if_splits dest: spec [of _ r])

lemma owned_shift:
  assumes "owned e C w H" and "well_formed w'"
    and "\<And>r. count (refs C w') r + count H' r + supply_of w r = count (refs C w) r + count H r + supply_of w' r"
  shows "owned e C w' H'"
  using assms covers_shift unfolding owned_def by simp blast

lemma supply_next_addr [simp]: "supply_of (w\<lparr>next_addr := n\<rparr>) = supply_of w"
proof
  fix r show "supply_of (w\<lparr>next_addr := n\<rparr>) r = supply_of w r" by (cases r) simp_all
qed

lemma refs_next_addr: "well_formed w \<Longrightarrow> refs C (w\<lparr>next_addr := Suc (next_addr w)\<rparr>) = refs C w"
  by (simp add: refs_def well_formed_def fresh_above_def contents_Suc)

lemma well_formed_next_addr: "well_formed w \<Longrightarrow> well_formed (w\<lparr>next_addr := Suc (next_addr w)\<rparr>)"
  by (simp add: well_formed_def fresh_above_def live_counts_def)

text \<open>What the operations on the library's own heap do not touch: the stack and the memory of the C program.\<close>

definition outside :: "world \<Rightarrow> userdata_cell \<times> (nat \<rightharpoonup> u8) \<times> (nat \<rightharpoonup> u16) \<times> (nat \<rightharpoonup> usize) \<times>
    (nat \<rightharpoonup> rustls_slice_bytes) \<times> (nat \<rightharpoonup> SupportedCipherSuite option) \<times> (nat \<rightharpoonup> u8 sptr) \<times>
    (nat \<rightharpoonup> CertifiedKey ptr) \<times> (nat \<rightharpoonup> Connection ptr) \<times> (nat \<rightharpoonup> ClientConfigBuilder ptr) \<times>
    (nat \<rightharpoonup> ServerConfigBuilder ptr)" where
  "outside w = (USERDATA w, m_u8 w, m_u16 w, m_usize w, m_slice w, m_suite w, m_u8_ptr w, m_key_ptr w, m_conn_ptr w,
     m_client_builder_ptr w, m_server_builder_ptr w)"

text \<open>The boxes. Cloning and dropping references does not touch them either.\<close>

definition boxes :: "world \<Rightarrow> (nat \<rightharpoonup> Connection) \<times> (nat \<rightharpoonup> ClientConfigBuilder) \<times> (nat \<rightharpoonup> ServerConfigBuilder) \<times>
    (nat \<rightharpoonup> RootCertStore)" where
  "boxes w = (h_connection w, h_client_builder w, h_server_builder w, h_root_store w)"

lemma boxes_next_addr [simp]: "boxes (w\<lparr>next_addr := n\<rparr>) = boxes w"
  by (simp add: boxes_def)

lemma outside_next_addr [simp]: "outside (w\<lparr>next_addr := n\<rparr>) = outside w"
  by (simp add: outside_def)

lemma owned_less: "owned False C w (H + H') \<Longrightarrow> owned False C w H"
  by (auto simp: owned_def covers_def intro: order_trans [rotated])

locale resource_heap = cast_ptr L for L :: "(world, 'v) heap_lens" +
  fixes tok :: "nat \<Rightarrow> resource" and content :: "connection_refs \<Rightarrow> 'v \<Rightarrow> resource multiset" and cnt :: "'v \<Rightarrow> nat"
  assumes supply_tok: "supply_of w (tok a) = supply_at (hget L w) cnt a"
    and supply_hput: "supply_of (hput L a v w) = (supply_of w)(tok a := cnt v)"
    and supply_hdel: "supply_of (hdel L a w) = (supply_of w)(tok a := 0)"
    and refs_hput: "a < next_addr w \<Longrightarrow> count (refs C (hput L a v w)) r + count (contents_at (hget L w) (content C) a) r
        = count (refs C w) r + count (content C v) r"
    and refs_hdel: "a < next_addr w \<Longrightarrow> count (refs C (hdel L a w)) r + count (contents_at (hget L w) (content C) a) r
        = count (refs C w) r"
    and well_formed_hput: "\<lbrakk>well_formed w; a < next_addr w; 0 < cnt v\<rbrakk> \<Longrightarrow> well_formed (hput L a v w)"
    and well_formed_hdel: "well_formed w \<Longrightarrow> well_formed (hdel L a w)"
    and outside_hput: "outside (hput L a v w) = outside w"
    and outside_hdel: "outside (hdel L a w) = outside w"
    and well_formed_cnt: "\<lbrakk>well_formed w; hget L w a = Some v\<rbrakk> \<Longrightarrow> 0 < cnt v"
    and well_formed_get: "\<lbrakk>well_formed w; next_addr w \<le> a\<rbrakk> \<Longrightarrow> hget L w a = None"
begin

lemma get_fresh: "owned e C w H \<Longrightarrow> hget L w (next_addr w) = None"
  using well_formed_get [OF owned_well_formed] by blast

lemma get_below: "\<lbrakk>owned e C w H; hget L w a = Some v\<rbrakk> \<Longrightarrow> a < next_addr w"
  using well_formed_get [OF owned_well_formed, of e C w H a] by (fastforce simp: not_less)

lemma owned_put_back:
  assumes "owned e C w (H + content C v)" and "cnt v = 1" and "hget L w a = None" and "a < next_addr w"
  shows "owned e C (hput L a v w) (H + {#tok a#})"
proof (rule owned_shift [OF assms(1)])
  show "well_formed (hput L a v w)" using assms(2,4) owned_well_formed [OF assms(1)] by (simp add: well_formed_hput)
  have "supply_of w (tok a) = 0" using assms(3) by (simp add: supply_tok supply_at_def)
  then show "count (refs C (hput L a v w)) r + count (H + {#tok a#}) r + supply_of w r =
      count (refs C w) r + count (H + content C v) r + supply_of (hput L a v w) r" for r
    using refs_hput [OF assms(4), of C v r] assms(2,3) by (simp add: contents_at_def supply_hput)
qed

lemma owned_alloc:
  assumes "owned e C w (H + content C v)" and "cnt v = 1"
  shows "owned e C (hput L (next_addr w) v (w\<lparr>next_addr := Suc (next_addr w)\<rparr>)) (H + {#tok (next_addr w)#})"
proof (rule owned_put_back [OF _ assms(2)])
  show "owned e C (w\<lparr>next_addr := Suc (next_addr w)\<rparr>) (H + content C v)"
    using assms(1) by (simp add: owned_def refs_next_addr well_formed_next_addr)
  show "hget L (w\<lparr>next_addr := Suc (next_addr w)\<rparr>) (next_addr w) = None"
    using get_fresh [OF assms(1)] by (simp add: get_next_addr [of "\<lambda>_. Suc (next_addr w)"])
qed simp

lemma owned_live:
  assumes "owned e C w H" and "tok a \<in># H"
  obtains v where "hget L w a = Some v" and "0 < cnt v" and "a < next_addr w"
proof -
  have "0 < count (refs C w + H) (tok a)" using assms(2) by simp
  also have "\<dots> \<le> supply_of w (tok a)" by (rule owned_le [OF assms(1)])
  finally obtain v where "hget L w a = Some v" "0 < cnt v"
    by (auto simp: supply_tok supply_at_def split: option.splits)
  then show ?thesis using that get_below [OF assms(1)] by blast
qed

text \<open>What a live object refers to is live.\<close>

lemma content_supplied:
  assumes "owned e C w H" and "hget L w a = Some v" and "r \<in># content C v"
  shows "0 < supply_of w r"
proof -
  have "0 < count (refs C w + H) r"
    using refs_hdel [OF get_below [OF assms(1,2)], of C r] assms(2,3) by (simp add: contents_at_def flip: count_greater_zero_iff)
  also have "\<dots> \<le> supply_of w r" by (rule owned_le [OF assms(1)])
  finally show ?thesis .
qed

lemma owned_exchange:
  assumes "owned e C w H" and "hget L w a = Some v" and "cnt v' = cnt v"
    and "\<And>r. count H' r + count (content C v') r = count H r + count (content C v) r"
  shows "owned e C (hput L a v' w) H'"
proof (rule owned_shift [OF assms(1)])
  note a = get_below [OF assms(1,2)]
  show "well_formed (hput L a v' w)"
    using a owned_well_formed [OF assms(1)] well_formed_cnt [of w a v] assms(2,3) by (simp add: well_formed_hput)
  have "supply_of (hput L a v' w) = supply_of w"
    using assms(2,3) by (auto simp: supply_hput supply_tok supply_at_def)
  then show "count (refs C (hput L a v' w)) r + count H' r + supply_of w r =
      count (refs C w) r + count H r + supply_of (hput L a v' w) r" for r
    using refs_hput [OF a, of C v' r] assms(2) assms(4) [of r] by (simp add: contents_at_def)
qed

lemma owned_update:
  assumes "owned e C w H" and "hget L w a = Some v" and "cnt v' = cnt v" and "content C v' = content C v"
  shows "owned e C (hput L a v' w) H"
  using owned_exchange [OF assms(1-3)] assms(4) by simp

lemma owned_hdel:
  assumes "owned e C w (H + {#tok a#})" and "hget L w a = Some v" and "cnt v = 1"
  shows "owned e C (hdel L a w) (H + content C v)"
proof (rule owned_shift [OF assms(1)])
  note a = get_below [OF assms(1,2)]
  show "well_formed (hdel L a w)" using owned_well_formed [OF assms(1)] by (simp add: well_formed_hdel)
  have "supply_of w (tok a) = 1" using assms(2,3) by (simp add: supply_tok supply_at_def)
  then show "count (refs C (hdel L a w)) r + count (H + content C v) r + supply_of w r =
      count (refs C w) r + count (H + {#tok a#}) r + supply_of (hdel L a w) r" for r
    using refs_hdel [OF a, of C r] assms(2) by (cases "r = tok a") (simp_all add: contents_at_def supply_hdel)
qed

end


locale box_resource = resource_heap L tok content "\<lambda>_. 1"
  for L :: "(world, 'v) heap_lens" and tok and content
begin

lemma to_mut_ptr_owned:
  assumes "owned e C w (H + content C v)"
  shows "\<exists>a w'. to_mut_ptr L v w = Returned (Ptr a) w' \<and> owned e C w' (H + {#tok a#}) \<and> outside w' = outside w"
  using owned_alloc [OF assms] by (simp add: to_mut_ptr_def Let_def outside_hput)

lemma to_box_owned:
  assumes "owned e C w (H + {#tok a#})"
  shows "\<exists>v w'. to_box L (Ptr a) w = Returned (Some v) w' \<and> owned e C w' (H + content C v) \<and> outside w' = outside w"
proof -
  obtain v where v: "hget L w a = Some v" using owned_live [OF assms, of a] by auto
  show ?thesis using owned_hdel [OF assms v] by (simp add: to_box_def v outside_hdel)
qed

end

locale arc_resource = resource_heap L tok "\<lambda>C i. content C (arc_data i)" strong
  for L :: "(world, 'v ArcInner) heap_lens" and tok and content +
  assumes boxes_hput: "boxes (hput L a i w) = boxes w" and boxes_hdel: "boxes (hdel L a w) = boxes w"
begin

lemma to_const_ptr_owned:
  assumes "owned e C w (H + content C v)"
  shows "\<exists>a w'. to_const_ptr L v w = Returned (Ptr a) w' \<and> owned e C w' (H + {#tok a#}) \<and> outside w' = outside w \<and> boxes w' = boxes w"
  using owned_alloc [of e C w H "\<lparr>strong = 1, arc_data = v\<rparr>"] assms by (simp add: to_const_ptr_def Let_def outside_hput boxes_hput)

lemma owned_strong:
  assumes "owned e C w H" and "hget L w a = Some i"
    and "\<And>r. r \<noteq> tok a \<Longrightarrow> count H' r = count H r" and "strong i + count H' (tok a) = n + count H (tok a)" and "0 < n"
  shows "owned e C (hput L a (i\<lparr>strong := n\<rparr>) w) H'"
proof (rule owned_shift [OF assms(1)])
  note a = get_below [OF assms(1,2)]
  show "well_formed (hput L a (i\<lparr>strong := n\<rparr>) w)" using a assms(5) owned_well_formed [OF assms(1)] by (simp add: well_formed_hput)
  have "supply_of w (tok a) = strong i" using assms(2) by (simp add: supply_tok supply_at_def)
  then show "count (refs C (hput L a (i\<lparr>strong := n\<rparr>) w)) r + count H' r + supply_of w r =
      count (refs C w) r + count H r + supply_of (hput L a (i\<lparr>strong := n\<rparr>) w) r" for r
    using refs_hput [OF a, of C "i\<lparr>strong := n\<rparr>" r] assms(2) assms(3) [of r] assms(4)
    by (cases "r = tok a") (simp_all add: contents_at_def supply_hput)
qed

lemma to_arc_live_owned:
  assumes "owned e C w H" and "hget L w a = Some i"
  shows "\<exists>w'. to_arc L (Ptr a) w = Returned (Some a) w' \<and> owned e C w' (H + {#tok a#})
    \<and> outside w' = outside w \<and> boxes w' = boxes w"
  using owned_strong [OF assms, of "H + {#tok a#}" "Suc (strong i)"] assms(2)
  by (simp add: to_arc_def outside_hput boxes_hput)

lemma arc_drop_owned:
  assumes "owned e C w (H + {#tok a#})"
  shows "\<exists>r w'. arc_drop L a w = Returned r w' \<and> owned e C w' (H + opt_refs (content C) r) \<and> outside w' = outside w \<and> boxes w' = boxes w"
proof -
  obtain i where i: "hget L w a = Some i" "0 < strong i" using owned_live [OF assms, of a] by auto
  show ?thesis
  proof (cases "strong i = 1")
    case True
    then show ?thesis using owned_hdel [OF assms i(1)] by (simp add: arc_drop_def i outside_hdel boxes_hdel)
  next
    case False
    then show ?thesis
      using owned_strong [OF assms i(1), of H "strong i - 1"] i
      by (simp add: arc_drop_def outside_hput boxes_hput)
  qed
qed

end

lemma well_formed_iff: "well_formed w \<longleftrightarrow>
    (\<forall>a \<ge> next_addr w. h_connection w a = None \<and> h_client_builder w a = None
      \<and> h_server_builder w a = None \<and> h_root_store w a = None \<and> h_client_config w a = None \<and> h_server_config w a = None
      \<and> h_certified_key w a = None \<and> h_signing_key w a = None \<and> h_client_verifier w a = None
      \<and> h_client_verifier_optional w a = None)
    \<and> (\<forall>a i. h_client_config w a = Some i \<longrightarrow> 0 < strong i) \<and> (\<forall>a i. h_server_config w a = Some i \<longrightarrow> 0 < strong i)
    \<and> (\<forall>a i. h_certified_key w a = Some i \<longrightarrow> 0 < strong i) \<and> (\<forall>a i. h_signing_key w a = Some i \<longrightarrow> 0 < strong i)
    \<and> (\<forall>a i. h_client_verifier w a = Some i \<longrightarrow> 0 < strong i) \<and> (\<forall>a i. h_client_verifier_optional w a = Some i \<longrightarrow> 0 < strong i)"
  by (auto simp: well_formed_def fresh_above_def live_counts_def)

lemma supply_of_put:
  "supply_of (w\<lparr>h_connection := (h_connection w)(a \<mapsto> xa)\<rparr>) = (supply_of w)(RConnection a := 1)"
  "supply_of (w\<lparr>h_client_builder := (h_client_builder w)(a \<mapsto> xb)\<rparr>) = (supply_of w)(RClientBuilder a := 1)"
  "supply_of (w\<lparr>h_server_builder := (h_server_builder w)(a \<mapsto> xc)\<rparr>) = (supply_of w)(RServerBuilder a := 1)"
  "supply_of (w\<lparr>h_root_store := (h_root_store w)(a \<mapsto> xd)\<rparr>) = (supply_of w)(RRootStore a := 1)"
  "supply_of (w\<lparr>h_client_config := (h_client_config w)(a \<mapsto> xe)\<rparr>) = (supply_of w)(RClientConfig a := strong xe)"
  "supply_of (w\<lparr>h_server_config := (h_server_config w)(a \<mapsto> xf)\<rparr>) = (supply_of w)(RServerConfig a := strong xf)"
  "supply_of (w\<lparr>h_certified_key := (h_certified_key w)(a \<mapsto> xg)\<rparr>) = (supply_of w)(RKey a := strong xg)"
  "supply_of (w\<lparr>h_signing_key := (h_signing_key w)(a \<mapsto> xh)\<rparr>) = (supply_of w)(RSigningKey a := strong xh)"
  "supply_of (w\<lparr>h_client_verifier := (h_client_verifier w)(a \<mapsto> xi)\<rparr>) = (supply_of w)(RVerifier a := strong xi)"
  "supply_of (w\<lparr>h_client_verifier_optional := (h_client_verifier_optional w)(a \<mapsto> xj)\<rparr>) = (supply_of w)(RVerifierOptional a := strong xj)"
  by (rule ext, rename_tac r, case_tac r; simp)+

lemma supply_of_del:
  "supply_of (w\<lparr>h_connection := (h_connection w)(a := None)\<rparr>) = (supply_of w)(RConnection a := 0)"
  "supply_of (w\<lparr>h_client_builder := (h_client_builder w)(a := None)\<rparr>) = (supply_of w)(RClientBuilder a := 0)"
  "supply_of (w\<lparr>h_server_builder := (h_server_builder w)(a := None)\<rparr>) = (supply_of w)(RServerBuilder a := 0)"
  "supply_of (w\<lparr>h_root_store := (h_root_store w)(a := None)\<rparr>) = (supply_of w)(RRootStore a := 0)"
  "supply_of (w\<lparr>h_client_config := (h_client_config w)(a := None)\<rparr>) = (supply_of w)(RClientConfig a := 0)"
  "supply_of (w\<lparr>h_server_config := (h_server_config w)(a := None)\<rparr>) = (supply_of w)(RServerConfig a := 0)"
  "supply_of (w\<lparr>h_certified_key := (h_certified_key w)(a := None)\<rparr>) = (supply_of w)(RKey a := 0)"
  "supply_of (w\<lparr>h_signing_key := (h_signing_key w)(a := None)\<rparr>) = (supply_of w)(RSigningKey a := 0)"
  "supply_of (w\<lparr>h_client_verifier := (h_client_verifier w)(a := None)\<rparr>) = (supply_of w)(RVerifier a := 0)"
  "supply_of (w\<lparr>h_client_verifier_optional := (h_client_verifier_optional w)(a := None)\<rparr>) = (supply_of w)(RVerifierOptional a := 0)"
  by (rule ext, rename_tac r, case_tac r; simp)+

lemma refs_put:
  assumes "a < next_addr w"
  shows
    "count (refs C (w\<lparr>h_connection := (h_connection w)(a \<mapsto> xa)\<rparr>)) r + count (contents_at (h_connection w) (\<lambda>c. C (conn_inner c)) a) r
      = count (refs C w) r + count (C (conn_inner xa)) r"
    "count (refs C (w\<lparr>h_client_builder := (h_client_builder w)(a \<mapsto> xb)\<rparr>)) r + count (contents_at (h_client_builder w) (client_builder_refs) a) r
      = count (refs C w) r + count (client_builder_refs xb) r"
    "count (refs C (w\<lparr>h_server_builder := (h_server_builder w)(a \<mapsto> xc)\<rparr>)) r + count (contents_at (h_server_builder w) (server_builder_refs) a) r
      = count (refs C w) r + count (server_builder_refs xc) r"
    "count (refs C (w\<lparr>h_client_config := (h_client_config w)(a \<mapsto> xd)\<rparr>)) r + count (contents_at (h_client_config w) (\<lambda>i. client_config_refs (arc_data i)) a) r
      = count (refs C w) r + count (client_config_refs (arc_data xd)) r"
    "count (refs C (w\<lparr>h_server_config := (h_server_config w)(a \<mapsto> xe)\<rparr>)) r + count (contents_at (h_server_config w) (\<lambda>i. server_config_refs (arc_data i)) a) r
      = count (refs C w) r + count (server_config_refs (arc_data xe)) r"
    "count (refs C (w\<lparr>h_certified_key := (h_certified_key w)(a \<mapsto> xf)\<rparr>)) r + count (contents_at (h_certified_key w) (\<lambda>i. key_refs (arc_data i)) a) r
      = count (refs C w) r + count (key_refs (arc_data xf)) r"
  by (simp_all add: refs_def count_contents_put [OF assms, of "h_connection w" xa "\<lambda>c. C (conn_inner c)" r, symmetric]
    count_contents_put [OF assms, of "h_client_builder w" xb "client_builder_refs" r, symmetric]
    count_contents_put [OF assms, of "h_server_builder w" xc "server_builder_refs" r, symmetric]
    count_contents_put [OF assms, of "h_client_config w" xd "\<lambda>i. client_config_refs (arc_data i)" r, symmetric]
    count_contents_put [OF assms, of "h_server_config w" xe "\<lambda>i. server_config_refs (arc_data i)" r, symmetric]
    count_contents_put [OF assms, of "h_certified_key w" xf "\<lambda>i. key_refs (arc_data i)" r, symmetric])

lemma refs_del:
  assumes "a < next_addr w"
  shows
    "count (refs C (w\<lparr>h_connection := (h_connection w)(a := None)\<rparr>)) r + count (contents_at (h_connection w) (\<lambda>c. C (conn_inner c)) a) r = count (refs C w) r"
    "count (refs C (w\<lparr>h_client_builder := (h_client_builder w)(a := None)\<rparr>)) r + count (contents_at (h_client_builder w) (client_builder_refs) a) r = count (refs C w) r"
    "count (refs C (w\<lparr>h_server_builder := (h_server_builder w)(a := None)\<rparr>)) r + count (contents_at (h_server_builder w) (server_builder_refs) a) r = count (refs C w) r"
    "count (refs C (w\<lparr>h_client_config := (h_client_config w)(a := None)\<rparr>)) r + count (contents_at (h_client_config w) (\<lambda>i. client_config_refs (arc_data i)) a) r = count (refs C w) r"
    "count (refs C (w\<lparr>h_server_config := (h_server_config w)(a := None)\<rparr>)) r + count (contents_at (h_server_config w) (\<lambda>i. server_config_refs (arc_data i)) a) r = count (refs C w) r"
    "count (refs C (w\<lparr>h_certified_key := (h_certified_key w)(a := None)\<rparr>)) r + count (contents_at (h_certified_key w) (\<lambda>i. key_refs (arc_data i)) a) r = count (refs C w) r"
  by (simp_all add: refs_def count_contents_del [OF assms, of "h_connection w" "\<lambda>c. C (conn_inner c)" r, symmetric]
    count_contents_del [OF assms, of "h_client_builder w" "client_builder_refs" r, symmetric]
    count_contents_del [OF assms, of "h_server_builder w" "server_builder_refs" r, symmetric]
    count_contents_del [OF assms, of "h_client_config w" "\<lambda>i. client_config_refs (arc_data i)" r, symmetric]
    count_contents_del [OF assms, of "h_server_config w" "\<lambda>i. server_config_refs (arc_data i)" r, symmetric]
    count_contents_del [OF assms, of "h_certified_key w" "\<lambda>i. key_refs (arc_data i)" r, symmetric])

lemma contents_at_empty [simp]: "contents_at h (\<lambda>_. {#}) a = {#}"
  by (simp add: contents_at_def split: option.split)

lemma refs_same [simp]:
  "refs C (w\<lparr>h_root_store := h0\<rparr>) = refs C w" "refs C (w\<lparr>h_signing_key := h1\<rparr>) = refs C w"
  "refs C (w\<lparr>h_client_verifier := h2\<rparr>) = refs C w" "refs C (w\<lparr>h_client_verifier_optional := h3\<rparr>) = refs C w"
  by (simp_all add: refs_def)

lemmas resource_laws = supply_of_put supply_of_del refs_put refs_del well_formed_iff outside_def boxes_def

interpretation connection_res: box_resource connection_heap RConnection "\<lambda>C c. C (conn_inner c)"
  by unfold_locales (simp_all add: resource_laws)

interpretation client_builder_res: box_resource client_builder_heap RClientBuilder "\<lambda>_. client_builder_refs"
  by unfold_locales (simp_all add: resource_laws)

interpretation server_builder_res: box_resource server_builder_heap RServerBuilder "\<lambda>_. server_builder_refs"
  by unfold_locales (simp_all add: resource_laws)

interpretation root_store_res: box_resource root_store_heap RRootStore "\<lambda>_ _. {#}"
  by unfold_locales (simp_all add: resource_laws)

interpretation client_config_res: arc_resource client_config_heap RClientConfig "\<lambda>_. client_config_refs"
  by unfold_locales (simp_all add: resource_laws)

interpretation server_config_res: arc_resource server_config_heap RServerConfig "\<lambda>_. server_config_refs"
  by unfold_locales (simp_all add: resource_laws)

interpretation certified_key_res: arc_resource certified_key_heap RKey "\<lambda>_. key_refs"
  by unfold_locales (simp_all add: resource_laws)

interpretation signing_key_res: arc_resource signing_key_heap RSigningKey "\<lambda>_ _. {#}"
  by unfold_locales (simp_all add: resource_laws)

interpretation client_verifier_res: arc_resource client_verifier_heap RVerifier "\<lambda>_ _. {#}"
  by unfold_locales (simp_all add: resource_laws)

interpretation client_verifier_optional_res: arc_resource client_verifier_optional_heap RVerifierOptional "\<lambda>_ _. {#}"
  by unfold_locales (simp_all add: resource_laws)

section \<open>Total correctness\<close>

definition returns :: "('a \<Rightarrow> 'w \<Rightarrow> bool) \<Rightarrow> ('a, 'w) outcome \<Rightarrow> bool" where
  "returns Q r = (\<exists>x w. r = Returned x w \<and> Q x w)"

lemma returns_simps [simp]:
  "returns Q (Returned x w) = Q x w" "\<not> returns Q (Unwound w)" "\<not> returns Q Undefined"
  by (simp_all add: returns_def)

lemma returns_and_then [simp]: "returns Q (and_then r k) = returns (\<lambda>x w. returns Q (k x w)) r"
  by (cases r) simp_all

lemma returns_mono: "\<lbrakk>returns P r; \<And>x w. P x w \<Longrightarrow> Q x w\<rbrakk> \<Longrightarrow> returns Q r"
  by (auto simp: returns_def)

lemma returns_boundary: "returns Q (body w) \<Longrightarrow> returns Q (ffi_panic_boundary d body w)"
  by (auto simp: returns_def ffi_panic_boundary_def)

definition kept :: "bool \<Rightarrow> connection_refs \<Rightarrow> world \<Rightarrow> resource multiset \<Rightarrow> world \<Rightarrow> bool" where
  "kept e C w H w' = (owned e C w' H \<and> outside w' = outside w \<and> boxes w' = boxes w)"

lemma kept_self: "owned e C w H \<Longrightarrow> kept e C w H w"
  by (simp add: kept_def)

lemma kept_trans: "\<lbrakk>kept e C w H w'; kept e C w' H' w''\<rbrakk> \<Longrightarrow> kept e C w H' w''"
  by (simp add: kept_def)

lemma kept_owned: "kept e C w H w' \<Longrightarrow> owned e C w' H"
  by (simp add: kept_def)

lemma kept_then: "\<lbrakk>kept e C w H0 w1; returns (\<lambda>x. kept e C w1 (H x)) r\<rbrakk> \<Longrightarrow> returns (\<lambda>x. kept e C w (H x)) r"
  by (auto elim: returns_mono kept_trans)

lemma kept_thenE: "\<lbrakk>kept e C w H0 w1; owned e C w1 H0 \<Longrightarrow> returns (\<lambda>_. kept e C w1 H) r\<rbrakk> \<Longrightarrow> returns (\<lambda>_. kept e C w H) r"
  by (auto simp: kept_def elim: returns_mono)

context box_resource
begin

lemma to_mut_ptr_returns:
  "owned e C w (H + content C v) \<Longrightarrow> returns (\<lambda>p w'. \<exists>a. p = Ptr a \<and> owned e C w' (H + {#tok a#}) \<and> outside w' = outside w) (to_mut_ptr L v w)"
  using to_mut_ptr_owned [of e C w H v] by auto

lemma to_box_returns:
  "owned e C w (H + {#tok a#}) \<Longrightarrow>
     returns (\<lambda>b w'. \<exists>v. b = Some v \<and> owned e C w' (H + content C v) \<and> outside w' = outside w) (to_box L (Ptr a) w)"
  using to_box_owned [of e C w H a] by auto

end

context arc_resource
begin

lemma to_const_ptr_returns:
  "owned e C w (H + content C v) \<Longrightarrow> returns (\<lambda>p w'. \<exists>a. p = Ptr a \<and> kept e C w (H + {#tok a#}) w') (to_const_ptr L v w)"
  using to_const_ptr_owned [of e C w H v] by (auto simp: kept_def)

lemma to_arc_live_returns:
  "\<lbrakk>owned e C w H; hget L w a = Some i\<rbrakk> \<Longrightarrow> returns (\<lambda>r w'. r = Some a \<and> kept e C w (H + {#tok a#}) w') (to_arc L (Ptr a) w)"
  using to_arc_live_owned [of e C w H a i] by (auto simp: kept_def)

lemma to_arc_returns:
  "\<lbrakk>owned e C w H; tok a \<in># H\<rbrakk> \<Longrightarrow> returns (\<lambda>r w'. r = Some a \<and> kept e C w (H + {#tok a#}) w') (to_arc L (Ptr a) w)"
  using owned_live [of e C w H a] to_arc_live_returns by metis

lemma arc_drop_returns:
  "owned e C w (H + {#tok a#}) \<Longrightarrow> returns (\<lambda>r w'. kept e C w (H + opt_refs (content C) r) w') (arc_drop L a w)"
  using arc_drop_owned [of e C w H a] by (auto simp: kept_def)

end

section \<open>Dropping and cloning\<close>

abbreviation keys_refs :: "nat list \<Rightarrow> resource multiset" where
  "keys_refs ks \<equiv> image_mset RKey (mset ks)"

lemma drop_certified_key_returns:
  "owned e C w (H + key_refs ck) \<Longrightarrow> returns (\<lambda>_. kept e C w H) (drop_certified_key ck w)"
  by (auto simp: drop_certified_key_def key_refs_def opt_refs_def split: option.splits
      intro: returns_mono [OF signing_key_res.arc_drop_returns])

lemma release_certified_key_returns:
  assumes "owned e C w (H + {#RKey a#})"
  shows "returns (\<lambda>_. kept e C w H) (release_certified_key a w)"
  unfolding release_certified_key_def returns_and_then
  by (rule returns_mono [OF certified_key_res.arc_drop_returns [OF assms]])
    (auto split: option.splits elim!: kept_thenE intro: drop_certified_key_returns)

lemma release_keys_returns: "owned e C w (H + keys_refs ks) \<Longrightarrow> returns (\<lambda>_. kept e C w H) (release_keys ks w)"
proof (induction ks arbitrary: w)
  case (Cons k ks)
  then have "owned e C w (H + keys_refs ks + {#RKey k#})" by simp
  from release_certified_key_returns [OF this] show ?case
    by (simp, elim returns_mono) (auto intro: returns_mono [OF Cons.IH [OF kept_owned]] kept_trans)
qed (simp add: kept_def)

lemma clone_keys_returns:
  "\<lbrakk>owned e C w H; \<And>k. k \<in> set ks \<Longrightarrow> RKey k \<in># H\<rbrakk> \<Longrightarrow> returns (\<lambda>_. kept e C w (H + keys_refs ks)) (clone_keys ks w)"
proof (induction ks arbitrary: w H)
  case (Cons k ks)
  have "returns (\<lambda>_. kept e C w1 (H + {#RKey k#} + keys_refs ks)) (clone_keys ks w1)"
    if "kept e C w (H + {#RKey k#}) w1" for w1
    using Cons.IH [OF kept_owned [OF that]] Cons.prems(2) by simp
  with certified_key_res.to_arc_returns [OF Cons.prems(1), of k] Cons.prems(2) show ?case
    by (auto elim!: returns_mono intro: kept_then)
qed (simp add: kept_def)

lemma collect_keys_returns:
  assumes "owned e C w (H + keys_refs ks)" and "\<And>a. Ptr a \<in> set ps \<Longrightarrow> RKey a \<in># H"
  shows "returns (\<lambda>r. kept e C w (H + opt_refs keys_refs r)) (collect_keys ps ks w)"
  using assms
proof (induction ps arbitrary: w ks)
  case (Cons p ps)
  show ?case
  proof (cases p)
    case Null
    then show ?thesis
      using release_keys_returns [OF Cons.prems(1)] by (auto simp: to_arc_def elim: returns_mono)
  next
    case (Ptr a)
    then have "returns (\<lambda>r w'. r = Some a \<and> kept e C w (H + keys_refs ks + {#RKey a#}) w')
        (to_arc certified_key_heap (Ptr a) w)"
      using Cons.prems by (intro certified_key_res.to_arc_returns) auto
    moreover have "returns (\<lambda>r. kept e C w1 (H + opt_refs keys_refs r)) (collect_keys ps (ks @ [a]) w1)"
      if "kept e C w (H + keys_refs ks + {#RKey a#}) w1" for w1
      using Cons.IH [of w1 "ks @ [a]"] Cons.prems(2) kept_owned [OF that] by (simp add: ac_simps)
    ultimately show ?thesis using Ptr by (auto elim!: returns_mono intro: kept_then)
  qed
qed (simp add: kept_def)

lemma drop_client_resolver_returns:
  "owned e C w (H + opt_refs client_resolver_refs r) \<Longrightarrow> returns (\<lambda>_. kept e C w H) (drop_client_resolver r w)"
  by (auto simp: drop_client_resolver_def kept_self split: option.splits ResolvesClientCert.splits
      intro: release_keys_returns)

lemma drop_server_resolver_returns:
  "owned e C w (H + opt_refs server_resolver_refs r) \<Longrightarrow> returns (\<lambda>_. kept e C w H) (drop_server_resolver r w)"
  by (auto simp: drop_server_resolver_def kept_self split: option.splits ResolvesServerCert.splits
      intro: release_keys_returns)

lemma drop_client_cert_verifier_returns:
  "owned e C w (H + verifier_refs v) \<Longrightarrow> returns (\<lambda>_. kept e C w H) (drop_client_cert_verifier v w)"
  by (cases v) (auto simp: drop_client_cert_verifier_def opt_refs_def kept_self split: option.splits
      intro: returns_mono [OF client_verifier_res.arc_drop_returns] returns_mono [OF client_verifier_optional_res.arc_drop_returns])

lemma drop_server_builder_returns:
  assumes "owned e C w (H + server_builder_refs b)"
  shows "returns (\<lambda>_. kept e C w H) (drop_server_builder b w)"
proof -
  have "owned e C w (H + opt_refs server_resolver_refs (scb_cert_resolver b) + verifier_refs (scb_verifier b))"
    using assms by (simp add: server_builder_refs_def ac_simps)
  from drop_client_cert_verifier_returns [OF this] show ?thesis
    unfolding drop_server_builder_def returns_and_then
    by (rule returns_mono) (auto elim!: kept_thenE intro: drop_server_resolver_returns)
qed

lemma drop_server_config_returns:
  assumes "owned e C w (H + server_config_refs c)"
  shows "returns (\<lambda>_. kept e C w H) (drop_server_config c w)"
proof -
  have "owned e C w (H + opt_refs server_resolver_refs (Some (sc_cert_resolver c)) + verifier_refs (sc_verifier c))"
    using assms by (simp add: server_config_refs_def ac_simps)
  from drop_client_cert_verifier_returns [OF this] show ?thesis
    unfolding drop_server_config_def returns_and_then
    by (rule returns_mono) (auto elim!: kept_thenE intro: drop_server_resolver_returns)
qed

lemma release_server_config_returns:
  assumes "owned e C w (H + {#RServerConfig a#})"
  shows "returns (\<lambda>_. kept e C w H) (release_server_config a w)"
  unfolding release_server_config_def returns_and_then
  by (rule returns_mono [OF server_config_res.arc_drop_returns [OF assms]])
    (auto split: option.splits elim!: kept_thenE intro: drop_server_config_returns)

lemma release_client_config_returns:
  assumes "owned e C w (H + {#RClientConfig a#})"
  shows "returns (\<lambda>_. kept e C w H) (release_client_config a w)"
  unfolding release_client_config_def returns_and_then
  by (rule returns_mono [OF client_config_res.arc_drop_returns [OF assms]])
    (auto simp: client_config_refs_def split: option.splits
      elim!: kept_thenE intro: drop_client_resolver_returns)

lemma null_handles [simp]: "to_box L Null w = Returned None w" "to_arc K Null w = Returned None w"
  by (simp_all add: to_box_def to_arc_def)

end
