(* ===== verification/Ffi_Ownership_Api.thy ===== *)
theory Ffi_Ownership_Api
  imports Ffi_Ownership
begin

text \<open>
  What each entry point does to the ownership of objects: given handles that C owns, it returns (so it neither
  runs into undefined behaviour nor unwinds), and afterwards C owns what it had, less what the call took over and
  plus what it handed out.
\<close>

section \<open>Handles\<close>

definition ptr_refs :: "(nat \<Rightarrow> resource) \<Rightarrow> 'a ptr \<Rightarrow> resource multiset" where
  "ptr_refs tok p = (case p of Null \<Rightarrow> {#} | Ptr a \<Rightarrow> {#tok a#})"

definition may_borrow :: "(nat \<Rightarrow> resource) \<Rightarrow> 'a ptr \<Rightarrow> resource multiset \<Rightarrow> bool" where
  "may_borrow tok p H = (case p of Null \<Rightarrow> True | Ptr a \<Rightarrow> tok a \<in># H)"

lemma handle_simps [simp]:
  "ptr_refs tok Null = {#}" "ptr_refs tok (Ptr a) = {#tok a#}"
  "may_borrow tok Null H" "may_borrow tok (Ptr a) H = (tok a \<in># H)"
  by (simp_all add: ptr_refs_def may_borrow_def)

definition readable :: "(world, 'v) heap_lens \<Rightarrow> 'v sptr \<Rightarrow> usize \<Rightarrow> world \<Rightarrow> bool" where
  "readable L p n w = (p = SNull \<or> from_raw_parts L w p n \<noteq> None)"

section \<open>Entry points\<close>

text \<open>
  Freeing a key leaks what the key refers to when it drops the last reference, so the exact form of ownership survives only
  when it does not.
\<close>

definition not_last :: "CertifiedKey ptr \<Rightarrow> world \<Rightarrow> bool" where
  "not_last p w = (case p of Null \<Rightarrow> True | Ptr a \<Rightarrow> (case h_certified_key w a of None \<Rightarrow> True | Some i \<Rightarrow> 1 < strong i))"

lemma certified_key_free_owned:
  assumes "owned e C w (H + ptr_refs RKey p)" and "e \<longrightarrow> not_last p w"
  shows "returns (\<lambda>_ w'. owned e C w' H) (rustls_certified_key_free p w)"
proof (cases p)
  case (Ptr a)
  have "owned e C w (H + {#RKey a#})" using assms(1) Ptr by simp
  from certified_key_res.arc_drop_returns [OF this]
  obtain r w' where run: "arc_drop certified_key_heap a w = Returned r w'" "owned e C w' (H + opt_refs key_refs r)"
    by (auto simp: returns_def dest: kept_owned)
  moreover have "owned e C w' H"
  proof (cases e)
    case True
    then have "r = None"
      using run(1) assms(2) Ptr by (auto simp: arc_drop_def not_last_def split: option.splits if_splits)
    then show ?thesis using run(2) by simp
  next
    case False
    then show ?thesis using run(2) owned_less by auto
  qed
  ultimately show ?thesis
    using Ptr unfolding rustls_certified_key_free_def by (intro returns_boundary) (simp add: arc_drop_opaque_def)
qed (use assms(1) in \<open>simp add: rustls_certified_key_free_def entry_defs\<close>)

lemma verifier_free_owned:
  "owned e C w (H + ptr_refs RVerifier p) \<Longrightarrow> returns (\<lambda>_ w'. owned e C w' H) (rustls_client_cert_verifier_free p w)"
  "owned e C w (H + ptr_refs RVerifierOptional q) \<Longrightarrow> returns (\<lambda>_ w'. owned e C w' H) (rustls_client_cert_verifier_optional_free q w)"
  unfolding rustls_client_cert_verifier_free_def rustls_client_cert_verifier_optional_free_def arc_drop_opaque_def
  by (rule returns_boundary, cases p, auto intro: returns_mono [OF client_verifier_res.arc_drop_returns] dest!: kept_owned
      simp: opt_refs_def split: option.splits)
    (rule returns_boundary, cases q, auto intro: returns_mono [OF client_verifier_optional_res.arc_drop_returns] dest!: kept_owned
      simp: opt_refs_def split: option.splits)

lemma root_store_new_owned:
  "owned e C w H \<Longrightarrow> returns (\<lambda>p w'. owned e C w' (H + ptr_refs RRootStore p)) (rustls_root_cert_store_new w)"
  unfolding rustls_root_cert_store_new_def
  by (rule returns_boundary) (auto intro: returns_mono [OF root_store_res.to_mut_ptr_returns [where H = H]])

lemma root_store_free_owned:
  "owned e C w (H + ptr_refs RRootStore p) \<Longrightarrow> returns (\<lambda>_ w'. owned e C w' H) (rustls_root_cert_store_free p w)"
  unfolding rustls_root_cert_store_free_def try_box_from_ptr_def
  by (rule returns_boundary, cases p) (auto intro: returns_mono [OF root_store_res.to_box_returns])

lemma root_store_add_pem_owned:
  assumes "owned e C w H" and "may_borrow RRootStore p H" and "readable u8_mem pem n w"
  shows "returns (\<lambda>_ w'. owned e C w' H) (rustls_root_cert_store_add_pem certs add p pem n strict w)"
proof -
  have "\<exists>st. h_root_store w a = Some st" if "p = Ptr a" for a
    using root_store_res.owned_live [OF assms(1), of a] assms(2) that by auto
  then show ?thesis
    unfolding rustls_root_cert_store_add_pem_def
    using assms root_store_res.owned_update [OF assms(1)]
    by (intro returns_boundary, cases p) (auto simp: try_macro_defs readable_def split: option.splits prod.splits)
qed

lemma verifier_new_owned:
  assumes "owned e C w H" and "may_borrow RRootStore p H"
  shows "returns (\<lambda>q w'. owned e C w' (H + ptr_refs RVerifier q)) (rustls_client_cert_verifier_new p w)"
    and "returns (\<lambda>q w'. owned e C w' (H + ptr_refs RVerifierOptional q)) (rustls_client_cert_verifier_optional_new p w)"
proof -
  have "\<exists>st. h_root_store w a = Some st" if "p = Ptr a" for a
    using root_store_res.owned_live [OF assms(1), of a] assms(2) that by auto
  then show "returns (\<lambda>q w'. owned e C w' (H + ptr_refs RVerifier q)) (rustls_client_cert_verifier_new p w)"
    and "returns (\<lambda>q w'. owned e C w' (H + ptr_refs RVerifierOptional q)) (rustls_client_cert_verifier_optional_new p w)"
    unfolding rustls_client_cert_verifier_new_def rustls_client_cert_verifier_optional_new_def
    using assms
    by (cases p; auto simp: try_macro_defs intro: returns_mono [OF client_verifier_res.to_const_ptr_returns [where H = H]]
      returns_mono [OF client_verifier_optional_res.to_const_ptr_returns [where H = H]] dest!: kept_owned)+
qed

definition handed_out :: "(world \<Rightarrow> nat \<rightharpoonup> 'a ptr) \<Rightarrow> (nat \<Rightarrow> resource) \<Rightarrow> 'a ptr ptr \<Rightarrow> rustls_result \<Rightarrow> world \<Rightarrow> resource multiset" where
  "handed_out cells tok out r w =
     (case out of Null \<Rightarrow> {#} | Ptr o' \<Rightarrow> if r = Ok then opt_refs (ptr_refs tok) (cells w o') else {#})"

lemma outside_fields:
  assumes "outside w' = outside w"
  shows "m_u8 w' = m_u8 w" "m_u16 w' = m_u16 w" "m_slice w' = m_slice w" "m_suite w' = m_suite w" "m_key_ptr w' = m_key_ptr w"
    "m_conn_ptr w' = m_conn_ptr w" "m_client_builder_ptr w' = m_client_builder_ptr w"
    "m_server_builder_ptr w' = m_server_builder_ptr w" "USERDATA w' = USERDATA w"
  using assms by (simp_all add: outside_def)

lemma kept_fields:
  assumes "kept e C w H w'"
  shows "owned e C w' H" "outside w' = outside w" "h_connection w' = h_connection w"
    "h_client_builder w' = h_client_builder w" "h_server_builder w' = h_server_builder w" "h_root_store w' = h_root_store w"
  using assms by (simp_all add: kept_def boxes_def)

lemma owned_cells [simp]:
  "owned e C (w\<lparr>m_key_ptr := f1\<rparr>) H = owned e C w H" "owned e C (w\<lparr>m_conn_ptr := f2\<rparr>) H = owned e C w H"
  "owned e C (w\<lparr>m_client_builder_ptr := f3\<rparr>) H = owned e C w H" "owned e C (w\<lparr>m_server_builder_ptr := f4\<rparr>) H = owned e C w H"
  "owned e C (w\<lparr>USERDATA := f5\<rparr>) H = owned e C w H"
proof -
  have supply_same: "supply_of (w\<lparr>m_key_ptr := f1\<rparr>) r = supply_of w r" "supply_of (w\<lparr>m_conn_ptr := f2\<rparr>) r = supply_of w r"
    "supply_of (w\<lparr>m_client_builder_ptr := f3\<rparr>) r = supply_of w r" "supply_of (w\<lparr>m_server_builder_ptr := f4\<rparr>) r = supply_of w r"
    "supply_of (w\<lparr>USERDATA := f5\<rparr>) r = supply_of w r" for r
    by (cases r; simp)+
  show "owned e C (w\<lparr>m_key_ptr := f1\<rparr>) H = owned e C w H" "owned e C (w\<lparr>m_conn_ptr := f2\<rparr>) H = owned e C w H"
    "owned e C (w\<lparr>m_client_builder_ptr := f3\<rparr>) H = owned e C w H" "owned e C (w\<lparr>m_server_builder_ptr := f4\<rparr>) H = owned e C w H"
    "owned e C (w\<lparr>USERDATA := f5\<rparr>) H = owned e C w H"
    by (simp_all add: owned_def supply_same well_formed_iff refs_def)
qed

lemma certified_key_build_owned:
  assumes "owned e C w H" and "readable u8_mem chain n w" and "readable u8_mem key m w"
    and "\<And>cs k. ck_key (CertifiedKey_new cs k) = k"
  shows "returns (\<lambda>r w'. r \<noteq> Inl Ok \<and> kept e C w (H + (case r of Inl _ \<Rightarrow> {#} | Inr ck \<Rightarrow> key_refs ck)) w')
    (certified_key_build pkcs8 rsa any_type certs CertifiedKey_new chain n key m w)"
proof -
  let ?Q = "\<lambda>r w'. r \<noteq> Inl Ok \<and> kept e C w (H + (case r of Inl _ \<Rightarrow> {#} | Inr ck \<Rightarrow> key_refs ck)) w'"
  have finish: "returns ?Q
      (case p of Null \<Rightarrow> Undefined | Ptr signing_key \<Rightarrow>
        (case certs chain_pem of
           None \<Rightarrow> and_then (arc_drop signing_key_heap signing_key w1) (\<lambda>_ w. Returned (Inl CertificateParseError) w)
         | Some v \<Rightarrow> Returned (Inr (CertifiedKey_new (map Certificate v) signing_key)) w1))"
    if alloc: "\<exists>a. p = Ptr a \<and> kept e C w (H + {#RSigningKey a#}) w1" for p w1 chain_pem
  proof -
    obtain a where a: "p = Ptr a" "kept e C w (H + {#RSigningKey a#}) w1" using alloc by blast
    show ?thesis
      using a assms(4) signing_key_res.arc_drop_returns [OF kept_owned [OF a(2)]] kept_trans [OF a(2)]
      by (auto simp: key_refs_def opt_refs_def split: option.splits elim: returns_mono)
  qed
  have "returns (\<lambda>p w'. \<exists>a. p = Ptr a \<and> kept e C w (H + {#RSigningKey a#}) w') (to_const_ptr signing_key_heap sk w)" for sk
    using signing_key_res.to_const_ptr_returns [of e C w H sk] assms(1) by simp
  from returns_mono [OF this finish] show ?thesis
    using assms(1-3) kept_self [OF assms(1)]
    unfolding certified_key_build_def
    by (auto simp: readable_def split: option.splits sum.splits)
qed

text \<open>Making a shared object and handing it out through an out parameter.\<close>

lemma hand_out_key:
  assumes "kept e C w (H + key_refs ck) w1" and "m_key_ptr w o' \<noteq> None"
  shows "returns (\<lambda>r w'. owned e C w' (H + handed_out m_key_ptr RKey (Ptr o') r w'))
    (and_then (to_const_ptr certified_key_heap ck w1) (\<lambda>p w.
     and_then (write_cell key_ptr_mem (Ptr o') p w) (\<lambda>_ w. Returned Ok w)))"
proof -
  have "m_key_ptr w2 o' \<noteq> None" if "kept e C w1 H' w2" for H' w2
    using that assms by (simp add: kept_def outside_def)
  then show ?thesis
    using certified_key_res.to_const_ptr_returns [OF kept_owned [OF assms(1)]]
    by (auto simp: write_cell_def handed_out_def elim!: returns_mono dest: kept_owned split: option.splits)
qed

lemma key_build_owned:
  assumes "owned e C w H" and "readable u8_mem chain n w" and "readable u8_mem key m w"
    and "\<And>cs k. ck_key (CertifiedKey_new cs k) = k" and "\<And>o'. out = Ptr o' \<Longrightarrow> m_key_ptr w o' \<noteq> None"
  shows "returns (\<lambda>r w'. owned e C w' (H + handed_out m_key_ptr RKey out r w'))
    (rustls_certified_key_build pkcs8 rsa any_type certs CertifiedKey_new chain n key m out w)"
proof (cases out)
  case Null
  then show ?thesis
    using assms(1) by (simp add: rustls_certified_key_build_def entry_defs handed_out_def)
next
  case (Ptr o')
  have cell: "m_key_ptr w o' \<noteq> None" using Ptr assms(5) by simp
  have "returns (\<lambda>r w'. owned e C w' (H + handed_out m_key_ptr RKey out r w'))
      (case r of Inl rr \<Rightarrow> Returned rr w1
       | Inr ck \<Rightarrow> and_then (to_const_ptr certified_key_heap ck w1) (\<lambda>p w.
           and_then (write_cell key_ptr_mem out p w) (\<lambda>_ w. Returned Ok w)))"
    if "r \<noteq> Inl Ok \<and> kept e C w (H + (case r of Inl _ \<Rightarrow> {#} | Inr ck \<Rightarrow> key_refs ck)) w1" for r w1
    using that hand_out_key [OF _ cell, of e C H] Ptr
    by (auto simp: handed_out_def dest: kept_owned split: sum.splits)
  from returns_mono [OF certified_key_build_owned [OF assms(1-4)] this] show ?thesis
    unfolding rustls_certified_key_build_def
    using Ptr cell by (intro returns_boundary) (auto simp: try_macro_defs)
qed

lemma key_clone_owned:
  assumes "owned e C w H" and "may_borrow RKey p H" and "\<And>o'. out = Ptr o' \<Longrightarrow> m_key_ptr w o' \<noteq> None"
    and "\<And>a. ocsp = Ptr a \<Longrightarrow> \<exists>s. m_slice w a = Some s \<and> readable u8_mem (rsb_data s) (rsb_len s) w"
  shows "returns (\<lambda>r w'. owned e C w' (H + handed_out m_key_ptr RKey out r w'))
    (rustls_certified_key_clone_with_ocsp p ocsp out w)"
proof (cases "out = Null \<or> p = Null")
  case True
  then show ?thesis
    using assms(1,3) by (cases out) (auto simp: rustls_certified_key_clone_with_ocsp_def entry_defs handed_out_def)
next
  case False
  then obtain o' a where out: "out = Ptr o'" and p: "p = Ptr a" by (cases out; cases p) auto
  have cell: "m_key_ptr w o' \<noteq> None" using out assms(3) by simp
  obtain i where i: "h_certified_key w a = Some i"
    using certified_key_res.owned_live [OF assms(1), of a] assms(2) p by auto
  let ?ck = "arc_data i"
  obtain sk where sk: "h_signing_key w (ck_key ?ck) = Some sk"
    using certified_key_res.content_supplied [OF assms(1), of a i "RSigningKey (ck_key ?ck)"] i
    by (auto simp: key_refs_def supply_at_def split: option.splits)
  have "returns (\<lambda>r. kept e C w (H + key_refs ?ck)) (to_arc signing_key_heap (Ptr (ck_key ?ck)) w)"
    by (rule returns_mono [OF signing_key_res.to_arc_live_returns [OF assms(1)]]) (simp_all add: sk key_refs_def)
  moreover have "returns (\<lambda>r w'. owned e C w' (H + handed_out m_key_ptr RKey out r w'))
      (and_then (to_const_ptr certified_key_heap (?ck\<lparr>ck_ocsp := x\<rparr>) w1) (\<lambda>p w.
        and_then (write_cell key_ptr_mem out p w) (\<lambda>_ w. Returned Ok w)))"
    if "kept e C w (H + key_refs ?ck) w1" for w1 x
    using hand_out_key [of e C w H "?ck\<lparr>ck_ocsp := x\<rparr>" w1 o'] that cell out by (simp add: key_refs_def)
  moreover have "returns (\<lambda>r w'. owned e C w' (H + handed_out m_key_ptr RKey out r w'))
      (and_then (drop_certified_key ?ck w1) (\<lambda>_ w. Returned NullParameter w))"
    if "kept e C w (H + key_refs ?ck) w1" for w1
    using drop_certified_key_returns [OF kept_owned [OF that]] out
    by (auto simp: handed_out_def elim!: returns_mono dest: kept_owned)
  moreover have "from_raw_parts u8_mem w1 q l = from_raw_parts u8_mem w q l" "m_slice w1 = m_slice w"
    if "kept e C w H' w1" for H' w1 q l
    using that by (auto simp: kept_def outside_def intro: from_raw_parts_cong)
  ultimately show ?thesis
    unfolding rustls_certified_key_clone_with_ocsp_def
    using out p cell i assms(4)
    by (intro returns_boundary)
      (auto simp: try_macro_defs Let_def readable_def split: ptr.splits option.splits elim!: returns_mono)
qed


subsection \<open>Client configurations\<close>

text \<open>A handle that may be borrowed is null or live.\<close>

context resource_heap
begin

lemma borrowed_cases:
  assumes "owned e C w H" and "may_borrow tok p H"
  obtains (null) "p = Null" | (live) a v where "p = Ptr a" and "tok a \<in># H" and "hget L w a = Some v"
proof (cases p)
  case (Ptr a)
  then show ?thesis using owned_live [OF assms(1), of a] assms(2) that(2) by auto
qed (use that(1) in simp)

end

text \<open>A setting: the object at an address is replaced by one with the same references, if at all.\<close>

definition setting :: "(world, 'v) heap_lens \<Rightarrow> ('v \<Rightarrow> resource multiset) \<Rightarrow> nat \<Rightarrow> 'v \<Rightarrow> world \<Rightarrow> world \<Rightarrow> bool" where
  "setting L c a v w w' = (w' = w \<or> (\<exists>v'. c v' = c v \<and> w' = hput L a v' w))"

lemma setting_same: "setting L c a v w w"
  by (simp add: setting_def)

lemma setting_changed:
  "c b = c v \<Longrightarrow> setting client_builder_heap c a v w (w\<lparr>h_client_builder := (h_client_builder w)(a \<mapsto> b)\<rparr>)"
  "c' b' = c' v' \<Longrightarrow> setting server_builder_heap c' a v' w (w\<lparr>h_server_builder := (h_server_builder w)(a \<mapsto> b')\<rparr>)"
  "c'' b'' = c'' v'' \<Longrightarrow> setting root_store_heap c'' a v'' w (w\<lparr>h_root_store := (h_root_store w)(a \<mapsto> b'')\<rparr>)"
  "d b3 = d v3 \<Longrightarrow> setting connection_heap d a v3 w (w\<lparr>h_connection := (h_connection w)(a \<mapsto> b3)\<rparr>)"
  by (auto simp: setting_def)

lemmas setting_intros = setting_same setting_changed

context box_resource
begin

lemma setting_owned:
  assumes "owned e C w H" and "may_borrow tok p H"
    and "\<And>a v. hget L w a = Some v \<Longrightarrow> returns (\<lambda>_. setting L (content C) a v w) (k a v w)"
  shows "returns (\<lambda>_ w'. owned e C w' H) (try_mut_from_ptr L d p k w)"
  using assms(1,2)
proof (cases rule: borrowed_cases)
  case null
  then show ?thesis using assms(1) by (simp add: try_mut_from_ptr_cases)
next
  case (live a v)
  have "owned e C w' H" if "setting L (content C) a v w w'" for w'
    using that assms(1) owned_update [OF assms(1) live(3)] by (auto simp: setting_def)
  with assms(3) [OF live(3)] live show ?thesis
    by (auto simp: try_mut_from_ptr_cases elim: returns_mono)
qed

end

lemma collect_alpn_returns:
  "\<forall>p \<in> set ps. readable u8_mem (rsb_data p) (rsb_len p) w \<Longrightarrow> returns (\<lambda>_ w'. w' = w) (collect_alpn ps vv w)"
  by (induction ps arbitrary: vv) (auto simp: readable_def)

definition alpn_readable :: "rustls_slice_bytes sptr \<Rightarrow> usize \<Rightarrow> world \<Rightarrow> bool" where
  "alpn_readable p n w = (p = SNull \<or> (\<exists>ps. from_raw_parts slice_mem w p n = Some ps
     \<and> (\<forall>s \<in> set ps. readable u8_mem (rsb_data s) (rsb_len s) w)))"

lemma client_settings_owned:
  assumes "owned e C w H" and "may_borrow RClientBuilder p H"
  shows "returns (\<lambda>_ w'. owned e C w' H) (rustls_client_config_builder_dangerous_set_certificate_verifier p cb w)"
    and "may_borrow RRootStore st H \<Longrightarrow> returns (\<lambda>_ w'. owned e C w' H) (rustls_client_config_builder_use_roots p st w)"
    and "(\<And>f. file = Ptr f \<Longrightarrow> cstr_bytes (m_u8 w) f \<noteq> None) \<Longrightarrow>
      returns (\<lambda>_ w'. owned e C w' H) (rustls_client_config_builder_load_roots_from_file opn certs add p file w)"
    and "alpn_readable ps n w \<Longrightarrow> returns (\<lambda>_ w'. owned e C w' H) (rustls_client_config_builder_set_alpn_protocols p ps n w)"
    and "returns (\<lambda>_ w'. owned e C w' H) (rustls_client_config_builder_set_enable_sni p sni w)"
proof -
  note setting = client_builder_res.setting_owned [OF assms] and [intro!] = setting_intros
  note unfolds = rustls_client_config_builder_dangerous_set_certificate_verifier_def rustls_client_config_builder_use_roots_def
    rustls_client_config_builder_load_roots_from_file_def rustls_client_config_builder_set_alpn_protocols_def
    rustls_client_config_builder_set_enable_sni_def
  show "returns (\<lambda>_ w'. owned e C w' H) (rustls_client_config_builder_dangerous_set_certificate_verifier p cb w)"
    unfolding unfolds
    by (intro returns_boundary setting) (auto simp: client_builder_refs_def split: option.splits)
  show "returns (\<lambda>_ w'. owned e C w' H) (rustls_client_config_builder_use_roots p st w)" if "may_borrow RRootStore st H"
    unfolding unfolds
    by (intro returns_boundary setting, cases rule: root_store_res.borrowed_cases [OF assms(1) that])
      (auto simp: client_builder_refs_def try_ref_from_ptr_cases)
  show "returns (\<lambda>_ w'. owned e C w' H) (rustls_client_config_builder_load_roots_from_file opn certs add p file w)"
    if "\<And>f. file = Ptr f \<Longrightarrow> cstr_bytes (m_u8 w) f \<noteq> None"
    unfolding unfolds
    by (intro returns_boundary setting)
      (use that in \<open>auto simp: client_builder_refs_def split: option.splits ptr.splits prod.splits\<close>)
  show "returns (\<lambda>_ w'. owned e C w' H) (rustls_client_config_builder_set_alpn_protocols p ps n w)" if "alpn_readable ps n w"
    unfolding unfolds
    by (intro returns_boundary setting)
      (use that in \<open>auto simp: client_builder_refs_def alpn_readable_def try_slice_def
        intro!: returns_mono [OF collect_alpn_returns] split: option.splits\<close>)
  show "returns (\<lambda>_ w'. owned e C w' H) (rustls_client_config_builder_set_enable_sni p sni w)"
    unfolding unfolds by (intro returns_boundary setting) (auto simp: client_builder_refs_def)
qed

lemma client_builder_new_owned:
  "owned e C w H \<Longrightarrow> returns (\<lambda>p w'. owned e C w' (H + ptr_refs RClientBuilder p)) (rustls_client_config_builder_new base w)"
  unfolding rustls_client_config_builder_new_def
  by (rule returns_boundary)
    (auto simp: client_builder_refs_def intro: returns_mono [OF client_builder_res.to_mut_ptr_returns [where H = H]])

text \<open>Dropping references and changing a builder commute.\<close>

lemma release_keys_builder:
  "returns Q (release_keys ks (h_client_builder_update f w)) = returns (\<lambda>x w'. Q x (h_client_builder_update f w')) (release_keys ks w)"
  "returns Q (release_keys ks (h_server_builder_update g w)) = returns (\<lambda>x w'. Q x (h_server_builder_update g w')) (release_keys ks w)"
proof -
  have one: "returns P (release_certified_key a (h_client_builder_update f w))
      = returns (\<lambda>x w'. P x (h_client_builder_update f w')) (release_certified_key a w)"
    "returns P (release_certified_key a (h_server_builder_update g w))
      = returns (\<lambda>x w'. P x (h_server_builder_update g w')) (release_certified_key a w)" for P a w
    by (cases w; simp add: release_certified_key_def drop_certified_key_def arc_drop_def split: option.split)+
  show "returns Q (release_keys ks (h_client_builder_update f w)) = returns (\<lambda>x w'. Q x (h_client_builder_update f w')) (release_keys ks w)"
    by (induction ks arbitrary: w) (simp_all add: one)
  show "returns Q (release_keys ks (h_server_builder_update g w)) = returns (\<lambda>x w'. Q x (h_server_builder_update g w')) (release_keys ks w)"
    by (induction ks arbitrary: w) (simp_all add: one)
qed

lemma drop_builder:
  "returns Q (drop_client_resolver r (h_client_builder_update f w)) = returns (\<lambda>x w'. Q x (h_client_builder_update f w')) (drop_client_resolver r w)"
  "returns Q (drop_server_resolver r' (h_server_builder_update g w)) = returns (\<lambda>x w'. Q x (h_server_builder_update g w')) (drop_server_resolver r' w)"
  "returns Q (drop_client_cert_verifier v (h_server_builder_update g w))
     = returns (\<lambda>x w'. Q x (h_server_builder_update g w')) (drop_client_cert_verifier v w)"
  by (simp_all add: drop_client_resolver_def drop_server_resolver_def release_keys_builder
      split: option.split ResolvesClientCert.split ResolvesServerCert.split)
    (cases w; simp add: drop_client_cert_verifier_def arc_drop_def split: option.split ResolvesClientCert.split ResolvesServerCert.split ClientCertVerifier.split)

text \<open>Replacing the resolver of a builder and dropping the old one.\<close>

lemma replace_client_resolver:
  assumes "owned e C w (H + opt_refs client_resolver_refs r)" and "h_client_builder w a = Some b"
  shows "returns (\<lambda>_ w'. owned e C (hput client_builder_heap a (b\<lparr>ccb_cert_resolver := r\<rparr>) w') H)
    (drop_client_resolver (ccb_cert_resolver b) w)"
proof -
  let ?f = "\<lambda>h. h(a \<mapsto> b\<lparr>ccb_cert_resolver := r\<rparr>)"
  have "owned e C (h_client_builder_update ?f w) (H + opt_refs client_resolver_refs (ccb_cert_resolver b))"
    using client_builder_res.owned_exchange [OF assms(1), where a = a and v = b and v' = "b\<lparr>ccb_cert_resolver := r\<rparr>"
      and H' = "H + opt_refs client_resolver_refs (ccb_cert_resolver b)"] assms(2)
    unfolding hput_def by (simp add: client_builder_refs_def)
  from drop_client_resolver_returns [OF this] show ?thesis
    unfolding drop_builder hput_def by (auto elim!: returns_mono dest: kept_owned)
qed

lemma replace_server_resolver:
  assumes "owned e C w (H + opt_refs server_resolver_refs r)" and "h_server_builder w a = Some b"
  shows "returns (\<lambda>_ w'. owned e C (hput server_builder_heap a (b\<lparr>scb_cert_resolver := r\<rparr>) w') H)
    (drop_server_resolver (scb_cert_resolver b) w)"
proof -
  let ?f = "\<lambda>h. h(a \<mapsto> b\<lparr>scb_cert_resolver := r\<rparr>)"
  have "owned e C (h_server_builder_update ?f w) (H + opt_refs server_resolver_refs (scb_cert_resolver b))"
    using server_builder_res.owned_exchange [OF assms(1), where a = a and v = b and v' = "b\<lparr>scb_cert_resolver := r\<rparr>"
      and H' = "H + opt_refs server_resolver_refs (scb_cert_resolver b)"] assms(2)
    unfolding hput_def by (simp add: server_builder_refs_def)
  from drop_server_resolver_returns [OF this] show ?thesis
    unfolding drop_builder hput_def by (auto elim!: returns_mono dest: kept_owned)
qed

lemma replace_client_verifier:
  assumes "owned e C w (H + verifier_refs v)" and "h_server_builder w a = Some b"
  shows "returns (\<lambda>_ w'. owned e C (hput server_builder_heap a (b\<lparr>scb_verifier := v\<rparr>) w') H)
    (drop_client_cert_verifier (scb_verifier b) w)"
proof -
  let ?f = "\<lambda>h. h(a \<mapsto> b\<lparr>scb_verifier := v\<rparr>)"
  have "owned e C (h_server_builder_update ?f w) (H + verifier_refs (scb_verifier b))"
    using server_builder_res.owned_exchange [OF assms(1), where a = a and v = b and v' = "b\<lparr>scb_verifier := v\<rparr>"
      and H' = "H + verifier_refs (scb_verifier b)"] assms(2)
    unfolding hput_def by (simp add: server_builder_refs_def)
  from drop_client_cert_verifier_returns [OF this] show ?thesis
    unfolding drop_builder hput_def by (auto elim!: returns_mono dest: kept_owned)
qed

definition keys_readable :: "CertifiedKey ptr sptr \<Rightarrow> usize \<Rightarrow> resource multiset \<Rightarrow> world \<Rightarrow> bool" where
  "keys_readable p n H w = (p = SNull \<or> (\<exists>ps. from_raw_parts key_ptr_mem w p n = Some ps
     \<and> (\<forall>q \<in> set ps. may_borrow RKey q H)))"

lemma client_set_keys_owned:
  assumes "owned e C w H" and "may_borrow RClientBuilder p H" and "keys_readable ptrs n H w"
  shows "returns (\<lambda>_ w'. owned e C w' H) (rustls_client_config_builder_set_certified_key p ptrs n w)"
  using assms(1,2)
proof (cases rule: client_builder_res.borrowed_cases)
  case null
  then show ?thesis using assms(1) by (simp add: rustls_client_config_builder_set_certified_key_def entry_defs)
next
  case (live a b)
  let ?k = "\<lambda>r w1. case r of None \<Rightarrow> Returned NullParameter w1
       | Some ks \<Rightarrow> and_then (drop_client_resolver (ccb_cert_resolver b) w1) (\<lambda>_ w2.
          Returned Ok (hput client_builder_heap a (b\<lparr>ccb_cert_resolver := Some (ResolvesClientCertFromChoices ks)\<rparr>) w2))"
  have step: "returns (\<lambda>_ w'. owned e C w' H) (?k r w1)" if kept: "kept e C w (H + opt_refs keys_refs r) w1" for r w1
    using replace_client_resolver [of e C w1 H "Some (ResolvesClientCertFromChoices (the r))" a b] kept_fields [OF kept] live
    by (cases r) auto
  have "returns (\<lambda>_ w'. owned e C w' H) (and_then (collect_keys ps [] w) ?k)" if "\<forall>q \<in> set ps. may_borrow RKey q H" for ps
    unfolding returns_and_then
    by (rule returns_mono [OF collect_keys_returns step]) (use that assms(1) in auto)
  then show ?thesis
    unfolding rustls_client_config_builder_set_certified_key_def
    using live assms(1,3)
    by (intro returns_boundary)
      (auto simp: try_macro_defs keys_readable_def simp del: hput_lens returns_and_then)
qed

lemma client_build_owned:
  assumes "owned e C w (H + ptr_refs RClientBuilder p)"
    and "\<And>b v r. cc_cert_resolver (with_client_cert_resolver b v r) = Some r"
    and "\<And>b v. cc_cert_resolver (with_no_client_auth b v) = None"
  shows "returns (\<lambda>q w'. owned e C w' (H + ptr_refs RClientConfig q))
    (rustls_client_config_builder_build with_client_cert_resolver with_no_client_auth p w)"
proof (cases p)
  case (Ptr a)
  let ?c = "\<lambda>b. (case ccb_cert_resolver b of
        Some r \<Rightarrow> with_client_cert_resolver (ccb_base b) (ccb_verifier b) r
      | None \<Rightarrow> with_no_client_auth (ccb_base b) (ccb_verifier b))
     \<lparr>cc_alpn_protocols := ccb_alpn_protocols b, cc_enable_sni := ccb_enable_sni b\<rparr>"
  have "client_config_refs (?c b) = client_builder_refs b" for b
    using assms(2,3) by (simp add: client_config_refs_def client_builder_refs_def split: option.split)
  then have "returns (\<lambda>q w'. owned e C w' (H + ptr_refs RClientConfig q)) (to_const_ptr client_config_heap (?c b) w1)"
    if "owned e C w1 (H + client_builder_refs b)" for b w1
    using that by (auto intro!: returns_mono [OF client_config_res.to_const_ptr_returns [where H = H]] dest: kept_owned)
  then show ?thesis
    unfolding rustls_client_config_builder_build_def try_box_from_ptr_def Let_def Ptr
    using assms(1) Ptr by (intro returns_boundary) (auto intro!: returns_mono [OF client_builder_res.to_box_returns [where H = H]])
qed (use assms(1) in \<open>simp add: rustls_client_config_builder_build_def try_box_from_ptr_def entry_defs\<close>)

lemma client_builder_free_owned:
  assumes "owned e C w (H + ptr_refs RClientBuilder p)"
  shows "returns (\<lambda>_ w'. owned e C w' H) (rustls_client_config_builder_free p w)"
  unfolding rustls_client_config_builder_free_def
  using assms
  by (intro returns_boundary, cases p)
    (auto simp: client_builder_refs_def intro!: returns_mono [OF client_builder_res.to_box_returns]
      returns_mono [OF drop_client_resolver_returns] dest: kept_owned)

lemma client_config_free_owned:
  assumes "owned e C w (H + ptr_refs RClientConfig p)"
  shows "returns (\<lambda>_ w'. owned e C w' H) (rustls_client_config_free p w)"
proof -
  have "returns (\<lambda>_ w'. owned e C w' H) (release_client_config a w)" if "p = Ptr a" for a
    using release_client_config_returns [of e C w H a] assms that by (auto elim!: returns_mono dest: kept_owned)
  then show ?thesis
    unfolding rustls_client_config_free_def release_client_config_def
    using assms by (intro returns_boundary, cases p) (simp_all del: returns_and_then)
qed

lemma handed_out_failed [simp]: "r \<noteq> Ok \<Longrightarrow> handed_out cells tok out r w = {#}"
  by (simp add: handed_out_def split: ptr.split)

lemma collect_suites_not_Ok: "collect_suites eq all xs acc = Inl e \<Longrightarrow> e \<noteq> Ok"
  by (induction eq all xs acc rule: collect_suites.induct) (auto split: option.splits)

text \<open>Making a box and handing it out through an out parameter.\<close>

lemma hand_out_box:
  "\<lbrakk>owned e C w (H + client_builder_refs b); m_client_builder_ptr w o' \<noteq> None\<rbrakk> \<Longrightarrow>
     returns (\<lambda>r w'. owned e C w' (H + handed_out m_client_builder_ptr RClientBuilder (Ptr o') r w'))
       (and_then (set_mut_ptr client_builder_heap client_builder_ptr_mem (Ptr o') b w) (\<lambda>_ w. Returned Ok w))"
  "\<lbrakk>owned e C w (H + server_builder_refs b'); m_server_builder_ptr w o' \<noteq> None\<rbrakk> \<Longrightarrow>
     returns (\<lambda>r w'. owned e C w' (H + handed_out m_server_builder_ptr RServerBuilder (Ptr o') r w'))
       (and_then (set_mut_ptr server_builder_heap server_builder_ptr_mem (Ptr o') b' w) (\<lambda>_ w. Returned Ok w))"
  "\<lbrakk>owned e C w (H + C (conn_inner c)); m_conn_ptr w o' \<noteq> None\<rbrakk> \<Longrightarrow>
     returns (\<lambda>r w'. owned e C w' (H + handed_out m_conn_ptr RConnection (Ptr o') r w'))
       (and_then (set_mut_ptr connection_heap conn_ptr_mem (Ptr o') c w) (\<lambda>_ w. Returned Ok w))"
  using client_builder_res.owned_alloc [of e C w H b] server_builder_res.owned_alloc [of e C w H b'] connection_res.owned_alloc [of e C w H c]
  by (auto simp: set_mut_ptr_def to_mut_ptr_def Let_def write_cell_def handed_out_def)

lemma client_new_custom_owned:
  assumes "owned e C w H" and "readable suite_mem suites n w" and "readable u16_mem vs m w"
    and "out = Ptr o'" and "m_client_builder_ptr w o' \<noteq> None"
  shows "returns (\<lambda>r w'. owned e C w' (H + handed_out m_client_builder_ptr RClientBuilder out r w'))
    (rustls_client_config_builder_new_custom eq all pf version with_versions suites n vs m out w)"
  unfolding rustls_client_config_builder_new_custom_def
  using assms hand_out_box(1) [of e C w H _ o']
  by (intro returns_boundary)
    (auto simp: try_slice_def readable_def Let_def client_builder_refs_def
      simp del: returns_and_then dest: collect_suites_not_Ok split: option.splits sum.splits)

lemma server_new_custom_owned:
  assumes "owned e C w H" and "readable suite_mem suites n w" and "readable u16_mem vs m w"
    and "out = Ptr o'" and "m_server_builder_ptr w o' \<noteq> None"
  shows "returns (\<lambda>r w'. owned e C w' (H + handed_out m_server_builder_ptr RServerBuilder out r w'))
    (rustls_server_config_builder_new_custom eq all pf version with_versions suites n vs m out w)"
  unfolding rustls_server_config_builder_new_custom_def
  using assms hand_out_box(2) [of e C w H _ o']
  by (intro returns_boundary)
    (auto simp: try_slice_def readable_def Let_def server_builder_refs_def
      simp del: returns_and_then dest: collect_suites_not_Ok split: option.splits sum.splits)

subsection \<open>Server configurations\<close>

lemma server_settings_owned:
  assumes "owned e C w H" and "may_borrow RServerBuilder p H"
  shows "returns (\<lambda>_ w'. owned e C w' H) (rustls_server_config_builder_set_ignore_client_order p i w)"
    and "alpn_readable ps n w \<Longrightarrow> returns (\<lambda>_ w'. owned e C w' H) (rustls_server_config_builder_set_alpn_protocols p ps n w)"
    and "returns (\<lambda>_ w'. owned e C w' H) (rustls_server_config_builder_set_persistence p get put w)"
proof -
  note setting = server_builder_res.setting_owned [OF assms] and [intro!] = setting_intros
  note unfolds = rustls_server_config_builder_set_ignore_client_order_def rustls_server_config_builder_set_alpn_protocols_def
    rustls_server_config_builder_set_persistence_def
  show "returns (\<lambda>_ w'. owned e C w' H) (rustls_server_config_builder_set_ignore_client_order p i w)"
    unfolding unfolds by (intro returns_boundary setting) (auto simp: server_builder_refs_def)
  show "returns (\<lambda>_ w'. owned e C w' H) (rustls_server_config_builder_set_alpn_protocols p ps n w)" if "alpn_readable ps n w"
    unfolding unfolds
    by (intro returns_boundary setting)
      (use that in \<open>auto simp: server_builder_refs_def alpn_readable_def try_slice_def
        intro!: returns_mono [OF collect_alpn_returns] split: option.splits\<close>)
  show "returns (\<lambda>_ w'. owned e C w' H) (rustls_server_config_builder_set_persistence p get put w)"
    unfolding unfolds
    by (rule returns_boundary, cases get; cases put)
      (use assms(1) in \<open>auto simp: server_builder_refs_def intro!: setting\<close>)
qed

lemma server_builder_new_owned:
  "owned e C w H \<Longrightarrow> returns (\<lambda>p w'. owned e C w' (H + ptr_refs RServerBuilder p)) (rustls_server_config_builder_new base w)"
  unfolding rustls_server_config_builder_new_def
  by (rule returns_boundary)
    (auto simp: server_builder_refs_def intro: returns_mono [OF server_builder_res.to_mut_ptr_returns [where H = H]])

lemma server_set_hello_owned:
  assumes "owned e C w H" and "may_borrow RServerBuilder p H"
  shows "returns (\<lambda>_ w'. owned e C w' H) (rustls_server_config_builder_set_hello_callback p cb w)"
  using assms(1,2)
proof (cases rule: server_builder_res.borrowed_cases)
  case null
  then show ?thesis
    using assms(1) by (simp add: rustls_server_config_builder_set_hello_callback_def entry_defs split: option.split)
next
  case (live a b)
  then show ?thesis
    unfolding rustls_server_config_builder_set_hello_callback_def
    using assms(1) replace_server_resolver [of e C w H "Some (ClientHelloResolver (the cb))" a b]
    by (intro returns_boundary) (auto simp: try_macro_defs split: option.split)
qed

lemma server_set_verifier_owned:
  assumes "owned e C w H" and "may_borrow RServerBuilder p H"
  shows "may_borrow RVerifier v H \<Longrightarrow> returns (\<lambda>_ w'. owned e C w' H) (rustls_server_config_builder_set_client_verifier p v w)"
    and "may_borrow RVerifierOptional v' H \<Longrightarrow>
      returns (\<lambda>_ w'. owned e C w' H) (rustls_server_config_builder_set_client_verifier_optional p v' w)"
proof -
  note unfolds = rustls_server_config_builder_set_client_verifier_def rustls_server_config_builder_set_client_verifier_optional_def
  have replaced: "returns (\<lambda>_ w'. owned e C w' H) (and_then (drop_client_cert_verifier (scb_verifier b) w1) (\<lambda>_ w.
       Returned () (hput server_builder_heap a (b\<lparr>scb_verifier := x\<rparr>) w)))"
    if "kept e C w (H + verifier_refs x) w1" "h_server_builder w a = Some b" for a b x w1
    using replace_client_verifier [of e C w1 H x a b] kept_fields [OF that(1)] that(2) by simp
  show "returns (\<lambda>_ w'. owned e C w' H) (rustls_server_config_builder_set_client_verifier p v w)" if v: "may_borrow RVerifier v H"
  proof (cases rule: server_builder_res.borrowed_cases [OF assms])
    case (2 a b)
    then show ?thesis
      unfolding unfolds try_arc_from_ptr_def
      using assms(1) v replaced [of "VerifyRequired _"]
      by (intro returns_boundary, cases v)
        (auto simp: try_macro_defs simp del: hput_lens intro!: returns_mono [OF client_verifier_res.to_arc_returns [OF assms(1)]])
  qed (use assms(1) in \<open>simp add: unfolds entry_defs\<close>)
  show "returns (\<lambda>_ w'. owned e C w' H) (rustls_server_config_builder_set_client_verifier_optional p v' w)"
    if v: "may_borrow RVerifierOptional v' H"
  proof (cases rule: server_builder_res.borrowed_cases [OF assms])
    case (2 a b)
    then show ?thesis
      unfolding unfolds try_arc_from_ptr_def
      using assms(1) v replaced [of "VerifyOptional _"]
      by (intro returns_boundary, cases v')
        (auto simp: try_macro_defs simp del: hput_lens intro!: returns_mono [OF client_verifier_optional_res.to_arc_returns [OF assms(1)]])
  qed (use assms(1) in \<open>simp add: unfolds entry_defs\<close>)
qed

lemma server_set_keys_owned:
  assumes "owned e C w H" and "may_borrow RServerBuilder p H" and "keys_readable ptrs n H w"
  shows "returns (\<lambda>_ w'. owned e C w' H) (rustls_server_config_builder_set_certified_keys p ptrs n w)"
  using assms(1,2)
proof (cases rule: server_builder_res.borrowed_cases)
  case null
  then show ?thesis using assms(1) by (simp add: rustls_server_config_builder_set_certified_keys_def entry_defs)
next
  case (live a b)
  let ?set = "\<lambda>ks resolver w. and_then (drop_server_resolver (scb_cert_resolver b) w) (\<lambda>_ w.
        and_then (release_keys ks (hput server_builder_heap a (b\<lparr>scb_cert_resolver := Some resolver\<rparr>) w)) (\<lambda>_ w. Returned Ok w))"
  let ?k = "\<lambda>r w1. case r of None \<Rightarrow> Returned NullParameter w1
       | Some ks \<Rightarrow> and_then (ResolvesServerCertFromChoices_new ks w1) (?set ks)"
  have set: "returns (\<lambda>_ w'. owned e C w' H) (?set ks (ResolvesServerCertFromChoices ks) w2)"
    if "owned e C w2 (H + keys_refs ks + keys_refs ks)" "h_server_builder w2 a = Some b" for ks w2
  proof -
    have "returns (\<lambda>_ w'. owned e C w' H) (and_then (release_keys ks w3) (\<lambda>_ w. Returned Ok w))"
      if "owned e C w3 (H + keys_refs ks)" for w3
      using release_keys_returns [OF that] by (auto elim: returns_mono dest: kept_owned)
    from returns_mono [OF replace_server_resolver [of e C w2 "H + keys_refs ks" "Some (ResolvesServerCertFromChoices ks)" a b] this]
    show ?thesis using that by simp
  qed
  have step: "returns (\<lambda>_ w'. owned e C w' H) (?k r w1)" if kept: "kept e C w (H + opt_refs keys_refs r) w1" for r w1
  proof (cases r)
    case (Some ks)
    have "returns (\<lambda>_. kept e C w1 (H + keys_refs ks + keys_refs ks)) (clone_keys ks w1)"
      using clone_keys_returns [of e C w1 "H + keys_refs ks" ks] kept_owned [OF kept] Some by simp
    with Some show ?thesis
      unfolding ResolvesServerCertFromChoices_new_def
      using set kept_fields [OF kept] live kept_fields
      by (auto simp del: hput_lens elim!: returns_mono)
  qed (use kept_owned [OF kept] in simp)
  have "returns (\<lambda>_ w'. owned e C w' H) (and_then (collect_keys ps [] w) ?k)" if "\<forall>q \<in> set ps. may_borrow RKey q H" for ps
    unfolding returns_and_then
    by (rule returns_mono [OF collect_keys_returns step]) (use that assms(1) in auto)
  then show ?thesis
    unfolding rustls_server_config_builder_set_certified_keys_def
    using live assms(1,3)
    by (intro returns_boundary)
      (auto simp: try_macro_defs keys_readable_def simp del: hput_lens returns_and_then)
qed

lemma server_build_owned:
  assumes "owned e C w (H + ptr_refs RServerBuilder p)"
    and "\<And>b v r. sc_verifier (with_cert_resolver b v r) = v" and "\<And>b v r. sc_cert_resolver (with_cert_resolver b v r) = r"
  shows "returns (\<lambda>q w'. owned e C w' (H + ptr_refs RServerConfig q)) (rustls_server_config_builder_build with_cert_resolver p w)"
proof (cases p)
  case (Ptr a)
  have dropped: "returns (\<lambda>q w'. owned e C w' (H + ptr_refs RServerConfig q))
      (and_then (drop_server_builder b w1) (\<lambda>_ w. Returned Null w))"
    if "owned e C w1 (H + server_builder_refs b)" for b w1
    using drop_server_builder_returns [OF that] by (auto elim: returns_mono dest: kept_owned)
  have made: "returns (\<lambda>q w'. owned e C w' (H + ptr_refs RServerConfig q)) (to_const_ptr server_config_heap c w1)"
    if "owned e C w1 (H + server_config_refs c)" for c w1
    using server_config_res.to_const_ptr_returns [OF that] by (auto elim!: returns_mono dest: kept_owned)
  show ?thesis
    unfolding rustls_server_config_builder_build_def try_box_from_ptr_def Let_def Ptr
    using assms Ptr dropped made
    by (intro returns_boundary)
      (auto simp: server_config_refs_def server_builder_refs_def
        intro!: returns_mono [OF server_builder_res.to_box_returns [where H = H]] split: option.splits)
qed (use assms(1) in \<open>simp add: rustls_server_config_builder_build_def try_box_from_ptr_def entry_defs\<close>)

lemma server_builder_free_owned:
  assumes "owned e C w (H + ptr_refs RServerBuilder p)"
  shows "returns (\<lambda>_ w'. owned e C w' H) (rustls_server_config_builder_free p w)"
  unfolding rustls_server_config_builder_free_def
  using assms
  by (intro returns_boundary, cases p)
    (auto intro!: returns_mono [OF server_builder_res.to_box_returns]
      returns_mono [OF drop_server_builder_returns] dest: kept_owned)

lemma server_config_free_owned:
  assumes "owned e C w (H + ptr_refs RServerConfig p)"
  shows "returns (\<lambda>_ w'. owned e C w' H) (rustls_server_config_free p w)"
  unfolding rustls_server_config_free_def
  using assms
  by (intro returns_boundary, cases p)
    (auto intro!: returns_mono [OF release_server_config_returns] dest: kept_owned)

subsection \<open>Connections\<close>

definition makes_connection :: "bool \<Rightarrow> connection_refs \<Rightarrow> (nat \<Rightarrow> resource) \<Rightarrow> ('c \<Rightarrow> rustls_Connection) \<Rightarrow>
    (nat \<Rightarrow> (world, rustls_Error + 'c) comp) \<Rightarrow> bool" where
  "makes_connection e C tok conn new =
     (\<forall>config w H. owned e C w (H + {#tok config#}) \<longrightarrow>
        returns (\<lambda>r. kept e C w (H + (case r of Inl _ \<Rightarrow> {#} | Inr c \<Rightarrow> C (conn c)))) (new config w))"

lemma makes_connectionD:
  "\<lbrakk>makes_connection e C tok conn new; owned e C w (H + {#tok config#})\<rbrakk> \<Longrightarrow>
     returns (\<lambda>r. kept e C w (H + (case r of Inl _ \<Rightarrow> {#} | Inr c \<Rightarrow> C (conn c)))) (new config w)"
  by (simp add: makes_connection_def)

lemma server_connection_new_owned:
  assumes "owned e C w H" and "may_borrow RServerConfig p H" and "makes_connection e C RServerConfig Server new"
    and "out = Ptr o'" and "m_conn_ptr w o' \<noteq> None"
  shows "returns (\<lambda>r w'. owned e C w' (H + handed_out m_conn_ptr RConnection out r w')) (rustls_server_connection_new new p out w)"
proof (cases p)
  case (Ptr a)
  let ?k = "\<lambda>r w. case r of Inl e \<Rightarrow> Returned (map_error e) w
       | Inr server_connection \<Rightarrow>
           and_then (set_mut_ptr connection_heap conn_ptr_mem out (from_server server_connection) w) (\<lambda>_ w. Returned Ok w)"
  have step: "returns (\<lambda>r w'. owned e C w' (H + handed_out m_conn_ptr RConnection out r w')) (?k r w1)"
    if "kept e C w (H + (case r of Inl _ \<Rightarrow> {#} | Inr c \<Rightarrow> C (Server c))) w1" for r w1
    using that assms(4,5) hand_out_box(3) [of e C w1 H "from_server (projr r)" o'] outside_fields(6) [of w1 w]
    by (auto simp: kept_def from_server_def split: sum.splits)
  have "returns (\<lambda>r w'. owned e C w' (H + handed_out m_conn_ptr RConnection out r w')) (and_then (new a w1) ?k)"
    if kept: "kept e C w (H + {#RServerConfig a#}) w1" for w1
    unfolding returns_and_then
    by (rule returns_mono [OF kept_then [OF kept makes_connectionD [OF assms(3) kept_owned [OF kept]]] step])
  with assms(1,2) Ptr show ?thesis
    unfolding rustls_server_connection_new_def try_arc_from_ptr_def
    by (intro returns_boundary) (auto
        intro!: returns_mono [OF server_config_res.to_arc_returns [OF assms(1)]])
qed (use assms(1) in \<open>simp add: rustls_server_connection_new_def try_arc_from_ptr_def entry_defs\<close>)

lemma client_connection_new_owned:
  assumes "owned e C w H" and "may_borrow RClientConfig p H" and "\<And>sn. makes_connection e C RClientConfig Client (\<lambda>c. new c sn)"
    and "out = Ptr o'" and "m_conn_ptr w o' \<noteq> None" and "\<And>h. host = Ptr h \<Longrightarrow> cstr_bytes (m_u8 w) h \<noteq> None"
  shows "returns (\<lambda>r w'. owned e C w' (H + handed_out m_conn_ptr RConnection out r w'))
    (rustls_client_connection_new ServerName_try_from new p host out w)"
proof (cases host)
  case (Ptr h)
  let ?Q = "\<lambda>r w'. owned e C w' (H + handed_out m_conn_ptr RConnection out r w')"
  let ?k = "\<lambda>r w. case r of Inl _ \<Rightarrow> Unwound w
       | Inr client \<Rightarrow> and_then (set_mut_ptr connection_heap conn_ptr_mem out (from_client client) w) (\<lambda>_ w. Returned Ok w)"
  obtain name where name: "cstr_bytes (m_u8 w) h = Some name" using assms(6) Ptr by blast
  have refused: "returns ?Q (ffi_panic_boundary rr_ret (\<lambda>w. and_then (release_client_config a w) (\<lambda>_ w. Returned InvalidDnsNameError w)) w1)"
    if "kept e C w (H + {#RClientConfig a#}) w1" for a w1
    using release_client_config_returns [OF kept_owned [OF that]]
    by (intro returns_boundary) (auto elim: returns_mono dest: kept_owned)
  have step: "returns ?Q (ffi_panic_boundary rr_ret (?k r) w1)"
    if "kept e C w (H + (case r of Inl _ \<Rightarrow> {#} | Inr c \<Rightarrow> C (Client c))) w1" for r w1
  proof (cases r)
    case (Inl e)
    then show ?thesis using that by (simp add: kept_def ffi_panic_boundary_def)
  next
    case (Inr c)
    then show ?thesis
      using that assms(4,5) hand_out_box(3) [of e C w1 H "from_client c" o'] outside_fields(6) [of w1 w]
      by (intro returns_boundary) (auto simp: kept_def from_client_def)
  qed
  have made: "returns ?Q (ffi_panic_boundary rr_ret (\<lambda>w. and_then (new a sn w) ?k) w1)"
    if kept: "kept e C w (H + {#RClientConfig a#}) w1" for a sn w1
  proof -
    have "returns (\<lambda>r w2. returns ?Q (ffi_panic_boundary rr_ret (?k r) w2)) (new a sn w1)"
      by (rule returns_mono [OF kept_then [OF kept makes_connectionD [OF assms(3) kept_owned [OF kept]]] step])
    then show ?thesis by (auto simp: returns_def ffi_panic_boundary_def)
  qed
  show ?thesis
  proof (cases p)
    case Null
    then show ?thesis
      using assms(1) Ptr name by (simp add: rustls_client_connection_new_def ffi_panic_boundary_def try_arc_from_ptr_def)
  next
    case p: (Ptr a)
    have "returns (\<lambda>r w'. r = Some a \<and> kept e C w (H + {#RClientConfig a#}) w') (to_arc client_config_heap (Ptr a) w)"
      using client_config_res.to_arc_returns [OF assms(1)] assms(2) p by simp
    then obtain w1 where w1: "to_arc client_config_heap (Ptr a) w = Returned (Some a) w1" "kept e C w (H + {#RClientConfig a#}) w1"
      by (auto simp: returns_def)
    show ?thesis
      using refused [OF w1(2)] made [OF w1(2)] Ptr p name w1(1)
      unfolding rustls_client_connection_new_def try_arc_from_ptr_def
      by (auto simp: ffi_panic_boundary_def simp del: returns_and_then split: option.splits)
  qed
qed (use assms(1) in \<open>simp add: rustls_client_connection_new_def entry_defs\<close>)

end
