(* ===== verification/Ffi_Ownership_Connection.thy ===== *)
theory Ffi_Ownership_Connection
  imports Ffi_Ownership_Api
begin

text \<open>
  The ownership of objects across the entry points on a connection.  They call into rustls, which may call back
  into the C program and may panic; \<open>settles\<close> is what is required of such code, and the panic boundary turns it
  into a return.
\<close>

section \<open>Handles of connections\<close>

lemma connection_set_userdata_owned:
  assumes "owned e C w H" and "may_borrow RConnection p H"
  shows "returns (\<lambda>_ w'. owned e C w' H) (rustls_connection_set_userdata p u w)"
  unfolding rustls_connection_set_userdata_def
  by (rule connection_res.setting_owned [OF assms]) (auto intro!: setting_intros)

definition drops_connection :: "bool \<Rightarrow> connection_refs \<Rightarrow> (rustls_Connection \<Rightarrow> (world, unit) comp) \<Rightarrow> bool" where
  "drops_connection e C drop_inner =
     (\<forall>i w H. owned e C w (H + C i) \<longrightarrow> returns (\<lambda>_. kept e C w H) (drop_inner i w))"

lemma connection_free_owned:
  assumes "owned e C w (H + ptr_refs RConnection p)" and "drops_connection e C drop_inner"
  shows "returns (\<lambda>_ w'. owned e C w' H) (rustls_connection_free drop_inner p w)"
proof (cases p)
  case (Ptr a)
  then obtain c where c: "h_connection w a = Some c"
    using connection_res.owned_live [OF assms(1), of a] by auto
  then have "owned e C (hdel connection_heap a w) (H + C (conn_inner c))"
    using connection_res.owned_hdel [of e C w H a c] assms(1) Ptr by simp
  with assms(2) have "returns (\<lambda>_. kept e C (hdel connection_heap a w) H) (drop_inner (conn_inner c) (hdel connection_heap a w))"
    unfolding drops_connection_def by blast
  from returns_mono [OF this kept_owned] show ?thesis
    using c Ptr unfolding rustls_connection_free_def
    by (intro returns_boundary) (simp add: try_mut_from_ptr_cases)
qed (use assms(1) in \<open>simp add: rustls_connection_free_def entry_defs\<close>)

text \<open>
  A method of rustls may call back into the C program, and these callbacks may use handles of the program. Which ones is
  up to the program: \<open>U w\<close>, a set that does not depend on what the call itself changes. They must be
  there during the call, and the connection that is being worked on is not among them.
\<close>

type_synonym callback_uses = "world \<Rightarrow> resource set"

definition stable_uses :: "callback_uses \<Rightarrow> bool" where
  "stable_uses U = (\<forall>w x y. U (w\<lparr>h_connection := x\<rparr>) = U w \<and> U (w\<lparr>USERDATA := y\<rparr>) = U w)"

definition lends_to :: "callback_uses \<Rightarrow> Connection ptr \<Rightarrow> resource multiset \<Rightarrow> world \<Rightarrow> bool" where
  "lends_to U p H w = (case p of Null \<Rightarrow> True | Ptr a \<Rightarrow> U w \<subseteq> set_mset (H - {#RConnection a#}))"

lemma lends_to_simps [simp]: "lends_to U Null H w" "lends_to U (Ptr a) H w = (U w \<subseteq> set_mset (H - {#RConnection a#}))"
  by (simp_all add: lends_to_def)

text \<open>
  The method keeps the ownership: it may use what the connection holds and the handles it is lent, it leaves the other handles of the
  program as they are, and the place the connection was borrowed from stays free. It may panic.
\<close>

definition keeps_owned :: "bool \<Rightarrow> connection_refs \<Rightarrow> callback_uses \<Rightarrow> 'r inner_method \<Rightarrow> bool" where
  "keeps_owned e C U m =
     (\<forall>i w H. owned e C w (H + C i) \<and> U w \<subseteq> set_mset H \<longrightarrow> defined (m (i, w)) \<and>
        leaves (\<lambda>(i', w'). owned e C w' (H + C i') \<and> next_addr w \<le> next_addr w'
          \<and> (\<forall>a < next_addr w. h_connection w a = None \<longrightarrow> h_connection w' a = None)) (m (i, w)))"

lemma call_inner_owned:
  assumes "owned e C w (H + {#RConnection a#})" and "keeps_owned e C U m" and "stable_uses U" and "U w \<subseteq> set_mset H"
  shows "defined (call_inner a m w) \<and> leaves (\<lambda>w'. owned e C w' (H + {#RConnection a#})) (call_inner a m w)"
proof -
  obtain c where c: "h_connection w a = Some c" "a < next_addr w"
    using connection_res.owned_live [OF assms(1), of a] by auto
  let ?w = "hdel connection_heap a w"
  have "owned e C ?w (H + C (conn_inner c))"
    using connection_res.owned_hdel [OF assms(1), of c] c by simp
  moreover have "U ?w \<subseteq> set_mset H" using assms(3,4) by (simp add: stable_uses_def)
  ultimately have m: "defined (m (conn_inner c, ?w))"
    "leaves (\<lambda>(i', w'). owned e C w' (H + C i') \<and> next_addr ?w \<le> next_addr w'
          \<and> (\<forall>a < next_addr ?w. h_connection ?w a = None \<longrightarrow> h_connection w' a = None)) (m (conn_inner c, ?w))"
    using assms(2) unfolding keeps_owned_def by blast+
  have "owned e C (hput connection_heap a (c\<lparr>conn_inner := i\<rparr>) w') (H + {#RConnection a#})"
    if "owned e C w' (H + C i)" "next_addr ?w \<le> next_addr w'"
      "\<forall>a < next_addr ?w. h_connection ?w a = None \<longrightarrow> h_connection w' a = None" for i w'
    using connection_res.owned_put_back [of e C w' H "c\<lparr>conn_inner := i\<rparr>" a] that c by auto
  with m c show ?thesis
    by (cases "m (conn_inner c, ?w)") (auto simp: call_inner_def)
qed

lemma process_owned:
  assumes "owned e C w H" and "may_borrow RConnection p H" and "keeps_owned e C U m" and "stable_uses U" and "lends_to U p H w"
  shows "returns (\<lambda>_ w'. owned e C w' H) (rustls_connection_process_new_packets m p w)"
  using assms(1,2)
proof (cases rule: connection_res.borrowed_cases)
  case null
  then show ?thesis using assms(1) by (simp add: rustls_connection_process_new_packets_def entry_defs)
next
  case (live a c)
  then obtain H' where H: "H = H' + {#RConnection a#}" by (metis multi_member_split add_mset_add_single)
  have "owned e C (w\<lparr>USERDATA := cell\<rparr>) (H' + {#RConnection a#})" for cell using assms(1) H by simp
  moreover have "U (w\<lparr>USERDATA := cell\<rparr>) \<subseteq> set_mset H'" for cell using assms(4,5) live H by (simp add: stable_uses_def)
  ultimately
  have run: "defined (call_inner a m (w\<lparr>USERDATA := cell\<rparr>))" "leaves (\<lambda>w'. owned e C w' H) (call_inner a m (w\<lparr>USERDATA := cell\<rparr>))" for cell
    using H call_inner_owned [OF _ assms(3,4)] by simp_all
  obtain g cell where push: "userdata_push (conn_userdata c) (conn_log_callback c) (USERDATA w) = (g, cell)" by fastforce
  show ?thesis
    using live assms(1) push run [of cell] unfolding rustls_connection_process_new_packets_def
    by (cases "call_inner a m (w\<lparr>USERDATA := cell\<rparr>)")
      (auto simp: ffi_panic_boundary_def try_mut_from_ptr_cases Let_def split: sum.splits prod.splits)
qed

section \<open>Code that may panic\<close>

text \<open>A computation that is defined and, whether it returns or unwinds, leaves a world with \<open>Q\<close>.\<close>

definition settles :: "('w \<Rightarrow> bool) \<Rightarrow> ('r, 'w) outcome \<Rightarrow> bool" where
  "settles Q r = (defined r \<and> leaves Q r)"

lemma settles_simps [simp]: "settles Q (Returned x w) = Q w" "settles Q (Unwound w) = Q w" "\<not> settles Q Undefined"
  by (simp_all add: settles_def)

lemma settles_and_then:
  assumes "settles P r" and "\<And>x w. P w \<Longrightarrow> settles Q (k x w)" and "\<And>w. P w \<Longrightarrow> Q w"
  shows "settles Q (and_then r k)"
  using assms by (cases r) simp_all

lemma settles_mono: "settles P r \<Longrightarrow> (\<And>w. P w \<Longrightarrow> Q w) \<Longrightarrow> settles Q r"
  by (cases r) simp_all

lemma settles_returns: "settles Q (body w) \<Longrightarrow> returns (\<lambda>_. Q) (ffi_panic_boundary d body w)"
  by (cases "body w") (simp_all add: ffi_panic_boundary_def)

text \<open>An entry point on a connection that the program may borrow.\<close>

lemma connection_mut_entry:
  assumes "owned e C w H" and "may_borrow RConnection p H"
    and "\<And>a c. \<lbrakk>p = Ptr a; RConnection a \<in># H; h_connection w a = Some c\<rbrakk> \<Longrightarrow> settles (\<lambda>w'. owned e C w' H) (k a c w)"
  shows "returns (\<lambda>_ w'. owned e C w' H) (ffi_panic_boundary d (try_mut_from_ptr connection_heap d p k) w)"
  using assms(1,2)
proof (cases rule: connection_res.borrowed_cases)
  case null
  then show ?thesis using assms(1) by (simp add: entry_defs)
next
  case (live a c)
  then show ?thesis using assms(3) [of a c] by (intro settles_returns) (simp add: try_mut_from_ptr_cases)
qed

lemma connection_ref_entry:
  assumes "owned e C w H" and "may_borrow RConnection p H"
    and "\<And>c. settles (\<lambda>w'. owned e C w' H) (k c w)"
  shows "returns (\<lambda>_ w'. owned e C w' H) (ffi_panic_boundary d (try_ref_from_ptr connection_heap d p k) w)"
  using assms(1,2)
proof (cases rule: connection_res.borrowed_cases)
  case null
  then show ?thesis using assms(1) by (simp add: entry_defs)
next
  case (live a c)
  then show ?thesis using assms(3) [of c] by (intro settles_returns) (simp add: try_ref_from_ptr_cases)
qed

section \<open>Queries and settings\<close>

lemma connection_queries_owned:
  assumes "owned e C w H" and "may_borrow RConnection p H"
  shows "returns (\<lambda>_ w'. owned e C w' H) (rustls_connection_wants_read wants_read p w)"
    and "returns (\<lambda>_ w'. owned e C w' H) (rustls_connection_wants_write wants_write p w)"
    and "returns (\<lambda>_ w'. owned e C w' H) (rustls_connection_is_handshaking is_handshaking p w)"
    and "returns (\<lambda>_ w'. owned e C w' H) (rustls_connection_get_peer_certificate peer_certificates p n w)"
    and "returns (\<lambda>_ w'. owned e C w' H) (rustls_connection_get_protocol_version protocol_version get_u16 p w)"
    and "returns (\<lambda>_ w'. owned e C w' H) (rustls_connection_get_negotiated_ciphersuite negotiated eq suites p w)"
  unfolding rustls_connection_wants_read_def rustls_connection_wants_write_def rustls_connection_is_handshaking_def
    rustls_connection_get_peer_certificate_def rustls_connection_get_protocol_version_def
    rustls_connection_get_negotiated_ciphersuite_def
  by (rule connection_ref_entry [OF assms], simp add: assms(1))+

lemma call_inner_settles:
  assumes "owned e C w H" and "RConnection a \<in># H" and "keeps_owned e C U m" and "stable_uses U"
    and "U w \<subseteq> set_mset (H - {#RConnection a#})"
  shows "settles (\<lambda>w'. owned e C w' H) (call_inner a m w)"
  using call_inner_owned [of e C w "H - {#RConnection a#}" a U m] assms by (simp add: settles_def)

lemma connection_methods_owned:
  assumes "owned e C w H" and "may_borrow RConnection p H" and "stable_uses U" and "lends_to U p H w"
  shows "(\<And>n. keeps_owned e C U (set_buffer_limit n)) \<Longrightarrow>
      returns (\<lambda>_ w'. owned e C w' H) (rustls_connection_set_buffer_limit set_buffer_limit p n w)"
    and "keeps_owned e C U send_close_notify \<Longrightarrow>
      returns (\<lambda>_ w'. owned e C w' H) (rustls_connection_send_close_notify send_close_notify p w)"
  unfolding rustls_connection_set_buffer_limit_def rustls_connection_send_close_notify_def
  by (rule connection_mut_entry [OF assms(1,2)], use assms(4) in \<open>auto intro: call_inner_settles [OF assms(1) _ _ assms(3)]\<close>)+

text \<open>The \<open>log\<close> crate keeps its own state and none of the library's.\<close>

lemma set_log_callback_owned:
  assumes "owned e C w H" and "may_borrow RConnection p H"
    and "\<And>w. returns (\<lambda>_ w'. w' = w) (set_logger w)" and "\<And>l w. returns (\<lambda>_ w'. w' = w) (set_max_level l w)"
  shows "returns (\<lambda>_ w'. owned e C w' H) (rustls_connection_set_log_callback set_logger set_max_level p cb w)"
proof -
  have "returns (\<lambda>_ w'. w' = w) (ensure_log_registered set_logger set_max_level w)"
    using returns_mono [OF assms(3)] assms(4) by (simp add: ensure_log_registered_def)
  then show ?thesis
    unfolding rustls_connection_set_log_callback_def
    by (intro connection_res.setting_owned [OF assms(1,2)]) (auto elim!: returns_mono intro!: setting_intros)
qed

section \<open>Input and output\<close>

lemma owned_memory [simp]:
  "owned e C (w\<lparr>m_usize := f1\<rparr>) H = owned e C w H" "owned e C (w\<lparr>m_u8 := f2\<rparr>) H = owned e C w H"
  "owned e C (w\<lparr>m_u8_ptr := f3\<rparr>) H = owned e C w H"
proof -
  have supply_same: "supply_of (w\<lparr>m_usize := f1\<rparr>) r = supply_of w r" "supply_of (w\<lparr>m_u8 := f2\<rparr>) r = supply_of w r"
    "supply_of (w\<lparr>m_u8_ptr := f3\<rparr>) r = supply_of w r" for r
    by (cases r; simp)+
  show "owned e C (w\<lparr>m_usize := f1\<rparr>) H = owned e C w H" "owned e C (w\<lparr>m_u8 := f2\<rparr>) H = owned e C w H"
    "owned e C (w\<lparr>m_u8_ptr := f3\<rparr>) H = owned e C w H"
    by (simp_all add: owned_def supply_same well_formed_iff refs_def)
qed

text \<open>The callbacks that a method makes do not take away the memory the program passed to the call.\<close>

definition memory_stays :: "world \<Rightarrow> world \<Rightarrow> bool" where
  "memory_stays w w' = (dom (m_usize w) \<subseteq> dom (m_usize w') \<and> dom (m_u8 w) \<subseteq> dom (m_u8 w'))"

definition keeps_memory :: "'r inner_method \<Rightarrow> bool" where
  "keeps_memory m = (\<forall>i w. leaves (\<lambda>(_, w'). memory_stays w w') (m (i, w)))"

definition writable :: "(nat \<rightharpoonup> 'v) \<Rightarrow> 'v ptr \<Rightarrow> bool" where
  "writable h p = (\<forall>a. p = Ptr a \<longrightarrow> h a \<noteq> None)"

lemma call_inner_memory:
  assumes "keeps_memory m"
  shows "leaves (memory_stays w) (call_inner a m w)"
proof (cases "h_connection w a")
  case (Some c)
  have "leaves (\<lambda>(_, w'). memory_stays (hdel connection_heap a w) w') (m (conn_inner c, hdel connection_heap a w))"
    using assms unfolding keeps_memory_def by blast
  with Some show ?thesis
    by (cases "m (conn_inner c, hdel connection_heap a w)") (auto simp: call_inner_def memory_stays_def)
qed (simp add: call_inner_def)

lemma call_inner_io:
  assumes "owned e C w H" and "RConnection a \<in># H" and "keeps_owned e C U m" and "keeps_memory m" and "stable_uses U"
    and "U w \<subseteq> set_mset (H - {#RConnection a#})"
  shows "settles (\<lambda>w'. owned e C w' H \<and> memory_stays w w') (call_inner a m w)"
  using call_inner_settles [OF assms(1-3,5,6)] call_inner_memory [OF assms(4), of w a]
  by (cases "call_inner a m w") simp_all

lemma write_count_settles:
  assumes "owned e C w' H" and "memory_stays w w'" and "writable (m_usize w) p" and "p \<noteq> Null"
  shows "settles (\<lambda>w'. owned e C w' H) (and_then (write_cell usize_mem p n w') (\<lambda>_ w. Returned r w))"
  using assms by (cases p) (auto simp: write_cell_def memory_stays_def writable_def)

lemma tls_io_owned:
  assumes "owned e C w H" and "may_borrow RConnection p H" and "writable (m_usize w) out" and "stable_uses U" and "lends_to U p H w"
  shows "(\<And>rd. keeps_owned e C U (read_tls (CallbackReader_read recv rd)) \<and> keeps_memory (read_tls (CallbackReader_read recv rd))) \<Longrightarrow>
      returns (\<lambda>_ w'. owned e C w' H) (rustls_connection_read_tls read_tls recv p cb u out w)"
    and "(\<And>wr. keeps_owned e C U (write_tls (CallbackWriter_dyn send wr)) \<and> keeps_memory (write_tls (CallbackWriter_dyn send wr))) \<Longrightarrow>
      returns (\<lambda>_ w'. owned e C w' H) (rustls_connection_write_tls write_tls send p cb u out w)"
    and "(\<And>wr. keeps_owned e C U (write_tls (VectoredCallbackWriter_dyn sendv wr)) \<and> keeps_memory (write_tls (VectoredCallbackWriter_dyn sendv wr))) \<Longrightarrow>
      returns (\<lambda>_ w'. owned e C w' H) (rustls_connection_write_tls_vectored write_tls sendv p cb u out w)"
  unfolding rustls_connection_read_tls_def rustls_connection_write_tls_def rustls_connection_write_tls_vectored_def
  by (rule connection_mut_entry [OF assms(1,2)];
      use assms(1,3-5) in \<open>auto simp: try_callback_def Let_def split: option.splits sum.splits
        intro!: settles_and_then [OF call_inner_io [OF assms(1)]] write_count_settles\<close>)+

lemma connection_write_owned:
  assumes "owned e C w H" and "may_borrow RConnection p H" and "readable u8_mem buf n w" and "writable (m_usize w) out"
    and "\<And>bs. keeps_owned e C U (writer_write bs) \<and> keeps_memory (writer_write bs)" and "stable_uses U" and "lends_to U p H w"
  shows "returns (\<lambda>_ w'. owned e C w' H) (rustls_connection_write writer_write p buf n out w)"
  unfolding rustls_connection_write_def
  by (rule connection_mut_entry [OF assms(1,2)];
      use assms(1,3-7) in \<open>auto simp: try_slice_def readable_def split: option.splits sum.splits
        intro!: settles_and_then [OF call_inner_io [OF assms(1)]] write_count_settles\<close>)

lemma alpn_owned:
  assumes "owned e C w H" and "may_borrow RConnection p H" and "writable (m_u8_ptr w) out" and "writable (m_usize w) out_len"
  shows "returns (\<lambda>_ w'. owned e C w' H) (rustls_connection_get_alpn_protocol alpn_protocol p out out_len w)"
  unfolding rustls_connection_get_alpn_protocol_def
  by (rule connection_ref_entry [OF assms(1,2)], cases out; cases out_len)
    (use assms(1,3,4) in \<open>auto simp: write_cell_def writable_def split: option.splits\<close>)

text \<open>A method that is lent \<open>n\<close> bytes of the memory of the C program.\<close>

definition writable_bytes :: "u8 ptr \<Rightarrow> nat \<Rightarrow> world \<Rightarrow> bool" where
  "writable_bytes p n w = (\<forall>a. p = Ptr a \<longrightarrow> (\<forall>i < n. m_u8 w (a + i) \<noteq> None))"

definition lent_back ::
  "bool \<Rightarrow> connection_refs \<Rightarrow> nat \<Rightarrow> resource multiset \<Rightarrow> world \<Rightarrow> (rustls_Connection \<times> bytes) \<times> world \<Rightarrow> bool" where
  "lent_back e C n H w = (\<lambda>((i, bs), w'). owned e C w' (H + C i) \<and> length bs \<le> n \<and> next_addr w \<le> next_addr w'
     \<and> (\<forall>a < next_addr w. h_connection w a = None \<longrightarrow> h_connection w' a = None) \<and> memory_stays w w')"

definition keeps_owned_buf :: "bool \<Rightarrow> connection_refs \<Rightarrow> callback_uses \<Rightarrow> nat \<Rightarrow> ((rustls_Connection \<times> bytes) \<times> world, 'r) comp \<Rightarrow> bool" where
  "keeps_owned_buf e C U n m =
     (\<forall>i bs w H. owned e C w (H + C i) \<and> U w \<subseteq> set_mset H \<and> length bs \<le> n \<longrightarrow> settles (lent_back e C n H w) (m ((i, bs), w)))"

lemma copy_bytes:
  assumes "\<forall>i < n. m_u8 w (b + i) \<noteq> None" and "memory_stays w w'" and "length bs \<le> n"
  obtains h where "copy_to u8_mem (Ptr b) bs w' = Returned () (w'\<lparr>m_u8 := h\<rparr>)" and "dom h = dom (m_u8 w')"
proof -
  have "\<forall>i < length bs. m_u8 w' (b + i) \<noteq> None"
    using assms unfolding memory_stays_def by (metis domD domI less_le_trans option.distinct(1) subsetD not_None_eq)
  then obtain h where "write_range (m_u8 w') b bs = Some h" using write_range_defined by blast
  with that [of h] write_range_dom [OF this] show ?thesis by (simp add: copy_to_def)
qed

lemma call_inner_buf_io:
  assumes "owned e C w H" and "RConnection a \<in># H" and "keeps_owned_buf e C U n m" and "\<forall>i < n. m_u8 w (b + i) \<noteq> None"
    and "stable_uses U" and "U w \<subseteq> set_mset (H - {#RConnection a#})"
  shows "settles (\<lambda>w'. owned e C w' H \<and> memory_stays w w') (call_inner_buf a b n m w)"
proof -
  obtain c where c: "h_connection w a = Some c" "a < next_addr w"
    using connection_res.owned_live [OF assms(1), of a] assms(2) by auto
  let ?H = "H - {#RConnection a#}"
  have H: "owned e C w (?H + {#RConnection a#})" using assms(1,2) by simp
  let ?w = "hdel connection_heap a w"
  let ?bs = "map (\<lambda>i. the (m_u8 w (b + i))) [0..<n]"
  have read: "read_range (m_u8 w) b n = Some ?bs"
    using assms(4) by (auto simp: read_range_Some_iff)
  have "owned e C ?w (?H + C (conn_inner c))"
    using connection_res.owned_hdel [OF H, of c] c by simp
  moreover have "U ?w \<subseteq> set_mset ?H" using assms(5,6) by (simp add: stable_uses_def)
  ultimately have m: "settles (lent_back e C n ?H ?w) (m ((conn_inner c, ?bs), ?w))"
    using assms(3) unfolding keeps_owned_buf_def by simp
  have restored: "\<exists>w2. copy_to u8_mem (Ptr b) bs' (hput connection_heap a (c\<lparr>conn_inner := i\<rparr>) w') = Returned () w2
      \<and> owned e C w2 H \<and> memory_stays w w2 \<and> length bs' \<le> n"
    if "lent_back e C n ?H ?w ((i, bs'), w')" for i bs' w'
  proof -
    let ?w1 = "hput connection_heap a (c\<lparr>conn_inner := i\<rparr>) w'"
    have stays: "memory_stays w ?w1" "length bs' \<le> n" using that by (simp_all add: lent_back_def memory_stays_def)
    then obtain h where "copy_to u8_mem (Ptr b) bs' ?w1 = Returned () (?w1\<lparr>m_u8 := h\<rparr>)" "dom h = dom (m_u8 ?w1)"
      using copy_bytes [OF assms(4)] by blast
    moreover have "owned e C ?w1 H"
      using connection_res.owned_put_back [of e C w' ?H "c\<lparr>conn_inner := i\<rparr>" a] that c assms(2)
      by (auto simp: lent_back_def)
    ultimately show ?thesis using stays by (auto simp: memory_stays_def)
  qed
  show ?thesis
  proof (cases "m ((conn_inner c, ?bs), ?w)")
    case (Returned r s)
    obtain i bs' w' where "s = ((i, bs'), w')" by (cases s) auto
    with restored [of i bs' w'] m Returned c read show ?thesis by (auto simp: call_inner_buf_def simp del: hput_lens)
  next
    case (Unwound s)
    obtain i bs' w' where "s = ((i, bs'), w')" by (cases s) auto
    with restored [of i bs' w'] m Unwound c read show ?thesis by (auto simp: call_inner_buf_def simp del: hput_lens)
  qed (use m in simp)
qed

lemma connection_read_owned:
  assumes "owned e C w H" and "may_borrow RConnection p H" and "writable_bytes buf (unat n) w" and "writable (m_usize w) out"
    and "keeps_owned_buf e C U (unat n) reader_read" and "stable_uses U" and "lends_to U p H w"
  shows "returns (\<lambda>_ w'. owned e C w' H) (rustls_connection_read reader_read p buf n out w)"
  unfolding rustls_connection_read_def
  by (rule connection_mut_entry [OF assms(1,2)])
    (use assms(1,3-7) in \<open>auto simp: writable_bytes_def split: ptr.splits sum.splits
        intro!: settles_and_then [OF call_inner_buf_io [OF assms(1)]] write_count_settles\<close>)

lemma connection_read_2_owned:
  assumes "owned e C w H" and "may_borrow RConnection p H" and "writable_bytes buf (unat n) w" and "writable (m_usize w) out"
    and "keeps_owned_buf e C U (unat n) (reader_read_buf (unat n))" and "stable_uses U" and "lends_to U p H w"
  shows "returns (\<lambda>_ w'. owned e C w' H) (rustls_connection_read_2 reader_read_buf p buf n out w)"
proof -
  let ?m = "\<lambda>((i, _ :: bytes), w). case reader_read_buf (unat n) ((i, []), w) of Undefined \<Rightarrow> Undefined | Unwound s \<Rightarrow> Unwound s
      | Returned r ((i, filled), w) \<Rightarrow>
          Returned (case r of Inl e \<Rightarrow> Inl e | Inr _ \<Rightarrow> Inr (of_nat (length filled) :: usize)) ((i, filled), w)"
  have "keeps_owned_buf e C U (unat n) ?m"
    unfolding keeps_owned_buf_def
  proof (intro allI impI)
    fix i bs w H assume "owned e C w (H + C i) \<and> U w \<subseteq> set_mset H \<and> length (bs :: bytes) \<le> unat n"
    with assms(5) have "settles (lent_back e C (unat n) H w) (reader_read_buf (unat n) ((i, []), w))"
      unfolding keeps_owned_buf_def by simp
    then show "settles (lent_back e C (unat n) H w) (?m ((i, bs), w))"
      by (cases "reader_read_buf (unat n) ((i, []), w)") auto
  qed
  from connection_read_owned [OF assms(1-4) this assms(6,7)] show ?thesis
    unfolding rustls_connection_read_def rustls_connection_read_2_def .
qed

section \<open>Names and certificates\<close>

lemma write_name_settles:
  assumes "owned e C w H" and "writable_bytes (Ptr b) (unat n) w" and "writable (m_usize w) (Ptr o')"
    and "length name < 2 ^ 64" and "\<not> of_nat (length name) > (n :: usize)"
  shows "settles (\<lambda>w'. owned e C w' H) (and_then (copy_to u8_mem (Ptr b) name w) (\<lambda>_ w.
      and_then (write_cell usize_mem (Ptr o') (of_nat (length name)) w) (\<lambda>_ w. Returned Ok w)))"
proof -
  have "unat (of_nat (length name) :: usize) = length name"
    using assms(4) by (simp add: unat_of_nat take_bit_nat_eq_self)
  with assms(5) have "length name \<le> unat n" unfolding word_less_nat_alt by linarith
  have range: "\<forall>i < unat n. m_u8 w (b + i) \<noteq> None" using assms(2) by (simp add: writable_bytes_def)
  have "memory_stays w w" by (simp add: memory_stays_def)
  moreover note \<open>length name \<le> unat n\<close>
  ultimately obtain h where "copy_to u8_mem (Ptr b) name w = Returned () (w\<lparr>m_u8 := h\<rparr>)"
    using copy_bytes [OF range] by metis
  moreover obtain k where "m_usize w o' = Some k" using assms(3) by (auto simp: writable_def)
  ultimately show ?thesis using assms(1) by (simp add: write_cell_def)
qed

lemma sni_hostname_owned:
  assumes "owned e C w H" and "may_borrow RConnection p H" and "writable_bytes buf (unat n) w" and "writable (m_usize w) out"
    and "\<And>s name. sni_hostname s = Some name \<Longrightarrow> length name < 2 ^ 64"
  shows "returns (\<lambda>_ w'. owned e C w' H) (rustls_server_connection_get_sni_hostname sni_hostname p buf n out w)"
proof (cases "buf = Null \<or> out = Null")
  case False
  then obtain b o' where ptrs: "buf = Ptr b" "out = Ptr o'" by (cases buf; cases out) auto
  have count: "settles (\<lambda>w'. owned e C w' H) (and_then (write_cell usize_mem (Ptr o') k w) (\<lambda>_ w. Returned r w))" for k and r :: rustls_result
    using assms(1,4) ptrs by (auto simp: write_cell_def writable_def)
  note name = write_name_settles [OF assms(1) assms(3) [unfolded ptrs] assms(4) [unfolded ptrs] assms(5)]
  show ?thesis
    unfolding rustls_server_connection_get_sni_hostname_def ptrs Let_def
    by (rule connection_ref_entry [OF assms(1,2)]) (use count name assms(1) in \<open>simp split: option.split\<close>)
next
  case True
  then show ?thesis
    unfolding rustls_server_connection_get_sni_hostname_def
    by (intro connection_ref_entry [OF assms(1,2)]) (use assms(1) in auto)
qed

lemma key_certificate_owned:
  assumes "owned e C w H" and "may_borrow RKey p H"
  shows "returns (\<lambda>_ w'. owned e C w' H) (rustls_certified_key_get_certificate p n w)"
proof -
  have "\<exists>i. h_certified_key w a = Some i" if "p = Ptr a" for a
    using certified_key_res.owned_live [OF assms(1), of a] assms(2) that by auto
  then show ?thesis
    using assms(1) unfolding rustls_certified_key_get_certificate_def
    by (intro returns_boundary, cases p) (auto simp: try_macro_defs)
qed

section \<open>Resolving a key\<close>

text \<open>The result of a resolver: its caller owns a reference to the key it returns.\<close>

definition resolved :: "bool \<Rightarrow> connection_refs \<Rightarrow> resource multiset \<Rightarrow> nat option \<Rightarrow> world \<Rightarrow> bool" where
  "resolved e C H k w = owned e C w (H + opt_refs (\<lambda>k. {#RKey k#}) k)"

lemma resolved_simps [simp]:
  "resolved e C H None w = owned e C w H" "resolved e C H (Some k) w = owned e C w (H + {#RKey k#})"
  by (simp_all add: resolved_def)

lemma key_live:
  assumes "owned e C w H" and "0 < supply_of w (RKey k)"
  obtains i sk where "h_certified_key w k = Some i" and "h_signing_key w (ck_key (arc_data i)) = Some sk"
proof -
  obtain i where i: "h_certified_key w k = Some i"
    using assms(2) by (auto simp: supply_at_def split: option.splits)
  moreover obtain sk where "h_signing_key w (ck_key (arc_data i)) = Some sk"
    using certified_key_res.content_supplied [OF assms(1), of k i "RSigningKey (ck_key (arc_data i))"] i
    by (auto simp: key_refs_def supply_at_def split: option.splits)
  ultimately show ?thesis using that by blast
qed

lemma resolve_owned:
  assumes "owned e C w H" and "\<forall>k \<in> set ks. 0 < supply_of w (RKey k)"
  shows "returns (resolved e C H) (client_resolve choose_scheme schemes ks w)"
    and "returns (resolved e C H) (server_resolve choose_scheme schemes ks w)"
proof -
  have found: "returns (resolved e C H) (to_arc certified_key_heap (Ptr k) w)"
    if "h_certified_key w k = Some i" for k i
    using certified_key_res.to_arc_live_returns [OF assms(1), of k i] that by (auto elim!: returns_mono dest: kept_owned)
  show "returns (resolved e C H) (client_resolve choose_scheme schemes ks w)"
    using assms(2)
  proof (induction ks)
    case (Cons k ks)
    from Cons.prems obtain i sk where "h_certified_key w k = Some i" "h_signing_key w (ck_key (arc_data i)) = Some sk"
      using key_live [OF assms(1), of k] by auto
    with Cons found [of k i] show ?case by simp
  qed (use assms(1) in simp)
  show "returns (resolved e C H) (server_resolve choose_scheme schemes ks w)"
    using assms(2)
  proof (induction ks)
    case (Cons k ks)
    from Cons.prems obtain i sk where "h_certified_key w k = Some i" "h_signing_key w (ck_key (arc_data i)) = Some sk"
      using key_live [OF assms(1), of k] by auto
    with Cons found [of k i] show ?case by simp
  qed (use assms(1) in simp)
qed

text \<open>
  A client hello callback that returns a key it may borrow: the resolver returns a clone of it, with a reference to the signing key.
\<close>

lemma clone_key_owned:
  assumes "owned e C w H" and "h_certified_key w a = Some i" and "h_signing_key w (ck_key (arc_data i)) = Some sk"
  shows "returns (resolved e C H) (and_then (to_arc signing_key_heap (Ptr (ck_key (arc_data i))) w) (\<lambda>_ w.
      and_then (to_const_ptr certified_key_heap (arc_data i) w) (\<lambda>p w.
      Returned (case p of Null \<Rightarrow> None | Ptr a \<Rightarrow> Some a) w)))"
proof -
  have "hget signing_key_heap w (ck_key (arc_data i)) = Some sk" using assms(3) by simp
  from signing_key_res.to_arc_live_returns [OF assms(1) this]
  obtain r w2 where w2: "to_arc signing_key_heap (Ptr (ck_key (arc_data i))) w = Returned r w2" "owned e C w2 (H + key_refs (arc_data i))"
    unfolding returns_def key_refs_def by (blast dest: kept_owned)
  from certified_key_res.to_const_ptr_returns [of e C w2 H "arc_data i"] w2(2)
  obtain b w3 where "to_const_ptr certified_key_heap (arc_data i) w2 = Returned (Ptr b) w3" "owned e C w3 (H + {#RKey b#})"
    unfolding returns_def by (auto dest: kept_owned)
  with w2(1) show ?thesis by simp
qed

lemma hello_resolve_owned:
  assumes "owned e C w H"
    and "\<And>v u. client_hello_view get_u16 hello = Some v \<and> userdata_get (USERDATA w) = Inr u \<Longrightarrow>
      returns (\<lambda>p w'. owned e C w' H \<and> may_borrow RKey p H) (call cb u v w)"
  shows "returns (resolved e C H) (ClientHelloResolver_resolve get_u16 call cb hello w)"
proof (cases "client_hello_view get_u16 hello")
  case (Some v)
  show ?thesis
  proof (cases "userdata_get (USERDATA w)")
    case (Inr u)
    with assms(2) Some obtain p w1 where run: "call cb u v w = Returned p w1" "owned e C w1 H" "may_borrow RKey p H"
      by (auto simp: returns_def)
    from run(2,3) show ?thesis
    proof (cases rule: certified_key_res.borrowed_cases)
      case null
      then show ?thesis using run hello_resolver_none(3) [OF Some Inr, of call cb w1] by simp
    next
      case (live a i)
      then have "0 < supply_of w1 (RKey a)"
        using certified_key_res.owned_live [OF run(2), of a] by (auto simp: supply_at_def)
      then obtain i sk where "h_certified_key w1 a = Some i" "h_signing_key w1 (ck_key (arc_data i)) = Some sk"
        using key_live [OF run(2)] by blast
      with clone_key_owned [OF run(2)] show ?thesis
        using Some Inr run(1) live(1) by (simp add: ClientHelloResolver_resolve_def del: returns_and_then)
    qed
  qed (use assms(1) in \<open>simp add: hello_resolver_none\<close>)
qed (use assms(1) in \<open>simp add: hello_resolver_none\<close>)

text \<open>The callback that selects from an array of keys of the program is of this kind.\<close>

lemma select_loop_owned:
  assumes "owned e C w H" and "\<forall>q \<in> set ps. may_borrow RKey q H" and "m_key_ptr w o' \<noteq> None"
  shows "returns (\<lambda>r w'. owned e C w' H \<and> (r = Ok \<longrightarrow> (\<exists>k. m_key_ptr w' o' = Some (Ptr k) \<and> RKey k \<in># H)))
    (select_key_loop choose_scheme schemes (Ptr o') ps w)"
    (is "returns ?Q _")
  using assms(2)
proof (induction ps)
  case (Cons p ps)
  then have rest: "returns ?Q (select_key_loop choose_scheme schemes (Ptr o') ps w)" by simp
  show ?case
  proof (cases p)
    case (Ptr a)
    have held: "RKey a \<in># H" using Cons.prems Ptr by simp
    have "0 < supply_of w (RKey a)" by (rule certified_key_res.owned_live [OF assms(1) held]) (simp add: supply_at_def)
    then obtain i sk where live: "h_certified_key w a = Some i" "h_signing_key w (ck_key (arc_data i)) = Some sk"
      by (rule key_live [OF assms(1)])
    have "returns ?Q (and_then (write_cell key_ptr_mem (Ptr o') (Ptr a) w) (\<lambda>_ w. Returned Ok w))"
      using assms(1,3) held by (simp add: write_cell_def split: option.splits)
    with rest show ?thesis
      by (simp only: Ptr select_key_loop.simps live option.case split: if_split) blast
  qed (use assms(1) in simp)
qed (use assms(1) in simp)

lemma selecting_callback_owned:
  assumes "owned e C w H" and "keys_readable keys n H w" and "m_key_ptr w o' \<noteq> None" and "client_hello_view get_u16 hello = Some v"
    and "length (hello_signature_schemes hello) < 2 ^ 63"
  shows "returns (\<lambda>p w'. owned e C w' H \<and> may_borrow RKey p H) (selecting_callback choose_scheme keys n o' cb u v w)"
proof -
  let ?schemes = "map get_u16 (hello_signature_schemes hello)"
  have view: "ch_signature_schemes v = rustls_slice_u16_from ?schemes"
    using assms(4) by (auto simp: client_hello_view_def Let_def split: sum.splits)
  have "unat (of_nat (length ?schemes) :: usize) = length ?schemes"
    using assms(5) by (intro unat_of_nat_length) (simp add: fits_isize_def)
  then have select: "rustls_client_hello_select_certified_key choose_scheme (Some v) keys n (Ptr o') w =
      ffi_panic_boundary rr_ret (try_slice key_ptr_mem rr_ret keys n (select_key_loop choose_scheme (sigschemes ?schemes) (Ptr o'))) w"
    by (simp add: rustls_client_hello_select_certified_key_def view rustls_slice_u16_from_def ffi_panic_boundary_def)
  have "returns (\<lambda>r w'. owned e C w' H \<and> (r = Ok \<longrightarrow> (\<exists>k. m_key_ptr w' o' = Some (Ptr k) \<and> RKey k \<in># H)))
      (try_slice key_ptr_mem rr_ret keys n (select_key_loop choose_scheme (sigschemes ?schemes) (Ptr o')) w)"
    using assms(1,2) select_loop_owned [OF assms(1) _ assms(3)] by (auto simp: keys_readable_def try_slice_def)
  from returns_boundary [where body = "try_slice key_ptr_mem rr_ret keys n (select_key_loop choose_scheme (sigschemes ?schemes) (Ptr o'))", OF this]
  obtain r w1 where "rustls_client_hello_select_certified_key choose_scheme (Some v) keys n (Ptr o') w = Returned r w1"
    "owned e C w1 H" "r = Ok \<longrightarrow> (\<exists>k. m_key_ptr w1 o' = Some (Ptr k) \<and> RKey k \<in># H)"
    unfolding select returns_def by blast
  then show ?thesis by (auto simp: selecting_callback_def)
qed

end
