(* ===== verification/Ffi_Protocol.thy ===== *)
theory Ffi_Protocol
  imports Ffi_Ownership_Connection
begin

text \<open>
  The protocol between a C program and the library, over all calls that create, use and free handles.  A call is a
  value of \<open>api_call\<close>; \<open>perform\<close> runs the entry point of the model that it names; \<open>consumed\<close> says which handles the
  call takes from the program, and \<open>permitted\<close> what the documentation of the entry point asks of its arguments:
  handles the program owns, readable buffers, writable out pointers.  NULL handles are permitted everywhere.

  \<open>api_reachable\<close> holds of the worlds, and the handles the program then owns, that a program reaches which makes
  permitted calls and writes its own memory in between.  The properties: a permitted call returns, it is never
  undefined behaviour and never unwinds; the reference counts always cover the holders; a configuration resolves its
  keys whatever was freed; a program that has freed its handles has leaked nothing.

  rustls, webpki and the PEM parser are the fields of \<open>foreign\<close>, with \<open>foreign_ok\<close> for what they keep.
\<close>

section \<open>Calls\<close>

datatype key_call =
    KeyBuild "u8 sptr" usize "u8 sptr" usize "CertifiedKey ptr ptr"
  | KeyCloneWithOcsp "CertifiedKey ptr" "rustls_slice_bytes ptr" "CertifiedKey ptr ptr"
  | KeyGetCertificate "CertifiedKey ptr" usize
  | KeyFree "CertifiedKey ptr"
  | RootStoreNew
  | RootStoreAddPem "RootCertStore ptr" "u8 sptr" usize bool
  | RootStoreFree "RootCertStore ptr"
  | VerifierNew "RootCertStore ptr"
  | VerifierFree "AllowAnyAuthenticatedClient ptr"
  | VerifierOptionalNew "RootCertStore ptr"
  | VerifierOptionalFree "AllowAnyAnonymousOrAuthenticatedClient ptr"

datatype client_call =
    ClientBuilderNew
  | ClientBuilderNewCustom "SupportedCipherSuite option sptr" usize "u16 sptr" usize "ClientConfigBuilder ptr ptr"
  | ClientSetVerifier "ClientConfigBuilder ptr" "c_fn option"
  | ClientUseRoots "ClientConfigBuilder ptr" "RootCertStore ptr"
  | ClientLoadRoots "ClientConfigBuilder ptr" "u8 ptr"
  | ClientSetAlpn "ClientConfigBuilder ptr" "rustls_slice_bytes sptr" usize
  | ClientSetSni "ClientConfigBuilder ptr" bool
  | ClientSetKeys "ClientConfigBuilder ptr" "CertifiedKey ptr sptr" usize
  | ClientBuild "ClientConfigBuilder ptr"
  | ClientBuilderFree "ClientConfigBuilder ptr"
  | ClientConfigFree "ClientConfig ptr"
  | ClientConnect "ClientConfig ptr" "u8 ptr" "Connection ptr ptr"

datatype server_call =
    ServerBuilderNew
  | ServerBuilderNewCustom "SupportedCipherSuite option sptr" usize "u16 sptr" usize "ServerConfigBuilder ptr ptr"
  | ServerSetVerifier "ServerConfigBuilder ptr" "AllowAnyAuthenticatedClient ptr"
  | ServerSetVerifierOptional "ServerConfigBuilder ptr" "AllowAnyAnonymousOrAuthenticatedClient ptr"
  | ServerSetIgnoreOrder "ServerConfigBuilder ptr" bool
  | ServerSetAlpn "ServerConfigBuilder ptr" "rustls_slice_bytes sptr" usize
  | ServerSetKeys "ServerConfigBuilder ptr" "CertifiedKey ptr sptr" usize
  | ServerSetHello "ServerConfigBuilder ptr" "c_fn option"
  | ServerSetPersistence "ServerConfigBuilder ptr" "c_fn option" "c_fn option"
  | ServerBuild "ServerConfigBuilder ptr"
  | ServerBuilderFree "ServerConfigBuilder ptr"
  | ServerConfigFree "ServerConfig ptr"
  | ServerAccept "ServerConfig ptr" "Connection ptr ptr"

datatype connection_call =
    SetUserdata "Connection ptr" void_ptr
  | SetLogCallback "Connection ptr" "c_fn option"
  | ReadTls "Connection ptr" "c_fn option" void_ptr "usize ptr"
  | WriteTls "Connection ptr" "c_fn option" void_ptr "usize ptr"
  | WriteTlsVectored "Connection ptr" "c_fn option" void_ptr "usize ptr"
  | ProcessNewPackets "Connection ptr"
  | WantsRead "Connection ptr"
  | WantsWrite "Connection ptr"
  | IsHandshaking "Connection ptr"
  | SetBufferLimit "Connection ptr" usize
  | SendCloseNotify "Connection ptr"
  | GetPeerCertificate "Connection ptr" usize
  | GetAlpn "Connection ptr" "u8 sptr ptr" "usize ptr"
  | GetProtocolVersion "Connection ptr"
  | GetCiphersuite "Connection ptr"
  | GetSniHostname "Connection ptr" "u8 ptr" usize "usize ptr"
  | WritePlain "Connection ptr" "u8 sptr" usize "usize ptr"
  | ReadPlain "Connection ptr" "u8 ptr" usize "usize ptr"
  | ReadPlain2 "Connection ptr" "u8 ptr" usize "usize ptr"
  | ConnectionFree "Connection ptr"

datatype api_call = Keys key_call | ClientConfigs client_call | ServerConfigs server_call | Connections connection_call

text \<open>The code that the entry points call, in the order in which they use it.\<close>

record rustls_methods =
  r_read_tls :: "(bytes \<Rightarrow> (world, bytes \<times> (io_Error + usize)) comp) \<Rightarrow> (io_Error + usize) inner_method"
  r_write_tls :: "world dyn_Write \<Rightarrow> (io_Error + usize) inner_method"
  r_process :: "(rustls_Error + unit) inner_method"
  r_wants_read :: "rustls_Connection \<Rightarrow> bool"
  r_wants_write :: "rustls_Connection \<Rightarrow> bool"
  r_is_handshaking :: "rustls_Connection \<Rightarrow> bool"
  r_set_buffer_limit :: "usize option \<Rightarrow> unit inner_method"
  r_send_close_notify :: "unit inner_method"
  r_peer_certificates :: "rustls_Connection \<Rightarrow> Certificate list option"
  r_alpn_protocol :: "rustls_Connection \<Rightarrow> bytes option"
  r_protocol_version :: "rustls_Connection \<Rightarrow> u16 option"
  r_negotiated :: "rustls_Connection \<Rightarrow> SupportedCipherSuite option"
  r_sni_hostname :: "ServerConnection \<Rightarrow> bytes option"
  r_write :: "bytes \<Rightarrow> (io_Error + usize) inner_method"
  r_read :: "((rustls_Connection \<times> bytes) \<times> world, io_Error + usize) comp"
  r_read_buf :: "nat \<Rightarrow> ((rustls_Connection \<times> bytes) \<times> world, io_Error + unit) comp"

record c_callbacks =
  c_recv :: "world read_callbacks"
  c_send :: "world write_callbacks"
  c_sendv :: "world write_vectored_callbacks"

record foreign =
  f_pkcs8 :: "bytes \<Rightarrow> bytes list option"
  f_rsa :: "bytes \<Rightarrow> bytes list option"
  f_any_type :: "bytes \<Rightarrow> SigningKey option"
  f_certs :: "bytes \<Rightarrow> bytes list option"
  f_CertifiedKey_new :: "Certificate list \<Rightarrow> nat \<Rightarrow> CertifiedKey"
  f_add :: "RootCertStore \<Rightarrow> bytes list \<Rightarrow> RootCertStore \<times> nat \<times> nat"
  f_open :: "bytes \<Rightarrow> bytes option"
  f_suite_eq :: "SupportedCipherSuite \<Rightarrow> SupportedCipherSuite \<Rightarrow> bool"
  f_suites :: "SupportedCipherSuite list"
  f_protocol :: "u16 \<Rightarrow> u16"
  f_version :: "SupportedProtocolVersion \<Rightarrow> u16"
  f_with_versions :: "SupportedCipherSuite list \<Rightarrow> SupportedProtocolVersion list \<Rightarrow> WantsVerifier option"
  f_safe_defaults :: WantsVerifier
  f_with_client_cert_resolver :: "WantsVerifier \<Rightarrow> ServerCertVerifier \<Rightarrow> ResolvesClientCert \<Rightarrow> ClientConfig"
  f_with_no_client_auth :: "WantsVerifier \<Rightarrow> ServerCertVerifier \<Rightarrow> ClientConfig"
  f_with_cert_resolver :: "WantsVerifier \<Rightarrow> ClientCertVerifier \<Rightarrow> ResolvesServerCert \<Rightarrow> ServerConfig"
  f_server_name :: "bytes \<Rightarrow> ServerName option"
  f_client_new :: "nat \<Rightarrow> ServerName \<Rightarrow> (world, rustls_Error + ClientConnection) comp"
  f_server_new :: "nat \<Rightarrow> (world, rustls_Error + ServerConnection) comp"
  f_drop :: "rustls_Connection \<Rightarrow> (world, unit) comp"
  f_methods :: rustls_methods
  f_callbacks :: c_callbacks
  f_uses :: callback_uses
  f_set_logger :: "(world, unit + unit) comp"
  f_set_max_level :: "Level \<Rightarrow> (world, unit) comp"

text \<open>
  What the library relies on of the methods of a connection, which run the callbacks \<open>R\<close> of the C program: they keep
  the ownership, the memory passed to the call stays, and the bytes read into a buffer fit it.
\<close>

definition methods_ok :: "bool \<Rightarrow> connection_refs \<Rightarrow> callback_uses \<Rightarrow> c_callbacks \<Rightarrow> rustls_methods \<Rightarrow> bool" where
  "methods_ok e C U R M =
     ((\<forall>rd. keeps_owned e C U (r_read_tls M (CallbackReader_read (c_recv R) rd)) \<and> keeps_memory (r_read_tls M (CallbackReader_read (c_recv R) rd)))
      \<and> (\<forall>wr. keeps_owned e C U (r_write_tls M (CallbackWriter_dyn (c_send R) wr)) \<and> keeps_memory (r_write_tls M (CallbackWriter_dyn (c_send R) wr)))
      \<and> (\<forall>wr. keeps_owned e C U (r_write_tls M (VectoredCallbackWriter_dyn (c_sendv R) wr))
           \<and> keeps_memory (r_write_tls M (VectoredCallbackWriter_dyn (c_sendv R) wr)))
      \<and> keeps_owned e C U (r_process M)
      \<and> (\<forall>n. keeps_owned e C U (r_set_buffer_limit M n))
      \<and> keeps_owned e C U (r_send_close_notify M)
      \<and> (\<forall>s name. r_sni_hostname M s = Some name \<longrightarrow> length name < 2 ^ 64)
      \<and> (\<forall>bs. keeps_owned e C U (r_write M bs) \<and> keeps_memory (r_write M bs))
      \<and> (\<forall>n. keeps_owned_buf e C U n (r_read M))
      \<and> (\<forall>n. keeps_owned_buf e C U n (r_read_buf M n)))"

text \<open>
  What the library relies on: a \<open>CertifiedKey\<close> and a configuration hold what they were made of, a connection made from
  a configuration takes the reference it is given (and gives it up when it fails), dropping a connection drops
  what it holds, and the \<open>log\<close> crate keeps to its own state.
\<close>

definition foreign_ok :: "bool \<Rightarrow> connection_refs \<Rightarrow> foreign \<Rightarrow> bool" where
  "foreign_ok e C F =
     ((\<forall>cs k. ck_key (f_CertifiedKey_new F cs k) = k)
      \<and> (\<forall>b v r. cc_cert_resolver (f_with_client_cert_resolver F b v r) = Some r)
      \<and> (\<forall>b v. cc_cert_resolver (f_with_no_client_auth F b v) = None)
      \<and> (\<forall>b v r. sc_verifier (f_with_cert_resolver F b v r) = v \<and> sc_cert_resolver (f_with_cert_resolver F b v r) = r)
      \<and> (\<forall>sn. makes_connection e C RClientConfig Client (\<lambda>c. f_client_new F c sn))
      \<and> makes_connection e C RServerConfig Server (f_server_new F)
      \<and> drops_connection e C (f_drop F)
      \<and> (\<forall>w. returns (\<lambda>_ w'. w' = w) (f_set_logger F w)) \<and> (\<forall>l w. returns (\<lambda>_ w'. w' = w) (f_set_max_level F l w))
      \<and> stable_uses (f_uses F)
      \<and> methods_ok e C (f_uses F) (f_callbacks F) (f_methods F))"

text \<open>A call followed by the handles it has given to the program.\<close>

definition handing :: "('r \<Rightarrow> world \<Rightarrow> resource multiset) \<Rightarrow> (world, 'r) comp \<Rightarrow> (world, resource multiset) comp" where
  "handing g f w = and_then (f w) (\<lambda>r w. Returned (g r w) w)"

lemma returns_handing [simp]: "returns Q (handing g f w) = returns (\<lambda>r w'. Q (g r w') w') (f w)"
  by (simp add: handing_def)

primrec perform_key :: "foreign \<Rightarrow> key_call \<Rightarrow> (world, resource multiset) comp" where
  "perform_key F (KeyBuild chain n key m out) =
     handing (handed_out m_key_ptr RKey out) (rustls_certified_key_build (f_pkcs8 F) (f_rsa F) (f_any_type F) (f_certs F) (f_CertifiedKey_new F) chain n key m out)"
| "perform_key F (KeyCloneWithOcsp p ocsp out) =
     handing (handed_out m_key_ptr RKey out) (rustls_certified_key_clone_with_ocsp p ocsp out)"
| "perform_key F (KeyGetCertificate p i) =
     handing (\<lambda>_ _. {#}) (rustls_certified_key_get_certificate p i)"
| "perform_key F (KeyFree p) =
     handing (\<lambda>_ _. {#}) (rustls_certified_key_free p)"
| "perform_key F RootStoreNew =
     handing (\<lambda>p _. ptr_refs RRootStore p) (rustls_root_cert_store_new)"
| "perform_key F (RootStoreAddPem p pem n strict) =
     handing (\<lambda>_ _. {#}) (rustls_root_cert_store_add_pem (f_certs F) (f_add F) p pem n strict)"
| "perform_key F (RootStoreFree p) =
     handing (\<lambda>_ _. {#}) (rustls_root_cert_store_free p)"
| "perform_key F (VerifierNew p) =
     handing (\<lambda>p _. ptr_refs RVerifier p) (rustls_client_cert_verifier_new p)"
| "perform_key F (VerifierFree v) =
     handing (\<lambda>_ _. {#}) (rustls_client_cert_verifier_free v)"
| "perform_key F (VerifierOptionalNew p) =
     handing (\<lambda>p _. ptr_refs RVerifierOptional p) (rustls_client_cert_verifier_optional_new p)"
| "perform_key F (VerifierOptionalFree v) =
     handing (\<lambda>_ _. {#}) (rustls_client_cert_verifier_optional_free v)"

primrec perform_client :: "foreign \<Rightarrow> client_call \<Rightarrow> (world, resource multiset) comp" where
  "perform_client F ClientBuilderNew =
     handing (\<lambda>p _. ptr_refs RClientBuilder p) (rustls_client_config_builder_new (f_safe_defaults F))"
| "perform_client F (ClientBuilderNewCustom suites n vs m out) =
     handing (handed_out m_client_builder_ptr RClientBuilder out) (rustls_client_config_builder_new_custom (f_suite_eq F) (f_suites F) (f_protocol F) (f_version F) (f_with_versions F) suites n vs m out)"
| "perform_client F (ClientSetVerifier b cb) =
     handing (\<lambda>_ _. {#}) (rustls_client_config_builder_dangerous_set_certificate_verifier b cb)"
| "perform_client F (ClientUseRoots b st) =
     handing (\<lambda>_ _. {#}) (rustls_client_config_builder_use_roots b st)"
| "perform_client F (ClientLoadRoots b file) =
     handing (\<lambda>_ _. {#}) (rustls_client_config_builder_load_roots_from_file (f_open F) (f_certs F) (f_add F) b file)"
| "perform_client F (ClientSetAlpn b ps n) =
     handing (\<lambda>_ _. {#}) (rustls_client_config_builder_set_alpn_protocols b ps n)"
| "perform_client F (ClientSetSni b e) =
     handing (\<lambda>_ _. {#}) (rustls_client_config_builder_set_enable_sni b e)"
| "perform_client F (ClientSetKeys b ks n) =
     handing (\<lambda>_ _. {#}) (rustls_client_config_builder_set_certified_key b ks n)"
| "perform_client F (ClientBuild b) =
     handing (\<lambda>p _. ptr_refs RClientConfig p) (rustls_client_config_builder_build (f_with_client_cert_resolver F) (f_with_no_client_auth F) b)"
| "perform_client F (ClientBuilderFree b) =
     handing (\<lambda>_ _. {#}) (rustls_client_config_builder_free b)"
| "perform_client F (ClientConfigFree c) =
     handing (\<lambda>_ _. {#}) (rustls_client_config_free c)"
| "perform_client F (ClientConnect c host out) =
     handing (handed_out m_conn_ptr RConnection out) (rustls_client_connection_new (f_server_name F) (f_client_new F) c host out)"

primrec perform_server :: "foreign \<Rightarrow> server_call \<Rightarrow> (world, resource multiset) comp" where
  "perform_server F ServerBuilderNew =
     handing (\<lambda>p _. ptr_refs RServerBuilder p) (rustls_server_config_builder_new (f_safe_defaults F))"
| "perform_server F (ServerBuilderNewCustom suites n vs m out) =
     handing (handed_out m_server_builder_ptr RServerBuilder out) (rustls_server_config_builder_new_custom (f_suite_eq F) (f_suites F) (f_protocol F) (f_version F) (f_with_versions F) suites n vs m out)"
| "perform_server F (ServerSetVerifier b v) =
     handing (\<lambda>_ _. {#}) (rustls_server_config_builder_set_client_verifier b v)"
| "perform_server F (ServerSetVerifierOptional b v) =
     handing (\<lambda>_ _. {#}) (rustls_server_config_builder_set_client_verifier_optional b v)"
| "perform_server F (ServerSetIgnoreOrder b e) =
     handing (\<lambda>_ _. {#}) (rustls_server_config_builder_set_ignore_client_order b e)"
| "perform_server F (ServerSetAlpn b ps n) =
     handing (\<lambda>_ _. {#}) (rustls_server_config_builder_set_alpn_protocols b ps n)"
| "perform_server F (ServerSetKeys b ks n) =
     handing (\<lambda>_ _. {#}) (rustls_server_config_builder_set_certified_keys b ks n)"
| "perform_server F (ServerSetHello b cb) =
     handing (\<lambda>_ _. {#}) (rustls_server_config_builder_set_hello_callback b cb)"
| "perform_server F (ServerSetPersistence b get put) =
     handing (\<lambda>_ _. {#}) (rustls_server_config_builder_set_persistence b get put)"
| "perform_server F (ServerBuild b) =
     handing (\<lambda>p _. ptr_refs RServerConfig p) (rustls_server_config_builder_build (f_with_cert_resolver F) b)"
| "perform_server F (ServerBuilderFree b) =
     handing (\<lambda>_ _. {#}) (rustls_server_config_builder_free b)"
| "perform_server F (ServerConfigFree c) =
     handing (\<lambda>_ _. {#}) (rustls_server_config_free c)"
| "perform_server F (ServerAccept c out) =
     handing (handed_out m_conn_ptr RConnection out) (rustls_server_connection_new (f_server_new F) c out)"

primrec perform_connection :: "foreign \<Rightarrow> connection_call \<Rightarrow> (world, resource multiset) comp" where
  "perform_connection F (SetUserdata c u) =
     handing (\<lambda>_ _. {#}) (rustls_connection_set_userdata c u)"
| "perform_connection F (SetLogCallback c cb) =
     handing (\<lambda>_ _. {#}) (rustls_connection_set_log_callback (f_set_logger F) (f_set_max_level F) c cb)"
| "perform_connection F (ReadTls c cb u out) =
     handing (\<lambda>_ _. {#}) (rustls_connection_read_tls (r_read_tls (f_methods F)) (c_recv (f_callbacks F)) c cb u out)"
| "perform_connection F (WriteTls c cb u out) =
     handing (\<lambda>_ _. {#}) (rustls_connection_write_tls (r_write_tls (f_methods F)) (c_send (f_callbacks F)) c cb u out)"
| "perform_connection F (WriteTlsVectored c cb u out) =
     handing (\<lambda>_ _. {#}) (rustls_connection_write_tls_vectored (r_write_tls (f_methods F)) (c_sendv (f_callbacks F)) c cb u out)"
| "perform_connection F (ProcessNewPackets c) =
     handing (\<lambda>_ _. {#}) (rustls_connection_process_new_packets (r_process (f_methods F)) c)"
| "perform_connection F (WantsRead c) =
     handing (\<lambda>_ _. {#}) (rustls_connection_wants_read (r_wants_read (f_methods F)) c)"
| "perform_connection F (WantsWrite c) =
     handing (\<lambda>_ _. {#}) (rustls_connection_wants_write (r_wants_write (f_methods F)) c)"
| "perform_connection F (IsHandshaking c) =
     handing (\<lambda>_ _. {#}) (rustls_connection_is_handshaking (r_is_handshaking (f_methods F)) c)"
| "perform_connection F (SetBufferLimit c n) =
     handing (\<lambda>_ _. {#}) (rustls_connection_set_buffer_limit (r_set_buffer_limit (f_methods F)) c n)"
| "perform_connection F (SendCloseNotify c) =
     handing (\<lambda>_ _. {#}) (rustls_connection_send_close_notify (r_send_close_notify (f_methods F)) c)"
| "perform_connection F (GetPeerCertificate c i) =
     handing (\<lambda>_ _. {#}) (rustls_connection_get_peer_certificate (r_peer_certificates (f_methods F)) c i)"
| "perform_connection F (GetAlpn c out out_len) =
     handing (\<lambda>_ _. {#}) (rustls_connection_get_alpn_protocol (r_alpn_protocol (f_methods F)) c out out_len)"
| "perform_connection F (GetProtocolVersion c) =
     handing (\<lambda>_ _. {#}) (rustls_connection_get_protocol_version (r_protocol_version (f_methods F)) (\<lambda>v. v) c)"
| "perform_connection F (GetCiphersuite c) =
     handing (\<lambda>_ _. {#}) (rustls_connection_get_negotiated_ciphersuite (r_negotiated (f_methods F)) (f_suite_eq F) (f_suites F) c)"
| "perform_connection F (GetSniHostname c buf n out) =
     handing (\<lambda>_ _. {#}) (rustls_server_connection_get_sni_hostname (r_sni_hostname (f_methods F)) c buf n out)"
| "perform_connection F (WritePlain c buf n out) =
     handing (\<lambda>_ _. {#}) (rustls_connection_write (r_write (f_methods F)) c buf n out)"
| "perform_connection F (ReadPlain c buf n out) =
     handing (\<lambda>_ _. {#}) (rustls_connection_read (r_read (f_methods F)) c buf n out)"
| "perform_connection F (ReadPlain2 c buf n out) =
     handing (\<lambda>_ _. {#}) (rustls_connection_read_2 (r_read_buf (f_methods F)) c buf n out)"
| "perform_connection F (ConnectionFree c) =
     handing (\<lambda>_ _. {#}) (rustls_connection_free (f_drop F) c)"

primrec perform :: "foreign \<Rightarrow> api_call \<Rightarrow> (world, resource multiset) comp" where
  "perform F (Keys c) = perform_key F c"
| "perform F (ClientConfigs c) = perform_client F c"
| "perform F (ServerConfigs c) = perform_server F c"
| "perform F (Connections c) = perform_connection F c"

text \<open>The handles that a call takes from the program, whatever it returns.\<close>

primrec consumed_key :: "key_call \<Rightarrow> resource multiset" where
  "consumed_key (KeyBuild chain n key m out) = {#}"
| "consumed_key (KeyCloneWithOcsp p ocsp out) = {#}"
| "consumed_key (KeyGetCertificate p i) = {#}"
| "consumed_key (KeyFree p) = ptr_refs RKey p"
| "consumed_key RootStoreNew = {#}"
| "consumed_key (RootStoreAddPem p pem n strict) = {#}"
| "consumed_key (RootStoreFree p) = ptr_refs RRootStore p"
| "consumed_key (VerifierNew p) = {#}"
| "consumed_key (VerifierFree v) = ptr_refs RVerifier v"
| "consumed_key (VerifierOptionalNew p) = {#}"
| "consumed_key (VerifierOptionalFree v) = ptr_refs RVerifierOptional v"

primrec consumed_client :: "client_call \<Rightarrow> resource multiset" where
  "consumed_client ClientBuilderNew = {#}"
| "consumed_client (ClientBuilderNewCustom suites n vs m out) = {#}"
| "consumed_client (ClientSetVerifier b cb) = {#}"
| "consumed_client (ClientUseRoots b st) = {#}"
| "consumed_client (ClientLoadRoots b file) = {#}"
| "consumed_client (ClientSetAlpn b ps n) = {#}"
| "consumed_client (ClientSetSni b e) = {#}"
| "consumed_client (ClientSetKeys b ks n) = {#}"
| "consumed_client (ClientBuild b) = ptr_refs RClientBuilder b"
| "consumed_client (ClientBuilderFree b) = ptr_refs RClientBuilder b"
| "consumed_client (ClientConfigFree c) = ptr_refs RClientConfig c"
| "consumed_client (ClientConnect c host out) = {#}"

primrec consumed_server :: "server_call \<Rightarrow> resource multiset" where
  "consumed_server ServerBuilderNew = {#}"
| "consumed_server (ServerBuilderNewCustom suites n vs m out) = {#}"
| "consumed_server (ServerSetVerifier b v) = {#}"
| "consumed_server (ServerSetVerifierOptional b v) = {#}"
| "consumed_server (ServerSetIgnoreOrder b e) = {#}"
| "consumed_server (ServerSetAlpn b ps n) = {#}"
| "consumed_server (ServerSetKeys b ks n) = {#}"
| "consumed_server (ServerSetHello b cb) = {#}"
| "consumed_server (ServerSetPersistence b get put) = {#}"
| "consumed_server (ServerBuild b) = ptr_refs RServerBuilder b"
| "consumed_server (ServerBuilderFree b) = ptr_refs RServerBuilder b"
| "consumed_server (ServerConfigFree c) = ptr_refs RServerConfig c"
| "consumed_server (ServerAccept c out) = {#}"

primrec consumed_connection :: "connection_call \<Rightarrow> resource multiset" where
  "consumed_connection (SetUserdata c u) = {#}"
| "consumed_connection (SetLogCallback c cb) = {#}"
| "consumed_connection (ReadTls c cb u out) = {#}"
| "consumed_connection (WriteTls c cb u out) = {#}"
| "consumed_connection (WriteTlsVectored c cb u out) = {#}"
| "consumed_connection (ProcessNewPackets c) = {#}"
| "consumed_connection (WantsRead c) = {#}"
| "consumed_connection (WantsWrite c) = {#}"
| "consumed_connection (IsHandshaking c) = {#}"
| "consumed_connection (SetBufferLimit c n) = {#}"
| "consumed_connection (SendCloseNotify c) = {#}"
| "consumed_connection (GetPeerCertificate c i) = {#}"
| "consumed_connection (GetAlpn c out out_len) = {#}"
| "consumed_connection (GetProtocolVersion c) = {#}"
| "consumed_connection (GetCiphersuite c) = {#}"
| "consumed_connection (GetSniHostname c buf n out) = {#}"
| "consumed_connection (WritePlain c buf n out) = {#}"
| "consumed_connection (ReadPlain c buf n out) = {#}"
| "consumed_connection (ReadPlain2 c buf n out) = {#}"
| "consumed_connection (ConnectionFree c) = ptr_refs RConnection c"

primrec consumed :: "api_call \<Rightarrow> resource multiset" where
  "consumed (Keys c) = consumed_key c"
| "consumed (ClientConfigs c) = consumed_client c"
| "consumed (ServerConfigs c) = consumed_server c"
| "consumed (Connections c) = consumed_connection c"

text \<open>
  What a program that owns the handles \<open>H\<close> may call. Calls that run callbacks also need the handles that these use,
  which cannot include the connection that is being worked on.
\<close>

primrec permitted_key :: "key_call \<Rightarrow> resource multiset \<Rightarrow> world \<Rightarrow> bool" where
  "permitted_key (KeyBuild chain n key m out) H w = (readable u8_mem chain n w \<and> readable u8_mem key m w \<and> (\<forall>a. out = Ptr a \<longrightarrow> m_key_ptr w a \<noteq> None))"
| "permitted_key (KeyCloneWithOcsp p ocsp out) H w = (may_borrow RKey p H \<and> (\<forall>a. out = Ptr a \<longrightarrow> m_key_ptr w a \<noteq> None)
     \<and> (\<forall>a. ocsp = Ptr a \<longrightarrow> (\<exists>s. m_slice w a = Some s \<and> readable u8_mem (rsb_data s) (rsb_len s) w)))"
| "permitted_key (KeyGetCertificate p i) H w = (may_borrow RKey p H)"
| "permitted_key (KeyFree p) H w = (ptr_refs RKey p \<subseteq># H)"
| "permitted_key RootStoreNew H w = (True)"
| "permitted_key (RootStoreAddPem p pem n strict) H w = (may_borrow RRootStore p H \<and> readable u8_mem pem n w)"
| "permitted_key (RootStoreFree p) H w = (ptr_refs RRootStore p \<subseteq># H)"
| "permitted_key (VerifierNew p) H w = (may_borrow RRootStore p H)"
| "permitted_key (VerifierFree v) H w = (ptr_refs RVerifier v \<subseteq># H)"
| "permitted_key (VerifierOptionalNew p) H w = (may_borrow RRootStore p H)"
| "permitted_key (VerifierOptionalFree v) H w = (ptr_refs RVerifierOptional v \<subseteq># H)"

primrec permitted_client :: "client_call \<Rightarrow> resource multiset \<Rightarrow> world \<Rightarrow> bool" where
  "permitted_client ClientBuilderNew H w = (True)"
| "permitted_client (ClientBuilderNewCustom suites n vs m out) H w = (readable suite_mem suites n w \<and> readable u16_mem vs m w \<and> (\<exists>a. out = Ptr a \<and> m_client_builder_ptr w a \<noteq> None))"
| "permitted_client (ClientSetVerifier b cb) H w = (may_borrow RClientBuilder b H)"
| "permitted_client (ClientUseRoots b st) H w = (may_borrow RClientBuilder b H \<and> may_borrow RRootStore st H)"
| "permitted_client (ClientLoadRoots b file) H w = (may_borrow RClientBuilder b H \<and> (\<forall>f. file = Ptr f \<longrightarrow> cstr_bytes (m_u8 w) f \<noteq> None))"
| "permitted_client (ClientSetAlpn b ps n) H w = (may_borrow RClientBuilder b H \<and> alpn_readable ps n w)"
| "permitted_client (ClientSetSni b e) H w = (may_borrow RClientBuilder b H)"
| "permitted_client (ClientSetKeys b ks n) H w = (may_borrow RClientBuilder b H \<and> keys_readable ks n H w)"
| "permitted_client (ClientBuild b) H w = (ptr_refs RClientBuilder b \<subseteq># H)"
| "permitted_client (ClientBuilderFree b) H w = (ptr_refs RClientBuilder b \<subseteq># H)"
| "permitted_client (ClientConfigFree c) H w = (ptr_refs RClientConfig c \<subseteq># H)"
| "permitted_client (ClientConnect c host out) H w = (may_borrow RClientConfig c H \<and> (\<forall>h. host = Ptr h \<longrightarrow> cstr_bytes (m_u8 w) h \<noteq> None)
     \<and> (\<exists>a. out = Ptr a \<and> m_conn_ptr w a \<noteq> None))"

primrec permitted_server :: "server_call \<Rightarrow> resource multiset \<Rightarrow> world \<Rightarrow> bool" where
  "permitted_server ServerBuilderNew H w = (True)"
| "permitted_server (ServerBuilderNewCustom suites n vs m out) H w = (readable suite_mem suites n w \<and> readable u16_mem vs m w \<and> (\<exists>a. out = Ptr a \<and> m_server_builder_ptr w a \<noteq> None))"
| "permitted_server (ServerSetVerifier b v) H w = (may_borrow RServerBuilder b H \<and> may_borrow RVerifier v H)"
| "permitted_server (ServerSetVerifierOptional b v) H w = (may_borrow RServerBuilder b H \<and> may_borrow RVerifierOptional v H)"
| "permitted_server (ServerSetIgnoreOrder b e) H w = (may_borrow RServerBuilder b H)"
| "permitted_server (ServerSetAlpn b ps n) H w = (may_borrow RServerBuilder b H \<and> alpn_readable ps n w)"
| "permitted_server (ServerSetKeys b ks n) H w = (may_borrow RServerBuilder b H \<and> keys_readable ks n H w)"
| "permitted_server (ServerSetHello b cb) H w = (may_borrow RServerBuilder b H)"
| "permitted_server (ServerSetPersistence b get put) H w = (may_borrow RServerBuilder b H)"
| "permitted_server (ServerBuild b) H w = (ptr_refs RServerBuilder b \<subseteq># H)"
| "permitted_server (ServerBuilderFree b) H w = (ptr_refs RServerBuilder b \<subseteq># H)"
| "permitted_server (ServerConfigFree c) H w = (ptr_refs RServerConfig c \<subseteq># H)"
| "permitted_server (ServerAccept c out) H w = (may_borrow RServerConfig c H \<and> (\<exists>a. out = Ptr a \<and> m_conn_ptr w a \<noteq> None))"

primrec permitted_connection :: "callback_uses \<Rightarrow> connection_call \<Rightarrow> resource multiset \<Rightarrow> world \<Rightarrow> bool" where
  "permitted_connection U (SetUserdata c u) H w = (may_borrow RConnection c H)"
| "permitted_connection U (SetLogCallback c cb) H w = (may_borrow RConnection c H)"
| "permitted_connection U (ReadTls c cb u out) H w = (may_borrow RConnection c H \<and> lends_to U c H w \<and> writable (m_usize w) out)"
| "permitted_connection U (WriteTls c cb u out) H w = (may_borrow RConnection c H \<and> lends_to U c H w \<and> writable (m_usize w) out)"
| "permitted_connection U (WriteTlsVectored c cb u out) H w = (may_borrow RConnection c H \<and> lends_to U c H w \<and> writable (m_usize w) out)"
| "permitted_connection U (ProcessNewPackets c) H w = (may_borrow RConnection c H \<and> lends_to U c H w)"
| "permitted_connection U (WantsRead c) H w = (may_borrow RConnection c H)"
| "permitted_connection U (WantsWrite c) H w = (may_borrow RConnection c H)"
| "permitted_connection U (IsHandshaking c) H w = (may_borrow RConnection c H)"
| "permitted_connection U (SetBufferLimit c n) H w = (may_borrow RConnection c H \<and> lends_to U c H w)"
| "permitted_connection U (SendCloseNotify c) H w = (may_borrow RConnection c H \<and> lends_to U c H w)"
| "permitted_connection U (GetPeerCertificate c i) H w = (may_borrow RConnection c H)"
| "permitted_connection U (GetAlpn c out out_len) H w = (may_borrow RConnection c H \<and> writable (m_u8_ptr w) out \<and> writable (m_usize w) out_len)"
| "permitted_connection U (GetProtocolVersion c) H w = (may_borrow RConnection c H)"
| "permitted_connection U (GetCiphersuite c) H w = (may_borrow RConnection c H)"
| "permitted_connection U (GetSniHostname c buf n out) H w = (may_borrow RConnection c H \<and> writable_bytes buf (unat n) w \<and> writable (m_usize w) out)"
| "permitted_connection U (WritePlain c buf n out) H w = (may_borrow RConnection c H \<and> lends_to U c H w \<and> readable u8_mem buf n w \<and> writable (m_usize w) out)"
| "permitted_connection U (ReadPlain c buf n out) H w = (may_borrow RConnection c H \<and> lends_to U c H w \<and> writable_bytes buf (unat n) w \<and> writable (m_usize w) out)"
| "permitted_connection U (ReadPlain2 c buf n out) H w = (may_borrow RConnection c H \<and> lends_to U c H w \<and> writable_bytes buf (unat n) w \<and> writable (m_usize w) out)"
| "permitted_connection U (ConnectionFree c) H w = (ptr_refs RConnection c \<subseteq># H)"

primrec permitted :: "callback_uses \<Rightarrow> api_call \<Rightarrow> resource multiset \<Rightarrow> world \<Rightarrow> bool" where
  "permitted U (Keys c) = permitted_key c"
| "permitted U (ClientConfigs c) = permitted_client c"
| "permitted U (ServerConfigs c) = permitted_server c"
| "permitted U (Connections c) = permitted_connection U c"

lemmas owned_entries =
  key_build_owned key_clone_owned certified_key_free_owned root_store_new_owned root_store_add_pem_owned
  root_store_free_owned verifier_new_owned verifier_free_owned client_builder_new_owned client_new_custom_owned
  client_settings_owned client_set_keys_owned client_build_owned client_builder_free_owned client_config_free_owned
  client_connection_new_owned server_builder_new_owned server_new_custom_owned server_set_verifier_owned
  server_settings_owned server_set_keys_owned server_set_hello_owned server_build_owned server_builder_free_owned
  server_config_free_owned server_connection_new_owned connection_set_userdata_owned process_owned
  connection_free_owned
  connection_queries_owned connection_methods_owned set_log_callback_owned tls_io_owned connection_write_owned alpn_owned
  connection_read_owned connection_read_2_owned sni_hostname_owned key_certificate_owned

text \<open>
  \<open>rustls_certified_key_free\<close> drops the key as an opaque type: as the last owner it would leave the signing key
  behind.  The programs of the leak property hand their last reference to a configuration instead.
\<close>

definition releases :: "api_call \<Rightarrow> world \<Rightarrow> bool" where
  "releases c w = (case c of Keys (KeyFree p) \<Rightarrow> not_last p w | _ \<Rightarrow> True)"

lemma perform_owned:
  assumes "foreign_ok e C F" and "owned e C w (H + consumed c)" and "permitted (f_uses F) c (H + consumed c) w" and "e \<longrightarrow> releases c w"
  shows "returns (\<lambda>g w'. owned e C w' (H + g)) (perform F c w)"
proof (cases c)
  case (Keys k)
  with assms show ?thesis by (cases k) (auto simp: foreign_ok_def releases_def intro!: owned_entries)
next
  case (ClientConfigs k)
  with assms show ?thesis by (cases k) (auto simp: foreign_ok_def releases_def intro!: owned_entries)
next
  case (ServerConfigs k)
  with assms show ?thesis by (cases k) (auto simp: foreign_ok_def releases_def intro!: owned_entries)
next
  case (Connections k)
  with assms show ?thesis by (cases k) (auto simp: foreign_ok_def methods_ok_def releases_def intro!: owned_entries)
qed

section \<open>Programs\<close>

text \<open>What the C program cannot touch: the heap of the library and its allocator.\<close>

definition library_part :: "world \<Rightarrow> nat \<times> (resource \<Rightarrow> nat) \<times> _" where
  "library_part w = (next_addr w, supply_of w, boxes w, h_client_config w, h_server_config w, h_certified_key w, h_signing_key w,
     h_client_verifier w, h_client_verifier_optional w)"

text \<open>
  With \<open>e\<close>, the program accounts for every handle; without it, it may forget handles (and leak what they own).
\<close>

inductive api_reachable :: "bool \<Rightarrow> foreign \<Rightarrow> world \<Rightarrow> resource multiset \<Rightarrow> bool" for e F where
  start: "api_reachable e F empty_world {#}"
| own_memory: "\<lbrakk>api_reachable e F w H; library_part w' = library_part w\<rbrakk> \<Longrightarrow> api_reachable e F w' H"
| forget: "\<lbrakk>\<not> e; api_reachable e F w (H + H')\<rbrakk> \<Longrightarrow> api_reachable e F w H"
| call: "\<lbrakk>api_reachable e F w H; permitted (f_uses F) c H w; e \<longrightarrow> releases c w; perform F c w = Returned g w'\<rbrakk> \<Longrightarrow>
     api_reachable e F w' (H - consumed c + g)"

lemma consumed_permitted: "permitted U c H w \<Longrightarrow> consumed c \<subseteq># H"
proof (cases c)
  case (Keys k)
  then show "permitted U c H w \<Longrightarrow> ?thesis" by (cases k) simp_all
next
  case (ClientConfigs k)
  then show "permitted U c H w \<Longrightarrow> ?thesis" by (cases k) simp_all
next
  case (ServerConfigs k)
  then show "permitted U c H w \<Longrightarrow> ?thesis" by (cases k) simp_all
next
  case (Connections k)
  then show "permitted U c H w \<Longrightarrow> ?thesis" by (cases k) simp_all
qed

lemma permitted_returns:
  assumes "foreign_ok e C F" and "owned e C w H" and "permitted (f_uses F) c H w" and "e \<longrightarrow> releases c w"
  shows "returns (\<lambda>g w'. owned e C w' (H - consumed c + g)) (perform F c w)"
  using perform_owned [OF assms(1), of w "H - consumed c" c] assms(2-4) consumed_permitted [OF assms(3)] by simp

lemma owned_library: "library_part w' = library_part w \<Longrightarrow> owned e C w' H = owned e C w H"
  by (auto simp: library_part_def boxes_def owned_def well_formed_iff refs_def)

lemma contents_empty [simp]: "contents n (\<lambda>_. None) c = {#}"
  by (simp add: contents_def contents_at_def)

lemma owned_empty: "owned e C empty_world {#}"
proof -
  have "supply_of empty_world r = 0" for r by (cases r) (simp_all add: supply_at_def empty_world_def)
  then show ?thesis by (simp add: owned_def covers_def well_formed_iff refs_def empty_world_def)
qed

lemma reachable_owned:
  assumes "api_reachable e F w H" and "foreign_ok e C F"
  shows "owned e C w H"
  using assms(1)
proof (induction rule: api_reachable.induct)
  case start
  show ?case by (rule owned_empty)
next
  case (own_memory w H w')
  then show ?case using owned_library by blast
next
  case (forget w H H')
  then show ?case using owned_less by simp
next
  case (call w H c g w')
  from permitted_returns [OF assms(2) call.IH call.hyps(2,3)] show ?case unfolding call.hyps(4) returns_simps .
qed

lemma owned_supplied:
  assumes "owned e C w H" and "r \<in># refs C w + H"
  shows "0 < supply_of w r"
proof -
  have "0 < count (refs C w + H) r" using assms(2) by (simp only: count_greater_zero_iff)
  also have "\<dots> \<le> supply_of w r" by (rule owned_le [OF assms(1)])
  finally show ?thesis .
qed

text \<open>What can be referred to by what.\<close>

lemma contents_member: "r \<in># contents n h c \<longleftrightarrow> (\<exists>a < n. \<exists>v. h a = Some v \<and> r \<in># c v)"
proof (induction n)
  case (Suc n)
  have "contents (Suc n) h c = contents n h c + contents_at h c n" by (simp add: contents_def)
  with Suc show ?case by (auto simp: contents_at_def less_Suc_eq split: option.splits)
qed (simp add: contents_def)

text \<open>The resources that are shared by counting; the others belong to the C program alone.\<close>

definition is_shared :: "resource \<Rightarrow> bool" where
  "is_shared r =
     (case r of RConnection a \<Rightarrow> False | RClientBuilder a \<Rightarrow> False | RServerBuilder a \<Rightarrow> False | RRootStore a \<Rightarrow> False
      | _ \<Rightarrow> True)"

lemma refs_member:
  assumes "r \<in># refs C w"
  shows "(\<exists>a c. h_connection w a = Some c \<and> r \<in># C (conn_inner c))
    \<or> ((h_client_builder w \<noteq> Map.empty \<or> h_server_builder w \<noteq> Map.empty \<or> h_client_config w \<noteq> Map.empty \<or> h_server_config w \<noteq> Map.empty)
       \<and> (\<exists>k. r = RKey k \<or> r = RVerifier k \<or> r = RVerifierOptional k))
    \<or> (h_certified_key w \<noteq> Map.empty \<and> (\<exists>k. r = RSigningKey k))"
proof -
  have resolvers: "r \<in># client_resolver_refs x \<Longrightarrow> \<exists>k. r = RKey k" "r \<in># server_resolver_refs y \<Longrightarrow> \<exists>k. r = RKey k"
    "r \<in># verifier_refs v \<Longrightarrow> \<exists>k. r = RVerifier k \<or> r = RVerifierOptional k" for x y v
    by (cases x, auto) (cases y, auto, cases v, auto)
  have held: "r \<in># client_builder_refs b \<Longrightarrow> \<exists>k. r = RKey k" "r \<in># client_config_refs c \<Longrightarrow> \<exists>k. r = RKey k"
    "r \<in># server_builder_refs b' \<Longrightarrow> \<exists>k. r = RKey k \<or> r = RVerifier k \<or> r = RVerifierOptional k"
    "r \<in># server_config_refs c' \<Longrightarrow> \<exists>k. r = RKey k \<or> r = RVerifier k \<or> r = RVerifierOptional k" for b c b' c'
    using resolvers unfolding client_builder_refs_def client_config_refs_def server_builder_refs_def server_config_refs_def opt_refs_def
    by (fastforce split: option.splits)+
  from assms consider
      (connection) "r \<in># contents (next_addr w) (h_connection w) (\<lambda>c. C (conn_inner c))"
    | (client_builder) "r \<in># contents (next_addr w) (h_client_builder w) client_builder_refs"
    | (server_builder) "r \<in># contents (next_addr w) (h_server_builder w) server_builder_refs"
    | (client_config) "r \<in># contents (next_addr w) (h_client_config w) (\<lambda>i. client_config_refs (arc_data i))"
    | (server_config) "r \<in># contents (next_addr w) (h_server_config w) (\<lambda>i. server_config_refs (arc_data i))"
    | (key) "r \<in># contents (next_addr w) (h_certified_key w) (\<lambda>i. key_refs (arc_data i))"
    by (auto simp: refs_def)
  then show ?thesis
    unfolding contents_member by cases (use held in \<open>fastforce simp: key_refs_def\<close>)+
qed

lemma no_holders:
  assumes "owned True C w {#}" and "\<And>i r. r \<in># C i \<Longrightarrow> is_shared r"
  shows "h_connection w = Map.empty \<and> h_client_builder w = Map.empty \<and> h_server_builder w = Map.empty \<and> h_root_store w = Map.empty"
    and "h_client_config w = Map.empty \<and> h_server_config w = Map.empty"
    and "h_certified_key w = Map.empty \<and> h_client_verifier w = Map.empty \<and> h_client_verifier_optional w = Map.empty"
    and "h_signing_key w = Map.empty"
proof -
  have exact: "supply_of w r = 0" if "r \<notin># refs C w" for r
    using assms(1) that by (simp add: owned_def covers_def not_in_iff)
  have gone: "supply_of w (RConnection a) = 0 \<Longrightarrow> h_connection w a = None" "supply_of w (RClientBuilder a) = 0 \<Longrightarrow> h_client_builder w a = None"
    "supply_of w (RServerBuilder a) = 0 \<Longrightarrow> h_server_builder w a = None" "supply_of w (RRootStore a) = 0 \<Longrightarrow> h_root_store w a = None"
    "supply_of w (RClientConfig a) = 0 \<Longrightarrow> h_client_config w a = None" "supply_of w (RServerConfig a) = 0 \<Longrightarrow> h_server_config w a = None"
    "supply_of w (RKey a) = 0 \<Longrightarrow> h_certified_key w a = None" "supply_of w (RSigningKey a) = 0 \<Longrightarrow> h_signing_key w a = None"
    "supply_of w (RVerifier a) = 0 \<Longrightarrow> h_client_verifier w a = None"
    "supply_of w (RVerifierOptional a) = 0 \<Longrightarrow> h_client_verifier_optional w a = None" for a
    using owned_well_formed [OF assms(1)] unfolding well_formed_iff
    by (auto simp: supply_at_def split: option.splits) (metis less_irrefl)+
  show boxes: "h_connection w = Map.empty \<and> h_client_builder w = Map.empty \<and> h_server_builder w = Map.empty \<and> h_root_store w = Map.empty"
    using refs_member [of _ C w] assms(2) by (intro conjI ext gone exact notI) (fastforce simp: is_shared_def)+
  show configs: "h_client_config w = Map.empty \<and> h_server_config w = Map.empty"
    using refs_member [of _ C w] boxes by (intro conjI ext gone exact notI) fastforce+
  show keys: "h_certified_key w = Map.empty \<and> h_client_verifier w = Map.empty \<and> h_client_verifier_optional w = Map.empty"
    using refs_member [of _ C w] boxes configs by (intro conjI ext gone exact notI) fastforce+
  show "h_signing_key w = Map.empty"
    using refs_member [of _ C w] boxes configs keys by (intro conjI ext gone exact notI) fastforce+
qed

section \<open>A model of the foreign code\<close>

text \<open>
  The smallest rustls that meets the contract: a connection holds a reference to its configuration, named by the
  token of the connection, and gives it back when it is dropped.
\<close>

fun demo_refs :: connection_refs where
  "demo_refs (Client (ClientConnection n)) = {#RClientConfig n#}"
| "demo_refs (Server (ServerConnection n)) = {#RServerConfig n#}"

fun demo_drop :: "rustls_Connection \<Rightarrow> (world, unit) comp" where
  "demo_drop (Client (ClientConnection n)) = release_client_config n"
| "demo_drop (Server (ServerConnection n)) = release_server_config n"

definition demo_methods :: rustls_methods where
  "demo_methods =
     \<lparr>r_read_tls = demo_read_tls, r_write_tls = demo_write_tls, r_process = (\<lambda>s. Returned (Inr ()) s),
      r_wants_read = (\<lambda>i. True), r_wants_write = (\<lambda>i. False), r_is_handshaking = (\<lambda>i. False),
      r_set_buffer_limit = (\<lambda>n. Returned ()), r_send_close_notify = Returned (),
      r_peer_certificates = (\<lambda>i. None), r_alpn_protocol = (\<lambda>i. None), r_protocol_version = (\<lambda>i. None),
      r_negotiated = (\<lambda>i. None), r_sni_hostname = (\<lambda>s. None),
      r_write = (\<lambda>bs. Returned (Inr (of_nat (length bs)))), r_read = Returned (Inr 0),
      r_read_buf = (\<lambda>n. Returned (Inr ()))\<rparr>"

definition demo_foreign :: foreign where
  "demo_foreign =
     \<lparr>f_pkcs8 = (\<lambda>b. Some [b]), f_rsa = (\<lambda>b. None), f_any_type = (\<lambda>b. Some (SigningKey 0)), f_certs = (\<lambda>b. Some [b]),
      f_CertifiedKey_new = demo_key, f_add = (\<lambda>st cs. (st, 0, 0)), f_open = Some, f_suite_eq = (=), f_suites = [],
      f_protocol = (\<lambda>n. n), f_version = (\<lambda>v. 0), f_with_versions = (\<lambda>_ _. Some (WantsVerifier 0)),
      f_safe_defaults = WantsVerifier 0,
      f_with_client_cert_resolver = (\<lambda>b v r. demo_config v (Some r)),
      f_with_no_client_auth = (\<lambda>b v. demo_config v None),
      f_with_cert_resolver = demo_server_config,
      f_server_name = (\<lambda>n. Some (DnsName n)),
      f_client_new = (\<lambda>c sn. Returned (Inr (ClientConnection c))),
      f_server_new = (\<lambda>c. Returned (Inr (ServerConnection c))),
      f_drop = demo_drop,
      f_methods = demo_methods, f_callbacks = \<lparr>c_recv = demo_recv, c_send = demo_send, c_sendv = demo_sendv\<rparr>,
      f_uses = (\<lambda>w. {}),
      f_set_logger = Returned (Inr ()), f_set_max_level = (\<lambda>l. Returned ())\<rparr>"

lemma unchanged_keeps:
  assumes "\<And>i w. \<exists>r. m (i, w) = Returned r (i, w)"
  shows "keeps_owned e C U m \<and> keeps_memory m"
proof -
  have "leaves P (m (i, w)) = P (i, w)" "defined (m (i, w))" for P i w
    using assms [of i w] by auto
  then show ?thesis by (simp add: keeps_owned_def keeps_memory_def memory_stays_def)
qed

lemma demo_methods_ok:
  "methods_ok e C U \<lparr>c_recv = demo_recv, c_send = demo_send, c_sendv = demo_sendv\<rparr> demo_methods"
proof -
  have "\<exists>r. demo_read_tls (CallbackReader_read demo_recv rd) (i, w) = Returned r (i, w)"
    "\<exists>r. demo_write_tls (CallbackWriter_dyn demo_send wr) (i, w) = Returned r (i, w)"
    "\<exists>r. demo_write_tls (VectoredCallbackWriter_dyn demo_sendv vw) (i, w) = Returned r (i, w)" for rd wr vw i w
    by (simp_all add: demo_read_tls_def demo_write_tls_def on_world_def adapter_defs CallbackWriter_dyn_def
        VectoredCallbackWriter_dyn_def default_write_vectored_def demo_io_defs)
  then show ?thesis
    by (simp add: methods_ok_def demo_methods_def unchanged_keeps keeps_owned_buf_def lent_back_def memory_stays_def)
qed

lemma demo_foreign_ok: "foreign_ok e demo_refs demo_foreign"
proof -
  have "drops_connection e demo_refs demo_drop"
    unfolding drops_connection_def
  proof (intro allI impI)
    fix i w H
    assume "owned e demo_refs w (H + demo_refs i)"
    then show "returns (\<lambda>_. kept e demo_refs w H) (demo_drop i w)"
      using release_client_config_returns [of e demo_refs w H] release_server_config_returns [of e demo_refs w H]
      by (cases i rule: demo_refs.cases) simp_all
  qed
  then show ?thesis
    by (simp add: foreign_ok_def demo_foreign_def demo_key_def demo_config_def demo_server_config_def makes_connection_def
        demo_methods_ok stable_uses_def kept_self)
qed

text \<open>A run: a key, a builder that uses it, and the configuration made from the builder.\<close>

definition demo_run :: "api_call list" where
  "demo_run =
     [Keys (KeyBuild (SBorrow [1]) 1 (SBorrow [2]) 1 (Ptr 0)), ClientConfigs ClientBuilderNew,
      ClientConfigs (ClientSetKeys (Ptr 3) (SBorrow [Ptr 2]) 1), Keys (KeyFree (Ptr 2)),
      ClientConfigs (ClientBuild (Ptr 3))]"

fun run_calls :: "foreign \<Rightarrow> api_call list \<Rightarrow> world \<Rightarrow> resource multiset \<Rightarrow> (world \<times> resource multiset) option" where
  "run_calls F [] w H = Some (w, H)"
| "run_calls F (c # cs) w H =
     (if permitted (f_uses F) c H w \<and> releases c w
      then case perform F c w of Returned g w' \<Rightarrow> run_calls F cs w' (H - consumed c + g) | _ \<Rightarrow> None
      else None)"

lemma run_calls_reachable:
  "\<lbrakk>api_reachable e F w H; run_calls F cs w H = Some (w', H')\<rbrakk> \<Longrightarrow> api_reachable e F w' H'"
  by (induction F cs w H rule: run_calls.induct) (auto split: if_splits outcome.splits intro: api_reachable.call)

lemma demo_run_result:
  "\<exists>w. run_calls demo_foreign demo_run (empty_world\<lparr>m_key_ptr := [0 \<mapsto> Null]\<rparr>) {#} = Some (w, {#RClientConfig 4#})
     \<and> h_client_config w 4 = Some \<lparr>strong = 1, arc_data = demo_config NoneVerifier (Some (ResolvesClientCertFromChoices [2]))\<rparr>"
  by (simp add: demo_run_def demo_foreign_def empty_world_def rustls_certified_key_build_def certified_key_build_def entry_defs alloc_defs vec_pop_def write_cell_def
    handing_def handed_out_def rustls_client_config_builder_new_def readable_def keys_readable_def rustls_client_config_builder_set_certified_key_def to_arc_def
    drop_client_resolver_def rustls_certified_key_free_def arc_drop_opaque_def arc_drop_def rustls_client_config_builder_build_def try_box_from_ptr_def to_box_def
    demo_config_def releases_def not_last_def eval_nat_numeral)

lemma supply_of_memory: "supply_of (w\<lparr>m_key_ptr := m\<rparr>) r = supply_of w r"
  by (cases r) simp_all

lemma demo_reachable:
  obtains w where "api_reachable e demo_foreign w {#RClientConfig 4#}"
    and "h_client_config w 4 = Some \<lparr>strong = 1, arc_data = demo_config NoneVerifier (Some (ResolvesClientCertFromChoices [2]))\<rparr>"
proof -
  have "api_reachable e demo_foreign (empty_world\<lparr>m_key_ptr := [0 \<mapsto> Null]\<rparr>) {#}"
    by (rule own_memory [OF start]) (simp add: library_part_def boxes_def fun_eq_iff supply_of_memory)
  then show ?thesis using demo_run_result run_calls_reachable that by blast
qed

section \<open>Properties\<close>



text \<open>
  C2. In every reachable world the strong count of a resource is at least the number of its holders: the
  builders, configurations, keys and connections that refer to it, and the handles of the program.
\<close>

theorem counts_cover_holders:
  assumes "foreign_ok False C F" and "api_reachable False F w H"
  shows "count (refs C w + H) r \<le> supply_of w r"
  using owned_le [OF reachable_owned [OF assms(2,1)]] .

theorem counts_cover_holders_witness:
  "\<exists>w. api_reachable False demo_foreign w {#RClientConfig 4#} \<and> 1 \<le> supply_of w (RClientConfig 4)"
proof -
  obtain w where w: "api_reachable False demo_foreign w {#RClientConfig 4#}" by (rule demo_reachable)
  then show ?thesis using counts_cover_holders [OF demo_foreign_ok w, of "RClientConfig 4"] by auto
qed



text \<open>
  C4. The resolvers of every configuration that exists return, with any choice of rustls, and their caller owns a
  reference to the key it gets: no free can leave a configuration with a dangling key. A client hello resolver returns
  likewise when its callback gives back a key that the program holds.
\<close>

theorem configured_keys_resolve:
  assumes "foreign_ok False C F" and "api_reachable False F w H"
  shows "(h_client_config w a = Some i \<and> cc_cert_resolver (arc_data i) = Some r \<longrightarrow>
      returns (resolved False C H) (ResolvesClientCertFromChoices_resolve choose_scheme r issuers schemes w))
    \<and> (h_server_config w a = Some j \<and> sc_cert_resolver (arc_data j) = ResolvesServerCertFromChoices ks \<longrightarrow>
      returns (resolved False C H) (ResolvesServerCertFromChoices_resolve choose_scheme ks hello w))
    \<and> ((\<forall>v u. client_hello_view get_u16 hello = Some v \<and> userdata_get (USERDATA w) = Inr u \<longrightarrow>
         returns (\<lambda>p w'. owned False C w' H \<and> may_borrow RKey p H) (call cb u v w)) \<longrightarrow>
      returns (resolved False C H) (ClientHelloResolver_resolve get_u16 call cb hello w))"
proof -
  note owned = reachable_owned [OF assms(2,1)]
  have client: "\<forall>k \<in> set ks'. 0 < supply_of w (RKey k)"
    if "h_client_config w a = Some i" "cc_cert_resolver (arc_data i) = Some (ResolvesClientCertFromChoices ks')" for ks'
  proof
    fix k assume "k \<in> set ks'"
    then show "0 < supply_of w (RKey k)"
      using client_config_res.content_supplied [OF owned, of a i "RKey k"] that by (simp add: client_config_refs_def)
  qed
  have server: "\<forall>k \<in> set ks. 0 < supply_of w (RKey k)"
    if "h_server_config w a = Some j" "sc_cert_resolver (arc_data j) = ResolvesServerCertFromChoices ks"
  proof
    fix k assume "k \<in> set ks"
    then show "0 < supply_of w (RKey k)"
      using server_config_res.content_supplied [OF owned, of a j "RKey k"] that by (simp add: server_config_refs_def)
  qed
  have "returns (resolved False C H) (ResolvesClientCertFromChoices_resolve choose_scheme r issuers schemes w)"
    if "h_client_config w a = Some i" "cc_cert_resolver (arc_data i) = Some r"
  proof (cases r)
    case (ResolvesClientCertFromChoices ks')
    with resolve_owned(1) [OF owned client [of ks']] that show ?thesis by simp
  qed
  moreover have "returns (resolved False C H) (ResolvesServerCertFromChoices_resolve choose_scheme ks hello w)"
    if "h_server_config w a = Some j" "sc_cert_resolver (arc_data j) = ResolvesServerCertFromChoices ks"
    unfolding ResolvesServerCertFromChoices_resolve_def by (rule resolve_owned(2) [OF owned server [OF that]])
  moreover have "returns (resolved False C H) (ClientHelloResolver_resolve get_u16 call cb hello w)"
    if "\<forall>v u. client_hello_view get_u16 hello = Some v \<and> userdata_get (USERDATA w) = Inr u \<longrightarrow>
         returns (\<lambda>p w'. owned False C w' H \<and> may_borrow RKey p H) (call cb u v w)"
    using that by (intro hello_resolve_owned [OF owned]) blast
  ultimately show ?thesis by blast
qed

theorem configured_keys_resolve_witness:
  "\<exists>w. api_reachable False demo_foreign w {#RClientConfig 4#}
     \<and> (\<exists>k w'. ResolvesClientCertFromChoices_resolve (\<lambda>_ _. Some (Signer 0)) (ResolvesClientCertFromChoices [2]) [] [] w = Returned k w')"
proof -
  obtain w where w: "api_reachable False demo_foreign w {#RClientConfig 4#}"
    "h_client_config w 4 = Some \<lparr>strong = 1, arc_data = demo_config NoneVerifier (Some (ResolvesClientCertFromChoices [2]))\<rparr>"
    by (rule demo_reachable)
  then show ?thesis
    using configured_keys_resolve [OF demo_foreign_ok w(1), THEN conjunct1, rule_format, OF conjI [OF w(2)],
        of "ResolvesClientCertFromChoices [2]" "\<lambda>_ _. Some (Signer 0)" "[]" "[]"]
    by (auto simp: demo_config_def returns_def simp del: ResolvesClientCertFromChoices_resolve.simps)
qed

end
