(* ===== verification/Ffi_Tests.thy ===== *)
theory Ffi_Tests
  imports Ffi_Protocol "HOL-Library.Sublist"
begin

text \<open>
  The unit tests of the sources, run on the model. A test is a computation: an assertion that does not hold and an
  \<open>unwrap\<close> of an error are panics, and a test passes when it returns. What a test takes from rustls is
  a parameter; the stack variables it hands to the library by pointer are places in the memory of the C program.
\<close>

section \<open>Assertions\<close>

definition assert_that :: "bool \<Rightarrow> ('w, unit) comp" where
  "assert_that b w = (if b then Returned () w else Unwound w)"

definition unwrap :: "'e + 'a \<Rightarrow> ('w, 'a) comp" where
  "unwrap r w = (case r of Inr a \<Rightarrow> Returned a w | Inl _ \<Rightarrow> Unwound w)"

text \<open>\<open>*p.offset(i)\<close>, \<open>None\<close> where that is undefined.\<close>

definition at_offset :: "'v sptr \<Rightarrow> nat \<Rightarrow> 'v option" where
  "at_offset p i = (case p of SBorrow xs \<Rightarrow> if i < length xs then Some (xs ! i) else None | _ \<Rightarrow> None)"

definition passes :: "('a, 'w) outcome \<Rightarrow> bool" where
  "passes r = (\<exists>a w. r = Returned a w)"

lemma test_simps [simp]:
  "assert_that True w = Returned () w" "assert_that False w = Unwound w"
  "unwrap (Inr a) w = Returned a w" "unwrap (Inl e) w = Unwound w"
  "passes (Returned a w)" "\<not> passes (Unwound w)" "\<not> passes Undefined"
  by (simp_all add: assert_that_def unwrap_def passes_def)

lemma passes_assert [simp]: "passes (and_then (assert_that b w) k) \<longleftrightarrow> b \<and> passes (k () w)"
  by (cases b) simp_all

section \<open>Userdata\<close>

text \<open>
  A guard that goes out of scope is dropped; the tests below name the places where that happens. The lookups
  do not change the cell.
\<close>

definition guard_try_pop :: "void_ptr \<Rightarrow> (userdata_cell, unit) comp" where
  "guard_try_pop data_ptr c =
     (case userdata_push data_ptr None c of (r, c) \<Rightarrow>
      and_then (unwrap r c) (\<lambda>guard c.
      and_then (unwrap (userdata_get c) c) (\<lambda>u c.
      and_then (assert_that (u = data_ptr) c) (\<lambda>_ c.
      case try_pop guard c of (r, guard, c) \<Rightarrow>
      and_then (unwrap r c) (\<lambda>_ c.
      case try_pop guard c of (r, guard, c) \<Rightarrow>
      and_then (assert_that (case r of Inl _ \<Rightarrow> True | Inr _ \<Rightarrow> False) c) (\<lambda>_ c.
      Returned () (guard_drop guard c)))))))"

definition guard_try_drop :: "void_ptr \<Rightarrow> (userdata_cell, unit) comp" where
  "guard_try_drop data_ptr c =
     (case userdata_push data_ptr None c of (r, c) \<Rightarrow>
      and_then (unwrap r c) (\<lambda>guard c.
      and_then (unwrap (userdata_get c) c) (\<lambda>u c.
      and_then (assert_that (u = data_ptr) c) (\<lambda>_ c.
      case try_drop guard c of (r, c) \<Rightarrow>
      and_then (unwrap r c) (\<lambda>_ c.
      assert_that (case userdata_get c of Inl _ \<Rightarrow> True | Inr _ \<Rightarrow> False) c)))))"

definition test_guard_drop :: "void_ptr \<Rightarrow> (userdata_cell, unit) comp" where
  "test_guard_drop data_ptr c =
     (case userdata_push data_ptr None c of (r, c) \<Rightarrow>
      and_then (unwrap r c) (\<lambda>guard c.
      and_then (unwrap (userdata_get c) c) (\<lambda>u c.
      and_then (assert_that (u = data_ptr) c) (\<lambda>_ c.
      let c = guard_drop guard c
      in assert_that (case userdata_get c of Inl _ \<Rightarrow> True | Inr _ \<Rightarrow> False) c))))"

definition nested_guards :: "void_ptr \<Rightarrow> void_ptr \<Rightarrow> (userdata_cell, unit) comp" where
  "nested_guards hello_ptr yo_ptr c =
     (case userdata_push hello_ptr None c of (r, c) \<Rightarrow>
      and_then (unwrap r c) (\<lambda>guard c.
      and_then (unwrap (userdata_get c) c) (\<lambda>u c.
      and_then (assert_that (u = hello_ptr) c) (\<lambda>_ c.
      case userdata_push yo_ptr None c of (r, c) \<Rightarrow>
      and_then (unwrap r c) (\<lambda>guard2 c.
      and_then (unwrap (userdata_get c) c) (\<lambda>u c.
      and_then (assert_that (u = yo_ptr) c) (\<lambda>_ c.
      case try_drop guard2 c of (r, c) \<Rightarrow>
      and_then (unwrap r c) (\<lambda>_ c.
      and_then (unwrap (userdata_get c) c) (\<lambda>u c.
      and_then (assert_that (u = hello_ptr) c) (\<lambda>_ c.
      case try_drop guard c of (r, c) \<Rightarrow>
      and_then (unwrap r c) (\<lambda>_ c.
      assert_that (case userdata_get c of Inl _ \<Rightarrow> True | Inr _ \<Rightarrow> False) c)))))))))))"

definition out_of_order_drop :: "void_ptr \<Rightarrow> void_ptr \<Rightarrow> (userdata_cell, unit) comp" where
  "out_of_order_drop hello_ptr yo_ptr c =
     (case userdata_push hello_ptr None c of (r, c) \<Rightarrow>
      and_then (unwrap r c) (\<lambda>guard c.
      and_then (unwrap (userdata_get c) c) (\<lambda>u c.
      and_then (assert_that (u = hello_ptr) c) (\<lambda>_ c.
      case userdata_push yo_ptr None c of (r, c) \<Rightarrow>
      and_then (unwrap r c) (\<lambda>guard2 c.
      and_then (unwrap (userdata_get c) c) (\<lambda>u c.
      and_then (assert_that (u = yo_ptr) c) (\<lambda>_ c.
      case try_drop guard c of (r, c) \<Rightarrow>
      and_then (assert_that (r = Inl WrongData) c) (\<lambda>_ c.
      case try_drop guard2 c of (r, c) \<Rightarrow>
      assert_that (r = Inl WrongData) c))))))))"

text \<open>The spawned thread has its own cell; \<open>join().unwrap()\<close> panics if the thread has panicked.\<close>

definition userdata_thread1 :: "void_ptr \<Rightarrow> void_ptr \<Rightarrow> (userdata_cell, unit) comp" where
  "userdata_thread1 yo_ptr greetz_ptr c =
     (case userdata_push yo_ptr None c of (r, c) \<Rightarrow>
      and_then (unwrap r c) (\<lambda>guard2 c.
      and_then (unwrap (userdata_get c) c) (\<lambda>u c.
      and_then (assert_that (u = yo_ptr) c) (\<lambda>_ c.
      case userdata_push greetz_ptr None c of (r, c) \<Rightarrow>
      and_then (unwrap r c) (\<lambda>guard3 c.
      and_then (unwrap (userdata_get c) c) (\<lambda>u c.
      and_then (assert_that (u = greetz_ptr) c) (\<lambda>_ c.
      case try_drop guard3 c of (r, c) \<Rightarrow>
      and_then (unwrap r c) (\<lambda>_ c.
      and_then (unwrap (userdata_get c) c) (\<lambda>u c.
      and_then (assert_that (u = yo_ptr) c) (\<lambda>_ c.
      case try_drop guard2 c of (r, c) \<Rightarrow> unwrap r c))))))))))"

definition userdata_multi_threads ::
  "void_ptr \<Rightarrow> void_ptr \<Rightarrow> void_ptr \<Rightarrow> userdata_cell \<Rightarrow> (userdata_cell, unit) comp" where
  "userdata_multi_threads hello_ptr yo_ptr greetz_ptr thread1_cell c =
     (case userdata_push hello_ptr None c of (r, c) \<Rightarrow>
      and_then (unwrap r c) (\<lambda>guard c.
      and_then (unwrap (userdata_get c) c) (\<lambda>u c.
      and_then (assert_that (u = hello_ptr) c) (\<lambda>_ c.
      let thread1 = userdata_thread1 yo_ptr greetz_ptr thread1_cell
      in and_then (unwrap (userdata_get c) c) (\<lambda>u c.
      and_then (assert_that (u = hello_ptr) c) (\<lambda>_ c.
      case try_drop guard c of (r, c) \<Rightarrow>
      and_then (unwrap r c) (\<lambda>_ c.
      case thread1 of
        Returned _ _ \<Rightarrow> Returned () c
      | Unwound _ \<Rightarrow> Unwound c
      | Undefined \<Rightarrow> Undefined)))))))"

text \<open>A new thread: the cell exists and its stack is empty.\<close>

definition new_thread :: userdata_cell where
  "new_thread = \<lparr>destroyed = False, borrowed = False, stack = []\<rparr>"

lemma userdata_tests_pass:
  "guard_try_pop p new_thread = Returned () new_thread"
  "guard_try_drop p new_thread = Returned () new_thread"
  "test_guard_drop p new_thread = Returned () new_thread"
  "nested_guards p q new_thread = Returned () new_thread"
  "userdata_multi_threads p q r new_thread new_thread = Returned () new_thread"
  by (simp_all add: guard_try_pop_def guard_try_drop_def test_guard_drop_def nested_guards_def userdata_multi_threads_def
      userdata_thread1_def new_thread_def userdata_defs Let_def)

text \<open>
  The two pointers of \<open>out_of_order_drop\<close> are those of different strings. With equal pointers, the guards are
  indistinguishable and the test fails.
\<close>

lemma out_of_order_drop_exact: "passes (out_of_order_drop p q new_thread) \<longleftrightarrow> p \<noteq> q"
  by (auto simp: out_of_order_drop_def new_thread_def userdata_defs)

section \<open>Slices and strings\<close>

definition test_rustls_version :: "bytes \<Rightarrow> (world, unit) comp" where
  "test_rustls_version RUSTLS_FFI_VERSION w =
     and_then (assert_that (sublist (as_bytes ''/0.'') RUSTLS_FFI_VERSION) w) (\<lambda>_ w.
     let vsn = rustls_version RUSTLS_FFI_VERSION
     in assert_that (rs_len vsn > 4) w)"

definition test_rustls_slice_bytes :: "(world, unit) comp" where
  "test_rustls_slice_bytes w =
     (let bytes = as_bytes ''abcd'';
          rsb = rustls_slice_bytes_from bytes
      in and_then (assert_that (at_offset (rsb_data rsb) 0 = Some (of_char CHR ''a'')) w) (\<lambda>_ w.
         and_then (assert_that (at_offset (rsb_data rsb) 3 = Some (of_char CHR ''d'')) w) (\<lambda>_ w.
         assert_that (rsb_len rsb = 4) w)))"

definition test_rustls_slice_slice_bytes :: "(world, unit) comp" where
  "test_rustls_slice_slice_bytes w =
     (let many_bytes = [as_bytes ''abcd'', as_bytes '''', as_bytes ''xyz''];
          rssb = Some \<lparr>rssb_inner = many_bytes\<rparr>;
          get = rustls_slice_slice_bytes_get rssb
      in and_then (assert_that (rustls_slice_slice_bytes_len rssb = 3) w) (\<lambda>_ w.
         and_then (assert_that (rsb_len (get 0) = 4) w) (\<lambda>_ w.
         and_then (assert_that (rsb_len (get 1) = 0) w) (\<lambda>_ w.
         and_then (assert_that (rsb_data (get 1) \<noteq> SNull) w) (\<lambda>_ w.
         and_then (assert_that (rsb_len (get 2) = 3) w) (\<lambda>_ w.
         and_then (assert_that (rsb_len (get 3) = 0) w) (\<lambda>_ w.
         and_then (assert_that (rsb_data (get 3) = SNull) w) (\<lambda>_ w.
         and_then (assert_that (at_offset (rsb_data (get 0)) 0 = Some (of_char CHR ''a'')) w) (\<lambda>_ w.
         and_then (assert_that (at_offset (rsb_data (get 0)) 3 = Some (of_char CHR ''d'')) w) (\<lambda>_ w.
         and_then (assert_that (at_offset (rsb_data (get 2)) 0 = Some (of_char CHR ''x'')) w) (\<lambda>_ w.
         assert_that (at_offset (rsb_data (get 2)) 2 = Some (of_char CHR ''z'')) w)))))))))))"

definition test_rustls_str :: "(world, unit) comp" where
  "test_rustls_str w =
     and_then (unwrap (rustls_str_try_from (as_bytes ''abcd'')) w) (\<lambda>rs w.
     and_then (assert_that (rs_len rs = 4) w) (\<lambda>_ w.
     and_then (assert_that (at_offset (rs_data rs) 0 = Some (of_char CHR ''a'')) w) (\<lambda>_ w.
     assert_that (at_offset (rs_data rs) 3 = Some (of_char CHR ''d'')) w)))"

definition test_rustls_str_debug :: "(world, unit) comp" where
  "test_rustls_str_debug w =
     and_then (unwrap (rustls_str_try_from (as_bytes ''abcd'')) w) (\<lambda>rs w.
     assert_that (rustls_str_debug u8_mem w rs = Some (as_bytes ''abcd'', 4)) w)"

definition test_rustls_str_rejects_nul :: "(world, unit) comp" where
  "test_rustls_str_rejects_nul w =
     and_then (assert_that (rustls_str_try_from [0] = Inl NulByte) w) (\<lambda>_ w.
     and_then (assert_that (rustls_str_try_from (as_bytes ''abc'' @ [0]) = Inl NulByte) w) (\<lambda>_ w.
     assert_that (rustls_str_try_from (as_bytes ''ab'' @ [0] @ as_bytes ''cd'') = Inl NulByte) w))"

definition test_rustls_slice_str :: "(world, unit) comp" where
  "test_rustls_slice_str w =
     (let many_strings = [as_bytes ''abcd'', as_bytes '''', as_bytes ''xyz''];
          rss = Some \<lparr>rss_inner = many_strings\<rparr>;
          get = rustls_slice_str_get rss
      in and_then (assert_that (rustls_slice_str_len rss = 3) w) (\<lambda>_ w.
         and_then (assert_that (rs_len (get 0) = 4) w) (\<lambda>_ w.
         and_then (assert_that (rs_len (get 1) = 0) w) (\<lambda>_ w.
         and_then (assert_that (rs_data (get 1) \<noteq> SNull) w) (\<lambda>_ w.
         and_then (assert_that (rs_len (get 2) = 3) w) (\<lambda>_ w.
         and_then (assert_that (rs_len (get 3) = 0) w) (\<lambda>_ w.
         and_then (assert_that (rs_data (get 3) = SNull) w) (\<lambda>_ w.
         and_then (assert_that (at_offset (rs_data (get 0)) 0 = Some (of_char CHR ''a'')) w) (\<lambda>_ w.
         and_then (assert_that (at_offset (rs_data (get 0)) 3 = Some (of_char CHR ''d'')) w) (\<lambda>_ w.
         and_then (assert_that (at_offset (rs_data (get 2)) 0 = Some (of_char CHR ''x'')) w) (\<lambda>_ w.
         assert_that (at_offset (rs_data (get 2)) 2 = Some (of_char CHR ''z'')) w)))))))))))"

definition test_rustls_slice_u16 :: "(world, unit) comp" where
  "test_rustls_slice_u16 w =
     (let u16s = [101, 314, 2718];
          rsu = rustls_slice_u16_from u16s
      in and_then (assert_that (rsu_len rsu = 3) w) (\<lambda>_ w.
         and_then (assert_that (at_offset (rsu_data rsu) 0 = Some 101) w) (\<lambda>_ w.
         and_then (assert_that (at_offset (rsu_data rsu) 1 = Some 314) w) (\<lambda>_ w.
         assert_that (at_offset (rsu_data rsu) 2 = Some 2718) w))))"

lemma slice_tests_pass:
  "test_rustls_slice_bytes w = Returned () w"
  "test_rustls_slice_slice_bytes w = Returned () w"
  "test_rustls_str w = Returned () w"
  "test_rustls_str_debug w = Returned () w"
  "test_rustls_str_rejects_nul w = Returned () w"
  "test_rustls_slice_str w = Returned () w"
  "test_rustls_slice_u16 w = Returned () w"
  by (simp_all add: test_rustls_slice_bytes_def test_rustls_slice_slice_bytes_def test_rustls_str_def test_rustls_str_debug_def
      test_rustls_str_rejects_nul_def test_rustls_slice_str_def test_rustls_slice_u16_def at_offset_def Let_def
      rustls_slice_bytes_from_def rustls_slice_slice_bytes_get_def rustls_slice_slice_bytes_len_def rustls_str_try_from_def
      rustls_str_debug_def rustls_slice_str_get_def rustls_slice_str_len_def rustls_slice_u16_from_def slice_get_def as_bytes_def)

lemma test_rustls_version_exact:
  assumes "fits_isize v"
  shows "passes (test_rustls_version v w) \<longleftrightarrow> sublist (as_bytes ''/0.'') v \<and> 4 < length v"
proof -
  have "unat (of_nat (length v) :: usize) = length v" by (rule unat_of_nat_length [OF assms])
  then have "(of_nat (length v) :: usize) > 4 \<longleftrightarrow> 4 < length v" by (simp add: word_less_nat_alt)
  then show ?thesis
    by (auto simp: test_rustls_version_def rustls_version_def from_str_unchecked_def Let_def assert_that_def)
qed

section \<open>Error codes\<close>

text \<open>One call of \<open>test_rustls_error\<close>: the message that is in the buffer afterwards.\<close>

definition check_message ::
  "(rustls_Error \<Rightarrow> string) \<Rightarrow> bool \<Rightarrow> nat \<Rightarrow> nat \<Rightarrow> u32 \<Rightarrow> bytes \<Rightarrow> (world, unit) comp" where
  "check_message fmt_Error checks buf n code expected w =
     and_then (rustls_error fmt_Error checks code (Ptr buf) 512 (Ptr n) w) (\<lambda>_ w.
     case m_usize w n of
       None \<Rightarrow> Undefined
     | Some k \<Rightarrow>
         if unat k > 512 then Unwound w
         else case read_range (m_u8 w) buf (unat k) of
           None \<Rightarrow> Undefined
         | Some output \<Rightarrow>
             and_then (assert_that (utf8_valid output) w) (\<lambda>_ w.
             assert_that (output = expected) w))"

definition test_rustls_error :: "(rustls_Error \<Rightarrow> string) \<Rightarrow> bool \<Rightarrow> nat \<Rightarrow> nat \<Rightarrow> (world, unit) comp" where
  "test_rustls_error fmt_Error checks buf n w =
     (let w = w\<lparr>m_u8 := (\<lambda>a. if buf \<le> a \<and> a < buf + 512 then Some 0 else m_u8 w a), m_usize := (m_usize w)(n \<mapsto> 0)\<rparr>
      in and_then (check_message fmt_Error checks buf n 0 (as_bytes ''a parameter had an invalid value'') w) (\<lambda>_ w.
         and_then (check_message fmt_Error checks buf n 7000 (as_bytes ''OK'') w) (\<lambda>_ w.
         check_message fmt_Error checks buf n 7101 (as_bytes ''peer sent no certificates'') w)))"

definition test_rustls_result_is_cert_error :: "(world, unit) comp" where
  "test_rustls_result_is_cert_error w =
     and_then (assert_that (\<not> rustls_result_is_cert_error 0) w) (\<lambda>_ w.
     and_then (assert_that (\<not> rustls_result_is_cert_error 7000) w) (\<lambda>_ w.
     and_then (assert_that (rustls_result_is_cert_error 7117) w) (\<lambda>_ w.
     and_then (assert_that (rustls_result_is_cert_error 7118) w) (\<lambda>_ w.
     and_then (assert_that (rustls_result_is_cert_error 7119) w) (\<lambda>_ w.
     and_then (assert_that (rustls_result_is_cert_error 7120) w) (\<lambda>_ w.
     and_then (assert_that (rustls_result_is_cert_error 7319) w) (\<lambda>_ w.
     and_then (assert_that (rustls_result_is_cert_error 7320) w) (\<lambda>_ w.
     and_then (assert_that (rustls_result_is_cert_error 7321) w) (\<lambda>_ w.
     and_then (assert_that (rustls_result_is_cert_error 7322) w) (\<lambda>_ w.
     assert_that (rustls_result_is_cert_error 7323) w))))))))))"

lemma try_from_zero: "rustls_result_try_from 0 = None"
  by (simp add: rustls_result_try_from_def rustls_result_all_def)

lemma cert_error_numbers:
  "\<not> rustls_result_is_cert_error 0" "\<not> rustls_result_is_cert_error 7000" "rustls_result_is_cert_error 7117"
  "rustls_result_is_cert_error 7118" "rustls_result_is_cert_error 7119" "rustls_result_is_cert_error 7120"
  "rustls_result_is_cert_error 7319" "rustls_result_is_cert_error 7320" "rustls_result_is_cert_error 7321"
  "rustls_result_is_cert_error 7322" "rustls_result_is_cert_error 7323"
  using is_cert_error_discriminant [of Ok] is_cert_error_discriminant [of CertInvalidEncoding]
    is_cert_error_discriminant [of CertInvalidSignatureType] is_cert_error_discriminant [of CertInvalidSignature]
    is_cert_error_discriminant [of CertInvalidData] is_cert_error_discriminant [of CertSCTMalformed]
    is_cert_error_discriminant [of CertSCTInvalidSignature] is_cert_error_discriminant [of CertSCTTimestampInFuture]
    is_cert_error_discriminant [of CertSCTUnsupportedVersion] is_cert_error_discriminant [of CertSCTUnknownLog]
  by (simp_all add: is_cert_error_unknown try_from_zero)

lemma cert_error_test_passes: "test_rustls_result_is_cert_error w = Returned () w"
  by (simp add: test_rustls_result_is_cert_error_def cert_error_numbers)

lemma error_messages:
  "error_message fmt_Error 0 = as_bytes ''a parameter had an invalid value''"
  "error_message fmt_Error 7101 = as_bytes (fmt_Error Error_NoCertificatesPresented)"
proof -
  have "rustls_result_try_from 7101 = Some NoCertificatesPresented" by (simp add: try_from_Some_iff)
  then show "error_message fmt_Error 7101 = as_bytes (fmt_Error Error_NoCertificatesPresented)" by (simp add: error_message_def)
  show "error_message fmt_Error 0 = as_bytes ''a parameter had an invalid value''"
    by (simp add: error_message_def try_from_zero)
qed

lemma check_message_passes:
  assumes "error_message fmt_Error code = expected" and "length expected < 512" and "utf8_valid expected"
    and "\<forall>i < 512. m_u8 w (buf + i) \<noteq> None" and "m_usize w n \<noteq> None"
  shows "\<exists>w'. check_message fmt_Error checks buf n code expected w = Returned () w'
    \<and> (\<forall>i < 512. m_u8 w' (buf + i) \<noteq> None) \<and> m_usize w' n \<noteq> None"
proof -
  have buf: "m_u8 w (buf + i) \<noteq> None" if "i < unat (512 :: usize)" for i
    using assms(4) that by simp
  have size: "length (error_message fmt_Error code) < 2 ^ 64" using assms(1,2) by simp
  have k: "length expected = min (unat (512 :: usize) - 1) (length (error_message fmt_Error code))"
    using assms(1,2) by simp
  have "(512 :: usize) \<noteq> 0" by simp
  from rustls_error_writes [OF this size buf assms(5) k]
  obtain w' where w': "rustls_error fmt_Error checks code (Ptr buf) 512 (Ptr n) w = Returned () w'"
    "m_usize w' n = Some (of_nat (length expected))" "read_range (m_u8 w') buf (length expected) = Some expected"
    "\<forall>c. c < buf \<or> buf + length expected \<le> c \<longrightarrow> m_u8 w' c = m_u8 w c"
    unfolding assms(1) by auto
  have "unat (of_nat (length expected) :: usize) = length expected"
    using assms(2) by (intro unat_of_nat_length) (simp add: fits_isize_def)
  then have run: "check_message fmt_Error checks buf n code expected w = Returned () w'"
    using w'(1-3) assms(2,3) by (simp add: check_message_def)
  have "m_u8 w' (buf + i) \<noteq> None" if "i < 512" for i
  proof (cases "i < length expected")
    case True
    then show ?thesis using w'(3) by (auto simp: read_range_Some_iff)
  next
    case False
    then show ?thesis using w'(4) assms(4) that by auto
  qed
  then show ?thesis using run w'(2) by auto
qed

text \<open>The last message is text of rustls; the test passes with the text that rustls has.\<close>

lemma test_rustls_error_passes:
  assumes "fmt_Error Error_NoCertificatesPresented = ''peer sent no certificates''"
  shows "passes (test_rustls_error fmt_Error checks buf n w)"
proof -
  let ?w = "w\<lparr>m_u8 := (\<lambda>a. if buf \<le> a \<and> a < buf + 512 then Some 0 else m_u8 w a), m_usize := (m_usize w)(n \<mapsto> 0)\<rparr>"
  have valid: "utf8_valid (as_bytes ''a parameter had an invalid value'')" "utf8_valid (as_bytes ''OK'')"
    "utf8_valid (as_bytes ''peer sent no certificates'')"
    by (simp_all add: as_bytes_def)
  obtain w1 where w1: "check_message fmt_Error checks buf n 0 (as_bytes ''a parameter had an invalid value'') ?w = Returned () w1"
    "\<forall>i < 512. m_u8 w1 (buf + i) \<noteq> None" "m_usize w1 n \<noteq> None"
    using check_message_passes [OF error_messages(1) _ valid(1), of ?w buf n fmt_Error checks] by auto
  obtain w2 where w2: "check_message fmt_Error checks buf n 7000 (as_bytes ''OK'') w1 = Returned () w2"
    "\<forall>i < 512. m_u8 w2 (buf + i) \<noteq> None" "m_usize w2 n \<noteq> None"
    using check_message_passes [OF error_message_ok _ valid(2) w1(2,3), of fmt_Error checks] by auto
  have message: "error_message fmt_Error 7101 = as_bytes ''peer sent no certificates''"
    using error_messages(2) [of fmt_Error] assms by simp
  obtain w3 where "check_message fmt_Error checks buf n 7101 (as_bytes ''peer sent no certificates'') w2 = Returned () w3"
    using check_message_passes [OF message _ valid(3) w2(2,3), of checks] by auto
  with w1(1) w2(1) show ?thesis by (simp add: test_rustls_error_def Let_def)
qed

section \<open>Exported arrays\<close>

primrec check_all :: "('a \<Rightarrow> bool) \<Rightarrow> 'a list \<Rightarrow> ('w, unit) comp" where
  "check_all p [] w = Returned () w"
| "check_all p (x # xs) w = and_then (assert_that (p x) w) (\<lambda>_ w. check_all p xs w)"

lemma passes_check_all [simp]: "passes (check_all p xs w) \<longleftrightarrow> list_all p xs"
  by (induction xs arbitrary: w) simp_all

text \<open>The statics of rustls and its lists are parameters, as is the comparison of suites.\<close>

definition all_cipher_suites_arrays ::
  "(SupportedCipherSuite \<Rightarrow> SupportedCipherSuite \<Rightarrow> bool) \<Rightarrow> (cipher_suite_static \<Rightarrow> SupportedCipherSuite) \<Rightarrow>
   SupportedCipherSuite list \<Rightarrow> (world, unit) comp" where
  "all_cipher_suites_arrays eq static_suite ALL_CIPHER_SUITES w =
     and_then (assert_that (RUSTLS_ALL_CIPHER_SUITES_LEN = of_nat (length ALL_CIPHER_SUITES)) w) (\<lambda>_ w.
     check_all (\<lambda>(original, ffi). eq original (static_suite ffi)) (zip ALL_CIPHER_SUITES RUSTLS_ALL_CIPHER_SUITES) w)"

definition default_cipher_suites_arrays ::
  "(SupportedCipherSuite \<Rightarrow> SupportedCipherSuite \<Rightarrow> bool) \<Rightarrow> (cipher_suite_static \<Rightarrow> SupportedCipherSuite) \<Rightarrow>
   SupportedCipherSuite list \<Rightarrow> (world, unit) comp" where
  "default_cipher_suites_arrays eq static_suite DEFAULT_CIPHER_SUITES w =
     and_then (assert_that (RUSTLS_DEFAULT_CIPHER_SUITES_LEN = of_nat (length DEFAULT_CIPHER_SUITES)) w) (\<lambda>_ w.
     check_all (\<lambda>(original, ffi). eq original (static_suite ffi)) (zip DEFAULT_CIPHER_SUITES RUSTLS_DEFAULT_CIPHER_SUITES) w)"

definition ciphersuite_get_name :: "SupportedCipherSuite list \<Rightarrow> (CipherSuite \<Rightarrow> bytes option) \<Rightarrow> (world, unit) comp" where
  "ciphersuite_get_name ALL_CIPHER_SUITES as_str w =
     (let suite = rustls_all_ciphersuites_get_entry ALL_CIPHER_SUITES 0
      in and_then (rustls_supported_ciphersuite_get_name as_str suite w) (\<lambda>s w.
         let want = as_bytes ''TLS13_AES_256_GCM_SHA384''
         in case from_raw_parts u8_mem w (rs_data s) (rs_len s) of
              None \<Rightarrow> Undefined
            | Some got \<Rightarrow>
                and_then (assert_that (utf8_valid got) w) (\<lambda>_ w.
                assert_that (want = got) w)))"

definition test_all_ciphersuites_len :: "SupportedCipherSuite list \<Rightarrow> (world, unit) comp" where
  "test_all_ciphersuites_len ALL_CIPHER_SUITES w =
     (let len = rustls_all_ciphersuites_len ALL_CIPHER_SUITES in assert_that (len > 2) w)"

definition all_versions_arrays :: "(SupportedProtocolVersion \<Rightarrow> u16) \<Rightarrow> SupportedProtocolVersion list \<Rightarrow> (world, unit) comp" where
  "all_versions_arrays get_u16 ALL_VERSIONS w =
     and_then (assert_that (RUSTLS_ALL_VERSIONS_LEN = of_nat (length ALL_VERSIONS)) w) (\<lambda>_ w.
     check_all (\<lambda>(original, ffi). get_u16 original = ffi) (zip ALL_VERSIONS RUSTLS_ALL_VERSIONS) w)"

definition default_versions_arrays :: "(SupportedProtocolVersion \<Rightarrow> u16) \<Rightarrow> SupportedProtocolVersion list \<Rightarrow> (world, unit) comp" where
  "default_versions_arrays get_u16 DEFAULT_VERSIONS w =
     and_then (assert_that (RUSTLS_DEFAULT_VERSIONS_LEN = of_nat (length DEFAULT_VERSIONS)) w) (\<lambda>_ w.
     check_all (\<lambda>(original, ffi). get_u16 original = ffi) (zip DEFAULT_VERSIONS RUSTLS_DEFAULT_VERSIONS) w)"

text \<open>The tests of the arrays pass exactly when each array has the entries of the list of rustls, in its order.\<close>

lemma length_test:
  assumes "fits_isize xs" and "length ys < 2 ^ 63"
  shows "(of_nat (length ys) :: usize) = of_nat (length xs) \<longleftrightarrow> length ys = length xs"
  using unat_of_nat_length [OF assms(1)] unat_of_nat_length [of ys] assms(2) by (metis fits_isize_def)

lemma array_tests_exact:
  assumes "fits_isize suites" and "fits_isize versions"
  shows "passes (all_cipher_suites_arrays eq static_suite suites w) \<longleftrightarrow>
      list_all2 (\<lambda>s f. eq s (static_suite f)) suites RUSTLS_ALL_CIPHER_SUITES"
    and "passes (default_cipher_suites_arrays eq static_suite suites w) \<longleftrightarrow>
      list_all2 (\<lambda>s f. eq s (static_suite f)) suites RUSTLS_DEFAULT_CIPHER_SUITES"
    and "passes (all_versions_arrays get_u16 versions w) \<longleftrightarrow> map get_u16 versions = RUSTLS_ALL_VERSIONS"
    and "passes (default_versions_arrays get_u16 versions w) \<longleftrightarrow> map get_u16 versions = RUSTLS_DEFAULT_VERSIONS"
proof -
  have short: "length RUSTLS_ALL_CIPHER_SUITES < 2 ^ 63" "length RUSTLS_DEFAULT_CIPHER_SUITES < 2 ^ 63"
    "length RUSTLS_ALL_VERSIONS < 2 ^ 63" "length RUSTLS_DEFAULT_VERSIONS < 2 ^ 63"
    by (simp_all add: RUSTLS_ALL_CIPHER_SUITES_def RUSTLS_DEFAULT_CIPHER_SUITES_def RUSTLS_ALL_VERSIONS_def RUSTLS_DEFAULT_VERSIONS_def)
  have zipped: "list_all (\<lambda>(x, y). P x y) (zip xs ys) \<and> length ys = length xs \<longleftrightarrow> list_all2 P xs ys"
    for P :: "'x \<Rightarrow> 'y \<Rightarrow> bool" and xs ys
    by (auto simp: list_all2_iff list_all_iff)
  have mapped: "list_all2 (\<lambda>x y. f x = y) xs ys \<longleftrightarrow> map f xs = ys" for f :: "SupportedProtocolVersion \<Rightarrow> u16" and xs ys
    by (induction xs arbitrary: ys) (auto simp: list_all2_Cons1)
  show "passes (all_cipher_suites_arrays eq static_suite suites w) \<longleftrightarrow>
      list_all2 (\<lambda>s f. eq s (static_suite f)) suites RUSTLS_ALL_CIPHER_SUITES"
    using length_test [OF assms(1) short(1)]
    by (auto simp: all_cipher_suites_arrays_def RUSTLS_ALL_CIPHER_SUITES_LEN_def list_all2_iff list_all_iff)
  show "passes (default_cipher_suites_arrays eq static_suite suites w) \<longleftrightarrow>
      list_all2 (\<lambda>s f. eq s (static_suite f)) suites RUSTLS_DEFAULT_CIPHER_SUITES"
    using length_test [OF assms(1) short(2)]
    by (auto simp: default_cipher_suites_arrays_def RUSTLS_DEFAULT_CIPHER_SUITES_LEN_def list_all2_iff list_all_iff)
  show "passes (all_versions_arrays get_u16 versions w) \<longleftrightarrow> map get_u16 versions = RUSTLS_ALL_VERSIONS"
    unfolding mapped [symmetric] using length_test [OF assms(2) short(3)]
    by (auto simp: all_versions_arrays_def RUSTLS_ALL_VERSIONS_LEN_def list_all2_iff list_all_iff)
  show "passes (default_versions_arrays get_u16 versions w) \<longleftrightarrow> map get_u16 versions = RUSTLS_DEFAULT_VERSIONS"
    unfolding mapped [symmetric] using length_test [OF assms(2) short(4)]
    by (auto simp: default_versions_arrays_def RUSTLS_DEFAULT_VERSIONS_LEN_def list_all2_iff list_all_iff)
qed

section \<open>Configurations\<close>

definition client_test_config_builder :: "foreign \<Rightarrow> (world, unit) comp" where
  "client_test_config_builder F w =
     and_then (rustls_client_config_builder_new (f_safe_defaults F) w) (\<lambda>builder w.
     let h1 = as_bytes ''http/1.1'';
         h2 = as_bytes ''h2'';
         alpn = [rustls_slice_bytes_from h1, rustls_slice_bytes_from h2]
     in and_then (rustls_client_config_builder_set_alpn_protocols builder (SBorrow alpn) (of_nat (length alpn)) w) (\<lambda>_ w.
        and_then (rustls_client_config_builder_set_enable_sni builder False w) (\<lambda>_ w.
        and_then (rustls_client_config_builder_build (f_with_client_cert_resolver F) (f_with_no_client_auth F) builder w) (\<lambda>config w.
        try_ref_from_arc_ptr client_config_heap defaultable_ret config (\<lambda>config2 w.
          and_then (assert_that (cc_enable_sni config2 = False) w) (\<lambda>_ w.
          and_then (assert_that (cc_alpn_protocols config2 = [h1, h2]) w) (\<lambda>_ w.
          rustls_client_config_free config w))) w))))"

text \<open>
  The test of the server configuration, with the list it expects as a parameter; the source expects \<open>[h1, h2]\<close>.
  Its \<open>try_ref_from_ptr!\<close> returns from the test when \<open>config\<close> is null.
\<close>

definition server_test_config_builder :: "foreign \<Rightarrow> bytes list \<Rightarrow> (world, unit) comp" where
  "server_test_config_builder F expected w =
     and_then (rustls_server_config_builder_new (f_safe_defaults F) w) (\<lambda>builder w.
     let h1 = as_bytes ''http/1.1'';
         h2 = as_bytes ''h2'';
         alpn = [rustls_slice_bytes_from h1, rustls_slice_bytes_from h2]
     in and_then (rustls_server_config_builder_set_alpn_protocols builder (SBorrow alpn) (of_nat (length alpn)) w) (\<lambda>_ w.
        and_then (rustls_server_config_builder_build (f_with_cert_resolver F) builder w) (\<lambda>config w.
        try_ref_from_arc_ptr server_config_heap defaultable_ret config (\<lambda>config2 w.
          and_then (assert_that (sc_alpn_protocols config2 = expected) w) (\<lambda>_ w.
          rustls_server_config_free config w)) w)))"

definition test_server_config_builder_new_empty :: "foreign \<Rightarrow> (world, unit) comp" where
  "test_server_config_builder_new_empty F w =
     and_then (rustls_server_config_builder_new (f_safe_defaults F) w) (\<lambda>builder w.
     and_then (rustls_server_config_builder_build (f_with_cert_resolver F) builder w) (\<lambda>config w.
     assert_that (config = Null) w))"

lemma config_tests_pass:
  "cc_cert_resolver (f_with_no_client_auth F (f_safe_defaults F) NoneVerifier) = None \<Longrightarrow> passes (client_test_config_builder F w)"
  "passes (test_server_config_builder_new_empty F w)"
  "passes (server_test_config_builder F expected w)"
  by (simp_all add: client_test_config_builder_def test_server_config_builder_new_empty_def server_test_config_builder_def
      rustls_client_config_builder_new_def rustls_client_config_builder_set_alpn_protocols_def
      rustls_client_config_builder_set_enable_sni_def rustls_client_config_builder_build_def rustls_client_config_free_def
      rustls_server_config_builder_new_def rustls_server_config_builder_set_alpn_protocols_def rustls_server_config_builder_build_def
      entry_defs alloc_defs try_box_from_ptr_def to_box_def arc_drop_def drop_client_resolver_def drop_server_builder_def
      drop_client_cert_verifier_def drop_server_resolver_def
      rustls_slice_bytes_from_def Let_def)

section \<open>Connections\<close>

text \<open>The getters of a new connection, as both tests of connections read them.\<close>

definition check_new_connection :: "foreign \<Rightarrow> bool \<Rightarrow> bool \<Rightarrow> nat \<Rightarrow> nat \<Rightarrow> Connection ptr \<Rightarrow> (world, unit) comp" where
  "check_new_connection F reads writes alpn alpn_len conn w =
     (let M = f_methods F
      in and_then (rustls_connection_wants_read (r_wants_read M) conn w) (\<lambda>b w.
         and_then (assert_that (b = reads) w) (\<lambda>_ w.
         and_then (rustls_connection_wants_write (r_wants_write M) conn w) (\<lambda>b w.
         and_then (assert_that (b = writes) w) (\<lambda>_ w.
         and_then (rustls_connection_is_handshaking (r_is_handshaking M) conn w) (\<lambda>b w.
         and_then (assert_that (b = True) w) (\<lambda>_ w.
         let w = w\<lparr>m_u8_ptr := (m_u8_ptr w)(alpn \<mapsto> SBorrow [42]), m_usize := (m_usize w)(alpn_len \<mapsto> 1)\<rparr>
         in and_then (rustls_connection_get_alpn_protocol (r_alpn_protocol M) conn (Ptr alpn) (Ptr alpn_len) w) (\<lambda>_ w.
         and_then (assert_that (m_u8_ptr w alpn = Some SNull) w) (\<lambda>_ w.
         and_then (assert_that (m_usize w alpn_len = Some 0) w) (\<lambda>_ w.
         and_then (rustls_connection_get_negotiated_ciphersuite (r_negotiated M) (f_suite_eq F) (f_suites F) conn w) (\<lambda>p w.
         and_then (assert_that (p = None) w) (\<lambda>_ w.
         and_then (rustls_connection_get_peer_certificate (r_peer_certificates M) conn 0 w) (\<lambda>p w.
         and_then (assert_that (p = None) w) (\<lambda>_ w.
         and_then (rustls_connection_get_protocol_version (r_protocol_version M) (\<lambda>v. v) conn w) (\<lambda>v w.
         and_then (assert_that (v = 0) w) (\<lambda>_ w.
         rustls_connection_free (f_drop F) conn w))))))))))))))))"

definition put_bytes :: "nat \<Rightarrow> bytes \<Rightarrow> world \<Rightarrow> world" where
  "put_bytes a bs w = w\<lparr>m_u8 := (\<lambda>b. if a \<le> b \<and> b < a + length bs then Some (bs ! (b - a)) else m_u8 w b)\<rparr>"

definition test_client_connection_new :: "foreign \<Rightarrow> nat \<Rightarrow> nat \<Rightarrow> nat \<Rightarrow> nat \<Rightarrow> (world, unit) comp" where
  "test_client_connection_new F host conn alpn alpn_len w =
     and_then (rustls_client_config_builder_new (f_safe_defaults F) w) (\<lambda>builder w.
     and_then (rustls_client_config_builder_build (f_with_client_cert_resolver F) (f_with_no_client_auth F) builder w) (\<lambda>config w.
     let w = put_bytes host (as_bytes ''example.com'' @ [0]) (w\<lparr>m_conn_ptr := (m_conn_ptr w)(conn \<mapsto> Null)\<rparr>)
     in and_then (rustls_client_connection_new (f_server_name F) (f_client_new F) config (Ptr host) (Ptr conn) w) (\<lambda>result w.
        and_then (assert_that (result = Ok) w) (\<lambda>_ w.
        case m_conn_ptr w conn of
          None \<Rightarrow> Undefined
        | Some p \<Rightarrow> check_new_connection F False True alpn alpn_len p w))))"

text \<open>The two files that the test includes are parameters.\<close>

definition test_server_connection_new ::
  "foreign \<Rightarrow> bytes \<Rightarrow> bytes \<Rightarrow> nat \<Rightarrow> nat \<Rightarrow> nat \<Rightarrow> nat \<Rightarrow> (world, unit) comp" where
  "test_server_connection_new F cert_pem key_pem certified_key conn alpn alpn_len w =
     and_then (rustls_server_config_builder_new (f_safe_defaults F) w) (\<lambda>builder w.
     let w = w\<lparr>m_key_ptr := (m_key_ptr w)(certified_key \<mapsto> Null)\<rparr>
     in and_then (rustls_certified_key_build (f_pkcs8 F) (f_rsa F) (f_any_type F) (f_certs F) (f_CertifiedKey_new F)
                    (SBorrow cert_pem) (of_nat (length cert_pem)) (SBorrow key_pem) (of_nat (length key_pem))
                    (Ptr certified_key) w) (\<lambda>result w.
        and_then (assert_that (result = Ok) w) (\<lambda>_ w.
        and_then (rustls_server_config_builder_set_certified_keys builder (SMem certified_key) 1 w) (\<lambda>_ w.
        and_then (rustls_server_config_builder_build (f_with_cert_resolver F) builder w) (\<lambda>config w.
        and_then (assert_that (config \<noteq> Null) w) (\<lambda>_ w.
        let w = w\<lparr>m_conn_ptr := (m_conn_ptr w)(conn \<mapsto> Null)\<rparr>
        in and_then (rustls_server_connection_new (f_server_new F) config (Ptr conn) w) (\<lambda>result w.
           and_then (assert_that (result = Ok) w) (\<lambda>_ w.
           case m_conn_ptr w conn of
             None \<Rightarrow> Undefined
           | Some p \<Rightarrow> check_new_connection F True False alpn alpn_len p w))))))))"

text \<open>What the tests expect of rustls for a new connection.\<close>

definition fresh_connection :: "foreign \<Rightarrow> bool \<Rightarrow> bool \<Rightarrow> rustls_Connection \<Rightarrow> bool" where
  "fresh_connection F reads writes i =
     (let M = f_methods F
      in r_wants_read M i = reads \<and> r_wants_write M i = writes \<and> r_is_handshaking M i \<and> r_alpn_protocol M i = None
         \<and> (case r_negotiated M i of None \<Rightarrow> True | Some n \<Rightarrow> find (f_suite_eq F n) (f_suites F) = None)
         \<and> (case r_peer_certificates M i of None \<Rightarrow> True | Some cs \<Rightarrow> cs = [])
         \<and> (case r_protocol_version M i of None \<Rightarrow> True | Some v \<Rightarrow> v = 0))"

lemma check_new_connection_exact:
  assumes "h_connection w a = Some c" and "f_drop F (conn_inner c) = Returned ()"
  shows "passes (check_new_connection F reads writes alpn alpn_len (Ptr a) w) \<longleftrightarrow> fresh_connection F reads writes (conn_inner c)"
proof -
  note unfolds = check_new_connection_def fresh_connection_def Let_def rustls_connection_wants_read_def
    rustls_connection_wants_write_def rustls_connection_is_handshaking_def rustls_connection_get_negotiated_ciphersuite_def
    rustls_connection_get_peer_certificate_def rustls_connection_get_protocol_version_def rustls_connection_free_def
    rustls_connection_get_alpn_protocol_def entry_defs write_cell_def slice_get_def
  show ?thesis
    using assms by (cases "r_alpn_protocol (f_methods F) (conn_inner c)") (auto simp: unfolds split: option.splits)
qed

lemma put_bytes_cstr: "0 \<notin> set s \<Longrightarrow> cstr_bytes (m_u8 (put_bytes a (s @ [0]) w)) a = Some s"
  by (rule cstr_bytes_terminated) (auto simp: put_bytes_def nth_append)

lemma put_bytes_fields [simp]:
  "h_client_config (put_bytes a bs w) = h_client_config w" "h_connection (put_bytes a bs w) = h_connection w"
  "m_conn_ptr (put_bytes a bs w) = m_conn_ptr w" "next_addr (put_bytes a bs w) = next_addr w"
  by (simp_all add: put_bytes_def)

lemma test_client_connection_new_exact:
  assumes "f_server_name F (as_bytes ''example.com'') = Some name" and "\<And>c w. f_client_new F c name w = Returned (Inr i) w"
    and "f_drop F (Client i) = Returned ()"
  shows "passes (test_client_connection_new F host conn alpn alpn_len w) \<longleftrightarrow> fresh_connection F False True (Client i)"
proof -
  let ?config = "f_with_no_client_auth F (f_safe_defaults F) NoneVerifier\<lparr>cc_alpn_protocols := [], cc_enable_sni := True\<rparr>"
  let ?w1 = "w\<lparr>h_client_builder := (h_client_builder w)(next_addr w := None), next_addr := next_addr w + 2,
    h_client_config := (h_client_config w)(Suc (next_addr w) \<mapsto> \<lparr>strong = 1, arc_data = ?config\<rparr>)\<rparr>"
  let ?w2 = "put_bytes host (as_bytes ''example.com'' @ [0]) (?w1\<lparr>m_conn_ptr := (m_conn_ptr ?w1)(conn \<mapsto> Null)\<rparr>)"
  have name: "cstr_bytes (m_u8 ?w2) host = Some (as_bytes ''example.com'')"
    by (rule put_bytes_cstr) (simp add: as_bytes_def)
  have valid: "utf8_valid (as_bytes ''example.com'')" by (simp add: as_bytes_def)
  obtain w3 where w3: "rustls_client_connection_new (f_server_name F) (f_client_new F) (Ptr (Suc (next_addr w))) (Ptr host) (Ptr conn) ?w2
      = Returned Ok w3" "m_conn_ptr w3 conn = Some (Ptr (next_addr w + 2))" "h_connection w3 (next_addr w + 2) = Some (from_client i)"
    using name valid assms(1,2)
    by (simp add: rustls_client_connection_new_def ffi_panic_boundary_def try_arc_from_ptr_def to_arc_def set_mut_ptr_def
        to_mut_ptr_def write_cell_def Let_def)
  have "conn_inner (from_client i) = Client i" by (simp add: from_client_def)
  with check_new_connection_exact [OF w3(3), of F False True alpn alpn_len] assms(3)
  have "passes (check_new_connection F False True alpn alpn_len (Ptr (next_addr w + 2)) w3) \<longleftrightarrow> fresh_connection F False True (Client i)"
    by simp
  with w3(1,2) show ?thesis
    by (simp add: test_client_connection_new_def rustls_client_config_builder_new_def rustls_client_config_builder_build_def
        entry_defs alloc_defs try_box_from_ptr_def to_box_def Let_def)
qed

lemma test_server_connection_new_exact:
  assumes "f_pkcs8 F key_pem = Some [der]" and "f_any_type F der = Some sk" and "f_certs F cert_pem = Some cs"
    and "fits_isize key_pem" and "fits_isize cert_pem"
    and "\<And>c w. f_server_new F c w = Returned (Inr i) w" and "f_drop F (Server i) = Returned ()"
  shows "passes (test_server_connection_new F cert_pem key_pem certified_key conn alpn alpn_len w)
    \<longleftrightarrow> fresh_connection F True False (Server i)"
proof -
  have lengths: "unat (of_nat (length key_pem) :: usize) = length key_pem" "unat (of_nat (length cert_pem) :: usize) = length cert_pem"
    using assms(4,5) by (simp_all add: unat_of_nat_length)
  show ?thesis
    using assms(1-3,6,7) lengths
    by (simp add: test_server_connection_new_def rustls_server_config_builder_new_def rustls_certified_key_build_def certified_key_build_def
        vec_pop_def rustls_server_config_builder_set_certified_keys_def from_raw_parts_def read_range_def
        ResolvesServerCertFromChoices_new_def drop_server_resolver_def rustls_server_config_builder_build_def
        rustls_server_connection_new_def try_arc_from_ptr_def set_mut_ptr_def release_certified_key_def
        entry_defs alloc_defs try_box_from_ptr_def to_box_def to_arc_def arc_drop_def write_cell_def Let_def
        check_new_connection_exact from_server_def)
qed

section \<open>Properties\<close>



text \<open>
  C40. The test of ALPN on server configurations checks nothing: the builder has no key, so the configuration is null, and
  the test returns at its \<open>try_ref_from_ptr!\<close> before the assertion. It passes whatever list of protocols it expects.
\<close>

theorem server_alpn_test_vacuous: "passes (server_test_config_builder F expected w)"
  by (rule config_tests_pass)

end
