(* ===== verification/Ffi_Build.thy ===== *)
theory Ffi_Build
  imports Ffi_Tests
begin

text \<open>
  The build script (\<open>build.rs\<close>): it copies the C header next to the crate's output and generates \<open>version.rs\<close>, which
  \<open>lib.rs\<close> includes and which defines the string behind \<open>rustls_version\<close>.

  Its state is the part of the file system it sees and the lines it has printed for cargo. The operating system may refuse
  any operation; the answers are an argument of the script. Every refusal is unwrapped, so it is a panic that fails the build.
\<close>

section \<open>Paths and files\<close>

definition slash :: u8 where "slash = 0x2F"

text \<open>\<open>Path::join\<close> with a relative name.\<close>

definition path_join :: "bytes \<Rightarrow> bytes \<Rightarrow> bytes" where
  "path_join dir name = (if dir = [] \<or> last dir = slash then dir @ name else dir @ slash # name)"

text \<open>The directory a path is in; the empty path is the working directory.\<close>

definition path_parent :: "bytes \<Rightarrow> bytes" where
  "path_parent p = rev (tl (dropWhile (\<lambda>b. b \<noteq> slash) (rev p)))"

text \<open>The path itself and the directories on the way to it.\<close>

definition path_ancestors :: "bytes \<Rightarrow> bytes set" where
  "path_ancestors p = insert p ((\<lambda>i. take i p) ` {i. i < length p \<and> p ! i = slash})"

record build_state =
  files :: "bytes \<rightharpoonup> bytes"
  directories :: "bytes set"
  stdout :: "bytes list"

datatype fs_call = CreateDirAll bytes | CopyFile bytes bytes | CreateFile bytes | WriteFile bytes bytes

text \<open>A refused write may have written some bytes already.\<close>

datatype fs_answer = Allowed | Refused io_Error nat

type_synonym file_system = "fs_call \<Rightarrow> build_state \<Rightarrow> fs_answer"

definition is_directory :: "build_state \<Rightarrow> bytes \<Rightarrow> bool" where
  "is_directory s p = (p = [] \<or> p \<in> directories s)"

definition create_dir_all :: "file_system \<Rightarrow> bytes \<Rightarrow> (build_state, io_Error + unit) comp" where
  "create_dir_all os p s =
     (case os (CreateDirAll p) s of
        Refused e k \<Rightarrow> Returned (Inl e) s
      | Allowed \<Rightarrow> Returned (Inr ()) (s\<lparr>directories := directories s \<union> path_ancestors p\<rparr>))"

definition fs_copy :: "file_system \<Rightarrow> bytes \<Rightarrow> bytes \<Rightarrow> (build_state, io_Error + unit) comp" where
  "fs_copy os from to s =
     (case files s from of
        None \<Rightarrow> Returned (Inl (from_kind OtherKind)) s
      | Some content \<Rightarrow>
          if \<not> is_directory s (path_parent to) then Returned (Inl (from_kind OtherKind)) s
          else (case os (CopyFile from to) s of
             Refused e k \<Rightarrow> Returned (Inl e) s
           | Allowed \<Rightarrow> Returned (Inr ()) (s\<lparr>files := (files s)(to \<mapsto> content)\<rparr>)))"

definition File_create :: "file_system \<Rightarrow> bytes \<Rightarrow> (build_state, io_Error + bytes) comp" where
  "File_create os p s =
     (if \<not> is_directory s (path_parent p) then Returned (Inl (from_kind OtherKind)) s
      else (case os (CreateFile p) s of
         Refused e k \<Rightarrow> Returned (Inl e) s
       | Allowed \<Rightarrow> Returned (Inr p) (s\<lparr>files := (files s)(p \<mapsto> [])\<rparr>)))"

definition file_append :: "bytes \<Rightarrow> bytes \<Rightarrow> build_state \<Rightarrow> build_state" where
  "file_append f bs s = s\<lparr>files := (files s)(f \<mapsto> (case files s f of None \<Rightarrow> [] | Some c \<Rightarrow> c) @ bs)\<rparr>"

definition File_write_all :: "file_system \<Rightarrow> bytes \<Rightarrow> bytes \<Rightarrow> (build_state, io_Error + unit) comp" where
  "File_write_all os f bs s =
     (case os (WriteFile f bs) s of
        Refused e k \<Rightarrow> Returned (Inl e) (file_append f (take k bs) s)
      | Allowed \<Rightarrow> Returned (Inr ()) (file_append f bs s))"

definition print_line :: "bytes \<Rightarrow> (build_state, unit) comp" where
  "print_line l s = Returned () (s\<lparr>stdout := stdout s @ [l]\<rparr>)"

section \<open>The script\<close>

definition RUSTLS_CRATE_VERSION :: bytes where
  "RUSTLS_CRATE_VERSION = as_bytes ''0.20.4''"

text \<open>The string of the generated constant, and the line that defines it.\<close>

definition generated_version :: "bytes \<Rightarrow> bytes" where
  "generated_version pkg_version = as_bytes ''rustls-ffi/'' @ pkg_version @ as_bytes ''/rustls/'' @ RUSTLS_CRATE_VERSION"

definition quote_mark :: u8 where "quote_mark = 0x22"

definition version_rs :: "bytes \<Rightarrow> bytes" where
  "version_rs pkg_version =
     as_bytes ''const RUSTLS_FFI_VERSION: &str = '' @ quote_mark # generated_version pkg_version @ [quote_mark]
       @ as_bytes '';'' @ [0x0A]"

text \<open>\<open>to_str().unwrap()\<close> of a path: a panic unless it is UTF-8.\<close>

definition path_to_str :: "bytes \<Rightarrow> unit + bytes" where
  "path_to_str p = (if utf8_valid p then Inr p else Inl ())"

definition build_main :: "file_system \<Rightarrow> bytes option \<Rightarrow> bytes \<Rightarrow> (build_state, unit) comp" where
  "build_main os OUT_DIR CARGO_PKG_VERSION s =
     (case OUT_DIR of
        None \<Rightarrow> Unwound s
      | Some out_dir \<Rightarrow>
          let include_dir = path_join out_dir (as_bytes ''include'')
          in and_then (create_dir_all os include_dir s) (\<lambda>r s.
             and_then (unwrap r s) (\<lambda>_ s.
             and_then (fs_copy os (as_bytes ''src/rustls.h'') (path_join include_dir (as_bytes ''rustls.h'')) s) (\<lambda>r s.
             and_then (unwrap r s) (\<lambda>_ s.
             and_then (unwrap (path_to_str include_dir) s) (\<lambda>dir s.
             and_then (print_line (as_bytes ''cargo:include='' @ dir) s) (\<lambda>_ s.
             let dest_path = path_join out_dir (as_bytes ''version.rs'')
             in and_then (File_create os dest_path s) (\<lambda>r s.
                and_then (unwrap r s) (\<lambda>f s.
                and_then (File_write_all os f (version_rs CARGO_PKG_VERSION) s) (\<lambda>r s.
                and_then (unwrap r s) (\<lambda>_ s.
                print_line (as_bytes ''cargo:rerun-if-env-changed=CARGO_PKG_VERSION'') s)))))))))))"

text \<open>
  What the compiler makes of a line \<open>const NAME: &str = "...";\<close>: the characters between the quotes. Escapes are not
  interpreted, so this is the value of literals without backslash.
\<close>

definition string_literal :: "bytes \<Rightarrow> bytes option" where
  "string_literal line =
     (let rest = tl (dropWhile (\<lambda>b. b \<noteq> quote_mark) line)
      in if quote_mark \<in> set rest then Some (takeWhile (\<lambda>b. b \<noteq> quote_mark) rest) else None)"

section \<open>Directories of the output\<close>

lemma path_parent_join:
  assumes "slash \<notin> set name"
  shows "path_parent (path_join dir name) = (if dir = [] then [] else if last dir = slash then butlast dir else dir)"
proof -
  have skip: "dropWhile (\<lambda>b. b \<noteq> slash) (rev name @ ys) = dropWhile (\<lambda>b. b \<noteq> slash) ys" for ys
    using assms by (induction name arbitrary: ys) auto
  have none: "dropWhile (\<lambda>b. b \<noteq> slash) (rev name) = []" using skip [of "[]"] by simp
  show ?thesis
    by (cases dir rule: rev_cases) (simp_all add: path_parent_def path_join_def skip none)
qed

text \<open>Creating a directory inside \<open>dir\<close> makes \<open>dir\<close> a place for other files.\<close>

lemma sibling_directory:
  assumes "slash \<notin> set name" and "path_ancestors (path_join dir other) \<subseteq> directories s"
  shows "is_directory s (path_parent (path_join dir name))"
proof (cases dir rule: rev_cases)
  case (snoc ds d)
  have "path_parent (path_join dir name) \<in> path_ancestors (path_join dir other)"
  proof (cases "d = slash")
    case True
    then have "butlast dir = take (length ds) (path_join dir other)" "path_join dir other ! length ds = slash"
      using snoc by (simp_all add: path_join_def)
    then show ?thesis
      unfolding path_parent_join [OF assms(1)] path_ancestors_def
      using snoc True by (auto simp: path_join_def intro!: image_eqI [of _ _ "length ds"])
  next
    case False
    then have "dir = take (length dir) (path_join dir other)" "path_join dir other ! length dir = slash"
      using snoc by (simp_all add: path_join_def nth_append)
    then show ?thesis
      unfolding path_parent_join [OF assms(1)] path_ancestors_def
      using snoc False by (auto simp: path_join_def intro!: image_eqI [of _ _ "length dir"])
  qed
  with assms(2) show ?thesis by (auto simp: is_directory_def)
qed (simp add: path_parent_join [OF assms(1)] is_directory_def)

lemma script_names [simp]:
  "slash \<notin> set (as_bytes ''include'')" "slash \<notin> set (as_bytes ''rustls.h'')" "slash \<notin> set (as_bytes ''version.rs'')"
  by (simp_all add: as_bytes_def slash_def)

section \<open>What the build produces\<close>

text \<open>The state after a build that nothing stopped.\<close>

definition built :: "bytes \<Rightarrow> bytes \<Rightarrow> bytes \<Rightarrow> build_state \<Rightarrow> build_state" where
  "built out_dir header pkg_version s =
     (let include_dir = path_join out_dir (as_bytes ''include'')
      in s\<lparr>files := (files s)(path_join include_dir (as_bytes ''rustls.h'') \<mapsto> header,
                            path_join out_dir (as_bytes ''version.rs'') \<mapsto> version_rs pkg_version),
           directories := directories s \<union> path_ancestors include_dir,
           stdout := stdout s @ [as_bytes ''cargo:include='' @ include_dir,
                                 as_bytes ''cargo:rerun-if-env-changed=CARGO_PKG_VERSION'']\<rparr>)"



text \<open>
  What \<open>lib.rs\<close> includes defines the generated string, for a version without quotes, and \<open>test_rustls_version\<close>
  passes on it whatever the version of the package is: the version of rustls that stands in the script already contains
  what the test looks for.
\<close>

theorem version_test_blind:
  assumes "quote_mark \<notin> set pkg_version" and "length pkg_version < 2 ^ 32"
  shows "string_literal (version_rs pkg_version) = Some (generated_version pkg_version)
    \<and> test_rustls_version (generated_version pkg_version) w = Returned () w"
proof
  have head: "quote_mark \<notin> set (as_bytes ''const RUSTLS_FFI_VERSION: &str = '')"
    by (simp add: as_bytes_def quote_mark_def)
  have skip: "dropWhile (\<lambda>b. b \<noteq> quote_mark) (xs @ quote_mark # ys) = quote_mark # ys" if "quote_mark \<notin> set xs" for xs ys
    using that by (induction xs) auto
  have keep: "takeWhile (\<lambda>b. b \<noteq> quote_mark) (xs @ quote_mark # ys) = xs" if "quote_mark \<notin> set xs" for xs ys
    using that by (induction xs) auto
  have "quote_mark \<notin> set (generated_version pkg_version)"
    using assms(1) by (auto simp: generated_version_def RUSTLS_CRATE_VERSION_def as_bytes_def quote_mark_def)
  then show "string_literal (version_rs pkg_version) = Some (generated_version pkg_version)"
    by (simp add: string_literal_def version_rs_def skip [OF head] keep Let_def)
  have "fits_isize (generated_version pkg_version)"
    using assms(2) by (simp add: fits_isize_def generated_version_def RUSTLS_CRATE_VERSION_def)
  moreover have "sublist (as_bytes ''/0.'') (generated_version pkg_version)"
  proof -
    have "generated_version pkg_version = (as_bytes ''rustls-ffi/'' @ pkg_version @ as_bytes ''/rustls'') @ as_bytes ''/0.'' @ as_bytes ''20.4''"
      by (simp add: generated_version_def RUSTLS_CRATE_VERSION_def as_bytes_def)
    then show ?thesis by (metis sublist_appendI)
  qed
  moreover have "4 < length (generated_version pkg_version)" by (simp add: generated_version_def RUSTLS_CRATE_VERSION_def)
  ultimately have "passes (test_rustls_version (generated_version pkg_version) w)"
    using test_rustls_version_exact by blast
  then show "test_rustls_version (generated_version pkg_version) w = Returned () w"
    by (auto simp: test_rustls_version_def assert_that_def Let_def split: if_splits)
qed

theorem version_test_blind_witness:
  "test_rustls_version (generated_version []) empty_world = Returned () empty_world"
  using version_test_blind [of "[]" empty_world] by simp

end
