(* ===== verification/Ffi_Demo_Http.thy ===== *)
theory Ffi_Demo_Http
  imports Ffi_Std
begin

text \<open>
  The text handling of the test programs (\<open>tests/common.c\<close>, \<open>tests/client.c\<close>): the search \<open>memmem\<close>, the end of the
  HTTP headers, the value of a header, and the number the client reads from it.

  The functions read memory through addresses. Their results are \<open>None\<close> when they have undefined behaviour: a byte that is
  not readable is read, or a string literal is read past its end. A C pointer result is \<open>Null\<close> or an address. Lengths that
  only count down from the length of an object are natural numbers; where an unsigned subtraction of the source can wrap, the
  length is a \<open>usize\<close>.
\<close>

section \<open>The C library\<close>

fun memchr :: "(nat \<rightharpoonup> u8) \<Rightarrow> nat \<Rightarrow> u8 \<Rightarrow> nat \<Rightarrow> u8 ptr option" where
  "memchr h p c 0 = Some Null"
| "memchr h p c (Suc n) =
     (case h p of None \<Rightarrow> None | Some b \<Rightarrow> if b = c then Some (Ptr p) else memchr h (Suc p) c n)"

text \<open>\<open>memcmp(p, needle, n) == 0\<close>: all \<open>n\<close> bytes of both must be readable.\<close>

definition memcmp_equal :: "(nat \<rightharpoonup> u8) \<Rightarrow> nat \<Rightarrow> bytes \<Rightarrow> nat \<Rightarrow> bool option" where
  "memcmp_equal h p needle n =
     (if length needle < n then None else map_option (\<lambda>bs. bs = take n needle) (read_range h p n))"

definition to_lower :: "u8 \<Rightarrow> u8" where
  "to_lower b = (if 0x41 \<le> b \<and> b \<le> 0x5A then b + 0x20 else b)"

text \<open>\<open>strncasecmp(name, p, n) == 0\<close>, in the C locale.\<close>

fun strncasecmp_equal :: "(nat \<rightharpoonup> u8) \<Rightarrow> bytes \<Rightarrow> nat \<Rightarrow> nat \<Rightarrow> bool option" where
  "strncasecmp_equal h name p 0 = Some True"
| "strncasecmp_equal h name p (Suc n) =
     (case name of
        [] \<Rightarrow> None
      | c # name \<Rightarrow>
     case h p of
        None \<Rightarrow> None
      | Some b \<Rightarrow>
          if to_lower c \<noteq> to_lower b then Some False
          else if c = 0 then Some True
          else strncasecmp_equal h name (Suc p) n)"

text \<open>\<open>strtoul(str, &end, 10)\<close>: the number, saturated, and the end; the end is \<open>str\<close> when there is no digit.\<close>

definition is_space :: "u8 \<Rightarrow> bool" where
  "is_space b = (b = 0x20 \<or> 0x09 \<le> b \<and> b \<le> 0x0D)"

definition is_digit :: "u8 \<Rightarrow> bool" where
  "is_digit b = (0x30 \<le> b \<and> b \<le> 0x39)"

partial_function (option) skip_space :: "(nat \<rightharpoonup> u8) \<Rightarrow> nat \<Rightarrow> nat option" where
  "skip_space h p =
     (case h p of None \<Rightarrow> None | Some b \<Rightarrow> if is_space b then skip_space h (Suc p) else Some p)"

partial_function (option) read_digits :: "(nat \<rightharpoonup> u8) \<Rightarrow> nat \<Rightarrow> nat \<Rightarrow> (nat \<times> nat) option" where
  "read_digits h p acc =
     (case h p of
        None \<Rightarrow> None
      | Some b \<Rightarrow> if is_digit b then read_digits h (Suc p) (acc * 10 + unat (b - 0x30)) else Some (acc, p))"

definition strtoul :: "(nat \<rightharpoonup> u8) \<Rightarrow> nat \<Rightarrow> (usize \<times> nat) option" where
  "strtoul h str =
     Option.bind (skip_space h str) (\<lambda>p.
     Option.bind (h p) (\<lambda>sign.
     let start = (if sign = 0x2B \<or> sign = 0x2D then Suc p else p)
     in Option.bind (read_digits h start 0) (\<lambda>(v, stop).
        if stop = start then Some (0, str)
        else if 2 ^ 64 \<le> v then Some (- 1, stop)
        else Some (if sign = 0x2D then - of_nat v else of_nat v, stop))))"

section \<open>\<open>memmem\<close>\<close>

lemma memchr_range: "memchr h p c n = Some (Ptr q) \<Longrightarrow> p \<le> q \<and> q < p + n"
  by (induction n arbitrary: p) (fastforce split: option.splits if_splits)+

function memmem_loop :: "(nat \<rightharpoonup> u8) \<Rightarrow> nat \<Rightarrow> nat \<Rightarrow> bytes \<Rightarrow> nat \<Rightarrow> nat \<Rightarrow> u8 ptr option" where
  "memmem_loop h bf haystacklen needle needlelen p =
     (if needlelen \<le> haystacklen - (p - bf) then
        (case needle of
           [] \<Rightarrow> None
         | pt # _ \<Rightarrow>
        case memchr h p pt (haystacklen - (p - bf)) of
           None \<Rightarrow> None
         | Some Null \<Rightarrow> Some Null
         | Some (Ptr p) \<Rightarrow>
        case memcmp_equal h p needle needlelen of
           None \<Rightarrow> None
         | Some equal \<Rightarrow>
             if equal then Some (Ptr p) else memmem_loop h bf haystacklen needle needlelen (Suc p))
      else Some Null)"
  by pat_completeness auto
termination
  by (relation "measure (\<lambda>(h, bf, haystacklen, needle, needlelen, p). bf + haystacklen - p)") (auto dest!: memchr_range)

declare memmem_loop.simps [simp del]

definition memmem :: "(nat \<rightharpoonup> u8) \<Rightarrow> u8 ptr \<Rightarrow> nat \<Rightarrow> bytes \<Rightarrow> nat \<Rightarrow> u8 ptr option" where
  "memmem h haystack haystacklen needle needlelen =
     (case haystack of
        Null \<Rightarrow> if needlelen \<le> haystacklen then None else Some Null
      | Ptr bf \<Rightarrow> memmem_loop h bf haystacklen needle needlelen bf)"

section \<open>Headers\<close>

definition CR :: u8 where "CR = 0x0D"
definition LF :: u8 where "LF = 0x0A"
definition COLON :: u8 where "COLON = 0x3A"

abbreviation CRLF :: bytes where "CRLF \<equiv> [CR, LF]"

lemma CR_LF [simp]: "CR \<noteq> LF" "LF \<noteq> CR"
  by (simp_all add: CR_def LF_def)

text \<open>\<open>struct bytevec\<close> of \<open>common.h\<close>.\<close>

record bytevec =
  bv_data :: "u8 ptr"
  bv_len :: usize
  bv_capacity :: usize

definition body_beginning :: "(nat \<rightharpoonup> u8) \<Rightarrow> bytevec \<Rightarrow> u8 ptr option" where
  "body_beginning h vec =
     (case memmem h (bv_data vec) (unat (bv_len vec)) [CR, LF, CR, LF] 4 of
        None \<Rightarrow> None
      | Some Null \<Rightarrow> Some Null
      | Some (Ptr r) \<Rightarrow> Some (Ptr (r + 4)))"

text \<open>
  \<open>get_first_header_value\<close>: \<open>Some None\<close> is the null pointer, \<open>Some (Some (p, n))\<close> the pointer with the length that is stored
  in \<open>*n\<close>. Lengths wrap as \<open>size_t\<close> does.
\<close>

definition header_found :: "(nat \<rightharpoonup> u8) \<Rightarrow> nat \<Rightarrow> usize \<Rightarrow> (nat \<times> usize) option option" where
  "header_found h current len =
     (case memmem h (Ptr current) (unat len) CRLF 2 of
        None \<Rightarrow> None
      | Some Null \<Rightarrow> Some (Some (current, len))
      | Some (Ptr result) \<Rightarrow> Some (Some (current, of_nat (result - current))))"

definition header_here :: "(nat \<rightharpoonup> u8) \<Rightarrow> bytes \<Rightarrow> usize \<Rightarrow> nat \<Rightarrow> bool option" where
  "header_here h name name_len current =
     (case strncasecmp_equal h name current (unat name_len) of
        None \<Rightarrow> None
      | Some equal \<Rightarrow> if equal then map_option (\<lambda>b. b = COLON) (h (current + unat name_len)) else Some False)"

partial_function (option) header_loop ::
  "(nat \<rightharpoonup> u8) \<Rightarrow> bytes \<Rightarrow> usize \<Rightarrow> nat \<Rightarrow> usize \<Rightarrow> (nat \<times> usize) option option" where
  "header_loop h name name_len current len =
     (if name_len + 3 < len then
        (case memmem h (Ptr current) (unat len) CRLF 2 of
           None \<Rightarrow> None
         | Some Null \<Rightarrow> Some None
         | Some (Ptr result) \<Rightarrow>
             let skipped = of_nat (result - current + 2);
                 len = len - skipped;
                 current = current + unat skipped
             in if len < name_len + 2 then Some None
                else (case header_here h name name_len current of
                   None \<Rightarrow> None
                 | Some found \<Rightarrow>
                     if found then header_found h (current + unat (name_len + 1)) (len - (name_len + 1))
                     else header_loop h name name_len current len))
      else Some None)"

definition get_first_header_value ::
  "(nat \<rightharpoonup> u8) \<Rightarrow> nat \<Rightarrow> usize \<Rightarrow> bytes \<Rightarrow> usize \<Rightarrow> (nat \<times> usize) option option" where
  "get_first_header_value h headers headers_len name name_len = header_loop h name name_len headers headers_len"

section \<open>What the search finds\<close>

text \<open>The bytes at \<open>a\<close> can be read.\<close>

definition mapped_range :: "(nat \<rightharpoonup> u8) \<Rightarrow> nat \<Rightarrow> nat \<Rightarrow> bool" where
  "mapped_range h a n = (\<forall>i < n. h (a + i) \<noteq> None)"

text \<open>The needle stands at an address, whether or not it ends inside the haystack.\<close>

definition stands_at :: "(nat \<rightharpoonup> u8) \<Rightarrow> bytes \<Rightarrow> nat \<Rightarrow> bool" where
  "stands_at h needle p = (read_range h p (length needle) = Some needle)"

lemma memchr_exact:
  assumes "mapped_range h p n"
  shows "(case memchr h p c n of
      None \<Rightarrow> False
    | Some Null \<Rightarrow> \<forall>q. p \<le> q \<and> q < p + n \<longrightarrow> h q \<noteq> Some c
    | Some (Ptr q) \<Rightarrow> p \<le> q \<and> q < p + n \<and> h q = Some c \<and> (\<forall>r. p \<le> r \<and> r < q \<longrightarrow> h r \<noteq> Some c))"
  using assms
proof (induction n arbitrary: p)
  case (Suc n)
  then obtain b where b: "h p = Some b" by (force simp: mapped_range_def)
  have "mapped_range h (Suc p) n" using Suc.prems by (auto simp: mapped_range_def)
  moreover have "p \<le> q \<longleftrightarrow> q = p \<or> Suc p \<le> q" for q by auto
  ultimately show ?case
    using Suc.IH [of "Suc p"] b by (auto split: option.splits ptr.splits)
qed auto

lemma stands_at_hd: "stands_at h (c # cs) p \<Longrightarrow> h p = Some c"
  by (force simp: stands_at_def read_range_Some_iff)

lemma mapped_range_read: "mapped_range h p n \<longleftrightarrow> (\<exists>bs. read_range h p n = Some bs)"
proof
  assume "mapped_range h p n"
  then have "read_range h p n = Some (map (\<lambda>i. the (h (p + i))) [0..<n])"
    by (auto simp: mapped_range_def read_range_Some_iff)
  then show "\<exists>bs. read_range h p n = Some bs" by blast
qed (auto simp: mapped_range_def read_range_Some_iff)

lemma memcmp_mapped:
  "mapped_range h p (length needle) \<Longrightarrow> memcmp_equal h p needle (length needle) = Some (stands_at h needle p)"
  by (auto simp: mapped_range_read memcmp_equal_def stands_at_def)

text \<open>
  Every place the search compares at is readable: the loop tests the remaining length before it looks for the first byte of the
  needle, so it also compares at places where the needle does not fit any more.
\<close>

definition candidates_readable :: "(nat \<rightharpoonup> u8) \<Rightarrow> nat \<Rightarrow> nat \<Rightarrow> bytes \<Rightarrow> bool" where
  "candidates_readable h bf n needle =
     (mapped_range h bf n \<and> (\<forall>q. bf \<le> q \<and> q < bf + n \<and> h q = Some (hd needle) \<longrightarrow> mapped_range h q (length needle)))"

text \<open>
  The answer of a search from \<open>p\<close> on: the first place where the needle stands, which may also be one where it reaches beyond
  the haystack, and null only when it does not stand inside.
\<close>

definition search_answer :: "(nat \<rightharpoonup> u8) \<Rightarrow> nat \<Rightarrow> bytes \<Rightarrow> nat \<Rightarrow> u8 ptr option \<Rightarrow> bool" where
  "search_answer h stop needle p r =
     (case r of
        None \<Rightarrow> False
      | Some Null \<Rightarrow> \<forall>q. p \<le> q \<and> q + length needle \<le> stop \<longrightarrow> \<not> stands_at h needle q
      | Some (Ptr q) \<Rightarrow> p \<le> q \<and> q < stop \<and> stands_at h needle q \<and> (\<forall>r. p \<le> r \<and> r < q \<longrightarrow> \<not> stands_at h needle r))"

lemma search_answer_skip:
  assumes "search_answer h stop needle (Suc q) r" and "p \<le> q" and "\<And>r. \<lbrakk>p \<le> r; r \<le> q\<rbrakk> \<Longrightarrow> \<not> stands_at h needle r"
  shows "search_answer h stop needle p r"
proof -
  have later: "Suc q \<le> x" if "p \<le> x" "stands_at h needle x" for x
  proof (rule ccontr)
    assume "\<not> Suc q \<le> x"
    then show False using assms(3) [OF that(1)] that(2) by simp
  qed
  show ?thesis
  proof (cases r)
    case None
    then show ?thesis using assms(1) by (simp add: search_answer_def)
  next
    case (Some x)
    then show ?thesis
      using assms(1,2) later by (cases x) (auto simp: search_answer_def)
  qed
qed

lemma memmem_loop_exact:
  assumes "candidates_readable h bf n (c # cs)" and "bf \<le> p" and "p \<le> bf + n"
  shows "search_answer h (bf + n) (c # cs) p (memmem_loop h bf n (c # cs) (length (c # cs)) p)"
  using assms(2,3)
proof (induction "bf + n - p" arbitrary: p rule: less_induct)
  case less
  let ?needle = "c # cs" and ?rest = "n - (p - bf)"
  have rest: "p + ?rest = bf + n" using less.prems by simp
  have "mapped_range h p ?rest"
    unfolding mapped_range_def
  proof (intro allI impI)
    fix i assume "i < ?rest"
    then have "p - bf + i < n" "p + i = bf + (p - bf + i)" using less.prems by simp_all
    then show "h (p + i) \<noteq> None" using assms(1) unfolding candidates_readable_def mapped_range_def by metis
  qed
  note scan = memchr_exact [OF this, of c]
  show ?case
  proof (cases "length ?needle \<le> ?rest")
    case False
    then show ?thesis using rest by (subst memmem_loop.simps) (auto simp: search_answer_def)
  next
    case True
    show ?thesis
    proof (cases "memchr h p c ?rest")
      case None
      then show ?thesis using scan by simp
    next
      case (Some r)
      show ?thesis
      proof (cases r)
        case Null
        with Some scan rest show ?thesis
          using True by (subst memmem_loop.simps) (auto simp: search_answer_def dest!: stands_at_hd)
      next
        case (Ptr q)
        with Some scan rest have q: "p \<le> q" "q < bf + n" "h q = Some c" "\<forall>r. p \<le> r \<and> r < q \<longrightarrow> h r \<noteq> Some c" by auto
        then have "memcmp_equal h q ?needle (length ?needle) = Some (stands_at h ?needle q)"
          using assms(1) less.prems by (intro memcmp_mapped) (auto simp: candidates_readable_def)
        then have step: "memmem_loop h bf n ?needle (length ?needle) p =
            (if stands_at h ?needle q then Some (Ptr q) else memmem_loop h bf n ?needle (length ?needle) (Suc q))"
          using True Some Ptr by (subst memmem_loop.simps) simp
        have before: "\<not> stands_at h ?needle r" if "p \<le> r" "r < q" for r
          using q(4) that by (auto dest!: stands_at_hd)
        show ?thesis
        proof (cases "stands_at h ?needle q")
          case True
          with step q before show ?thesis by (simp add: search_answer_def)
        next
          case False
          have "search_answer h (bf + n) ?needle (Suc q) (memmem_loop h bf n ?needle (length ?needle) (Suc q))"
            using q less.prems by (intro less.hyps) auto
          then have "search_answer h (bf + n) ?needle p (memmem_loop h bf n ?needle (length ?needle) (Suc q))"
            using q(1)
          proof (rule search_answer_skip)
            show "\<not> stands_at h ?needle r" if "p \<le> r" "r \<le> q" for r
              using before [of r] False that by (cases "r = q") auto
          qed
          then show ?thesis by (simp only: step False if_False)
        qed
      qed
    qed
  qed
qed

lemma memmem_exact:
  assumes "needle \<noteq> []" and "candidates_readable h a n needle"
  shows "search_answer h (a + n) needle a (memmem h (Ptr a) n needle (length needle))"
proof (cases needle)
  case (Cons c cs)
  show ?thesis
    unfolding memmem_def ptr.case Cons using assms(2) Cons by (intro memmem_loop_exact) auto
qed (use assms(1) in simp)

lemma mapped_range_shift: "mapped_range h a n \<Longrightarrow> d + m \<le> n \<Longrightarrow> mapped_range h (a + d) m"
  by (simp add: mapped_range_def add.assoc)

lemma mapped_range_candidates:
  assumes "mapped_range h a (n + k)" and "length needle \<le> Suc k"
  shows "candidates_readable h a n needle"
  unfolding candidates_readable_def
proof (intro conjI allI impI)
  show "mapped_range h a n" using mapped_range_shift [OF assms(1), of 0 n] by simp
  fix q assume "a \<le> q \<and> q < a + n \<and> h q = Some (hd needle)"
  then have "q - a + length needle \<le> n + k" "a + (q - a) = q" using assms(2) by auto
  then show "mapped_range h q (length needle)" using mapped_range_shift [OF assms(1), of "q - a" "length needle"] by simp
qed

lemma memmem_finds:
  assumes "needle \<noteq> []" and "candidates_readable h a n needle"
    and "i + length needle \<le> n" and "stands_at h needle (a + i)" and "\<And>j. j < i \<Longrightarrow> \<not> stands_at h needle (a + j)"
  shows "memmem h (Ptr a) n needle (length needle) = Some (Ptr (a + i))"
proof -
  have "\<not> stands_at h needle r" if "a \<le> r" "r < a + i" for r
    using assms(5) [of "r - a"] that by (metis le_add_diff_inverse less_diff_conv2 add.commute)
  with memmem_exact [OF assms(1,2)] assms(3,4) show ?thesis
    by (auto simp: search_answer_def split: option.splits ptr.splits) (metis add.commute le_add1 nat_neq_iff)+
qed

lemma stands_at_append [simp]:
  "stands_at h (xs @ ys) a \<longleftrightarrow> stands_at h xs a \<and> stands_at h ys (a + length xs)"
proof -
  have "(\<forall>i < length xs + length ys. h (a + i) = Some ((xs @ ys) ! i)) \<longleftrightarrow>
      (\<forall>i < length xs. h (a + i) = Some (xs ! i)) \<and> (\<forall>i < length ys. h (a + length xs + i) = Some (ys ! i))"
    (is "?all \<longleftrightarrow> ?left \<and> ?right")
  proof (intro iffI conjI)
    assume ?all
    then show ?left by (auto simp: nth_append)
    show ?right
    proof (intro allI impI)
      fix i assume "i < length ys"
      with \<open>?all\<close> [rule_format, of "length xs + i"] show "h (a + length xs + i) = Some (ys ! i)"
        by (simp add: add.assoc)
    qed
  next
    assume parts: "?left \<and> ?right"
    show ?all
    proof (intro allI impI)
      fix i assume "i < length xs + length ys"
      with parts [THEN conjunct1, rule_format, of i] parts [THEN conjunct2, rule_format, of "i - length xs"]
      show "h (a + i) = Some ((xs @ ys) ! i)" by (cases "i < length xs") (auto simp: nth_append)
    qed
  qed
  then show ?thesis by (simp add: stands_at_def read_range_Some_iff)
qed

lemma stands_at_nth: "stands_at h xs a \<Longrightarrow> i < length xs \<Longrightarrow> h (a + i) = Some (xs ! i)"
  by (simp add: stands_at_def read_range_Some_iff)

section \<open>Header blocks\<close>

text \<open>A block of lines as it is sent, and the header a reader of the protocol looks for.\<close>

definition block :: "bytes list \<Rightarrow> bytes" where
  "block ls = concat (map (\<lambda>l. l @ CRLF) ls)"

definition names :: "bytes \<Rightarrow> bytes \<Rightarrow> bool" where
  "names name l =
     (length name < length l \<and> map to_lower (take (length name) l) = map to_lower name \<and> l ! length name = COLON)"

definition header_value :: "bytes \<Rightarrow> bytes list \<Rightarrow> bytes option" where
  "header_value name ls = map_option (drop (Suc (length name))) (find (names name) ls)"

lemma block_simps [simp]: "block [] = []" "block (l # ls) = l @ CRLF @ block ls"
  by (simp_all add: block_def)

lemma names_length: "names name l \<Longrightarrow> l \<in> set ls \<Longrightarrow> length name + 3 \<le> length (block ls)"
  by (induction ls) (auto simp: names_def)

lemma short_block_nothing: "length (block ls) < length name + 3 \<Longrightarrow> header_value name ls = None"
  using names_length [of name _ ls] by (fastforce simp: header_value_def find_None_iff)

lemma block_last: "block ls \<noteq> [] \<Longrightarrow> last (block ls) = LF"
  by (induction ls) (auto split: if_splits)

text \<open>In a block, the search for the end of a line reads nothing outside, and finds it.\<close>

lemma block_candidates:
  assumes "stands_at h (block ls) a"
  shows "candidates_readable h a (length (block ls)) CRLF"
  unfolding candidates_readable_def
proof (intro conjI allI impI)
  show "mapped_range h a (length (block ls))" using assms by (auto simp: mapped_range_def stands_at_nth)
  fix q assume q: "a \<le> q \<and> q < a + length (block ls) \<and> h q = Some (hd CRLF)"
  then have at: "block ls ! (q - a) = CR" using stands_at_nth [OF assms, of "q - a"] by auto
  have "q - a \<noteq> length (block ls) - 1"
  proof
    assume "q - a = length (block ls) - 1"
    moreover have "block ls \<noteq> []" using q by auto
    ultimately show False using at block_last [of ls] by (simp add: last_conv_nth)
  qed
  then have "Suc (q - a) < length (block ls)" using q by linarith
  then show "mapped_range h q (length CRLF)"
    using stands_at_nth [OF assms, of "q - a"] stands_at_nth [OF assms, of "Suc (q - a)"] q
    by (auto simp: mapped_range_def less_Suc_eq)
qed

lemma line_end:
  assumes "stands_at h (block (l # ls)) a" and "CR \<notin> set l"
  shows "memmem h (Ptr a) (length (block (l # ls))) CRLF 2 = Some (Ptr (a + length l))"
proof -
  have "\<not> stands_at h CRLF (a + j)" if "j < length l" for j
  proof
    assume "stands_at h CRLF (a + j)"
    then have "h (a + j) = Some CR" by (rule stands_at_hd)
    moreover have "h (a + j) = Some (l ! j)" using assms(1) that by (simp add: stands_at_nth)
    ultimately show False using assms(2) nth_mem [OF that] by simp
  qed
  moreover have "stands_at h CRLF (a + length l)"
    using assms(1) stands_at_append [of h CRLF "block ls"] by simp
  ultimately show ?thesis
    using memmem_finds [OF _ block_candidates [OF assms(1)], of "length l"] by (simp add: numeral_2_eq_2)
qed

lemma strncasecmp_exact:
  assumes "0 \<notin> set name" and "stands_at h bs p" and "length name \<le> length bs"
  shows "strncasecmp_equal h name p (length name) = Some (map to_lower (take (length name) bs) = map to_lower name)"
  using assms
proof (induction name arbitrary: p bs)
  case (Cons c name)
  then obtain b bs' where bs: "bs = b # bs'" by (cases bs) auto
  then have "h p = Some b" "stands_at h bs' (Suc p)"
    using Cons.prems(2) stands_at_append [of h "[b]" bs' p] stands_at_hd by auto
  with Cons bs show ?case by auto
qed simp

lemma names_in_text:
  assumes "CR \<notin> set (map to_lower name)" and "length name < length text" and "text = l @ CR # rest"
  shows "map to_lower (take (length name) text) = map to_lower name \<and> text ! length name = COLON \<longleftrightarrow> names name l"
proof (cases "length name < length l")
  case True
  then show ?thesis by (simp add: assms(3) names_def nth_append)
next
  case False
  have "False" if same: "map to_lower (take (length name) text) = map to_lower name" and colon: "text ! length name = COLON"
  proof (cases "length name = length l")
    case True
    then show False using colon by (simp add: assms(3) COLON_def CR_def)
  next
    case longer: False
    have "length l < length (take (length name) text)" "take (length name) text ! length l = text ! length l"
      using False longer assms(2) by auto
    moreover have "to_lower (text ! length l) = CR" by (simp add: assms(3) to_lower_def CR_def)
    ultimately have "map to_lower (take (length name) text) ! length l = CR" using nth_map by metis
    then have "map to_lower name ! length l = CR" using same by metis
    then show False using assms(1) nth_mem [of "length l" "map to_lower name"] False longer by simp
  qed
  then show ?thesis using False by (auto simp: names_def)
qed

lemma header_here_exact:
  assumes "0 \<notin> set name" and "CR \<notin> set (map to_lower name)" and "stands_at h (block (l # ls)) p"
    and "length name + 2 \<le> length (block (l # ls))" and "unat name_len = length name"
  shows "header_here h name name_len p = Some (names name l)"
proof -
  obtain whole rest where whole: "whole = block (l # ls)" "whole = l @ CR # rest" by simp
  have long: "length name < length whole" using assms(4) unfolding whole(1) by linarith
  have "strncasecmp_equal h name p (length name) = Some (map to_lower (take (length name) whole) = map to_lower name)"
    using strncasecmp_exact [OF assms(1), of h whole p] assms(3) long whole(1) by simp
  moreover have "h (p + length name) = Some (whole ! length name)"
    using stands_at_nth [OF assms(3)] long whole(1) by simp
  ultimately show ?thesis
    using names_in_text [OF assms(2) long whole(2)] assms(5) by (auto simp: header_here_def)
qed

text \<open>Lengths as \<open>size_t\<close>.\<close>

lemma unat_usize: "n < 2 ^ 64 \<Longrightarrow> unat (of_nat n :: usize) = n"
  by (simp add: unat_of_nat take_bit_nat_eq_self)

lemma less_usize: "\<lbrakk>m < 2 ^ 64; n < 2 ^ 64\<rbrakk> \<Longrightarrow> (of_nat m :: usize) < of_nat n \<longleftrightarrow> m < n"
  by (simp add: word_less_nat_alt unat_usize)

lemma found_value:
  assumes "names name l" and "stands_at h (block (l # ls)) p" and "CR \<notin> set l"
  shows "stands_at h (drop (Suc (length name)) l @ CRLF) (p + Suc (length name))"
    and "memmem h (Ptr (p + Suc (length name))) (length (block (l # ls)) - Suc (length name)) CRLF 2
      = Some (Ptr (p + Suc (length name) + length (drop (Suc (length name)) l)))"
proof -
  let ?v = "drop (Suc (length name)) l" and ?q = "p + Suc (length name)"
  have "length (take (Suc (length name)) l) = Suc (length name)" using assms(1) by (simp add: names_def)
  moreover have "block (l # ls) = take (Suc (length name)) l @ block (?v # ls)" by simp
  ultimately have at: "stands_at h (block (?v # ls)) ?q" and size: "length (block (l # ls)) - Suc (length name) = length (block (?v # ls))"
    using assms(2) stands_at_append [of h "take (Suc (length name)) l" "block (?v # ls)" p] by (metis, simp)
  from at show "stands_at h (?v @ CRLF) ?q" using stands_at_append [of h "?v @ CRLF" "block ls" ?q] by simp
  have "CR \<notin> set ?v" using assms(3) set_drop_subset by fastforce
  from line_end [OF at this] show "memmem h (Ptr ?q) (length (block (l # ls)) - Suc (length name)) CRLF 2 = Some (Ptr (?q + length ?v))"
    unfolding size .
qed

definition value_answer :: "(nat \<rightharpoonup> u8) \<Rightarrow> bytes option \<Rightarrow> (nat \<times> usize) option option \<Rightarrow> bool" where
  "value_answer h v r =
     (case v of None \<Rightarrow> r = Some None | Some v \<Rightarrow> \<exists>p. r = Some (Some (p, of_nat (length v))) \<and> stands_at h (v @ CRLF) p)"

lemma header_loop_step:
  assumes "stands_at h (block (l # ls)) a" and "CR \<notin> set l" and "length name < 2 ^ 63" and "length (block (l # ls)) < 2 ^ 64"
  defines "next \<equiv> a + (length l + 2)"
  shows "header_loop h name (of_nat (length name)) a (of_nat (length (block (l # ls)))) =
     (if length name + 3 < length (block (l # ls)) \<and> length name + 2 \<le> length (block ls) then
        (case header_here h name (of_nat (length name)) next of
           None \<Rightarrow> None
         | Some found \<Rightarrow>
             if found then header_found h (next + Suc (length name)) (of_nat (length (block ls) - Suc (length name)))
             else header_loop h name (of_nat (length name)) next (of_nat (length (block ls))))
      else Some None)"
proof -
  let ?n = "length (block (l # ls))" and ?k = "length name"
  have sums: "(of_nat ?k :: usize) + 3 = of_nat (?k + 3)" "(of_nat ?k :: usize) + 2 = of_nat (?k + 2)"
    "(of_nat ?k :: usize) + 1 = of_nat (Suc ?k)" by simp_all
  have whole: "unat (of_nat ?n :: usize) = ?n" by (rule unat_usize [OF assms(4)])
  have skip: "a + length l - a + 2 = length l + 2" "length l + 2 \<le> ?n" "?n - (length l + 2) = length (block ls)" by simp_all
  have small: "?k + 3 < 2 ^ 64" "?k + 2 < 2 ^ 64" "Suc ?k < 2 ^ 64" "length l + 2 < 2 ^ 64" "length (block ls) < 2 ^ 64"
    using assms(3,4) by simp_all
  have rest: "(of_nat ?n :: usize) - of_nat (length l + 2) = of_nat (length (block ls))"
    using of_nat_diff [OF skip(2), where ?'a = usize] skip(3) by simp
  have minus: "(of_nat (length (block ls)) :: usize) - of_nat (Suc ?k) = of_nat (length (block ls) - Suc ?k)"
    if "?k + 2 \<le> length (block ls)" using that by (intro of_nat_diff [symmetric]) simp
  note eval = whole line_end [OF assms(1,2)] option.case ptr.case Let_def skip(1) rest sums
    unat_usize [OF small(3)] unat_usize [OF small(4)] less_usize [OF small(1) assms(4)] less_usize [OF small(5,2)] next_def [symmetric]
  show ?thesis
  proof (cases "length (block ls) < ?k + 2")
    case True
    then have "\<not> ?k + 2 \<le> length (block ls)" by linarith
    with True show ?thesis by (subst header_loop.simps) (simp only: eval simp_thms if_True if_False if_cancel)
  next
    case False
    then have "?k + 2 \<le> length (block ls)" by linarith
    with False minus show ?thesis by (subst header_loop.simps) (simp only: eval simp_thms if_True if_False)
  qed
qed

lemma header_loop_exact:
  assumes "0 \<notin> set name" and "CR \<notin> set (map to_lower name)" and "length name < 2 ^ 63"
    and "stands_at h (block (l # ls)) a" and "\<forall>l \<in> set (l # ls). CR \<notin> set l" and "length (block (l # ls)) < 2 ^ 64"
  shows "value_answer h (header_value name ls) (header_loop h name (of_nat (length name)) a (of_nat (length (block (l # ls)))))"
  using assms(4-6)
proof (induction ls arbitrary: l a)
  case Nil
  then show ?case
    using header_loop_step [of h l "[]" a name] assms(3) by (simp add: value_answer_def header_value_def)
next
  case (Cons l' ls)
  let ?next = "a + (length l + 2)" and ?k = "length name"
  have at: "stands_at h (block (l' # ls)) ?next"
    using Cons.prems(1) stands_at_append [of h "l @ CRLF" "block (l' # ls)" a] by simp
  have size: "length (block (l' # ls)) < 2 ^ 64" using Cons.prems(3) by simp
  have clean: "CR \<notin> set l" "CR \<notin> set l'" "\<forall>l \<in> set (l' # ls). CR \<notin> set l" using Cons.prems(2) by simp_all
  note step = header_loop_step [OF Cons.prems(1) clean(1) assms(3) Cons.prems(3)]
  show ?case
  proof (cases "?k + 3 < length (block (l # l' # ls)) \<and> ?k + 2 \<le> length (block (l' # ls))")
    case False
    then have "length (block (l' # ls)) < ?k + 3" by auto
    then have "header_value name (l' # ls) = None" by (rule short_block_nothing)
    then show ?thesis by (simp only: step False if_False value_answer_def option.case)
  next
    case True
    have here: "header_here h name (of_nat ?k) ?next = Some (names name l')"
      using header_here_exact [OF assms(1,2) at] True assms(3) by (simp add: unat_usize)
    show ?thesis
    proof (cases "names name l'")
      case False
      then have "header_value name (l' # ls) = header_value name ls" by (simp add: header_value_def)
      with Cons.IH [OF at clean(3) size] show ?thesis by (simp only: step here True False simp_thms if_True if_False option.case)
    next
      case found: True
      let ?v = "drop (Suc ?k) l'"
      have "unat (of_nat (length (block (l' # ls)) - Suc ?k) :: usize) = length (block (l' # ls)) - Suc ?k"
        using size by (intro unat_usize) linarith
      with found_value [OF found at clean(2)]
      have "header_found h (?next + Suc ?k) (of_nat (length (block (l' # ls)) - Suc ?k)) = Some (Some (?next + Suc ?k, of_nat (length ?v)))"
        by (simp only: header_found_def option.case ptr.case diff_add_inverse)
      moreover have "header_value name (l' # ls) = Some ?v" using found by (simp add: header_value_def)
      ultimately show ?thesis
        using found_value(1) [OF found at clean(2)]
        by (auto simp only: step here True found simp_thms if_True option.case value_answer_def)
    qed
  qed
qed

section \<open>Properties\<close>

text \<open>
  C23. \<open>get_first_header_value\<close>, on a block of header lines: it returns, it finds the value of the first header after the first
  line whose name is the given one in any case, and null when there is none. It reads nothing outside the block.
\<close>

theorem header_value_exact:
  assumes "stands_at h (block (l # ls)) a" and "\<forall>l \<in> set (l # ls). CR \<notin> set l" and "length (block (l # ls)) < 2 ^ 64"
    and "0 \<notin> set name" and "CR \<notin> set (map to_lower name)" and "length name < 2 ^ 63"
  shows "value_answer h (header_value name ls)
    (get_first_header_value h a (of_nat (length (block (l # ls)))) name (of_nat (length name)))"
  unfolding get_first_header_value_def using assms by (intro header_loop_exact) auto

text \<open>A string in memory, for the examples.\<close>

definition memory_of :: "nat \<Rightarrow> bytes \<Rightarrow> nat \<rightharpoonup> u8" where
  "memory_of a bs x = (if a \<le> x \<and> x < a + length bs then Some (bs ! (x - a)) else None)"

lemma stands_at_memory [simp]: "stands_at (memory_of a bs) bs a"
  by (simp add: stands_at_def read_range_Some_iff memory_of_def)

lemma mapped_range_memory: "n \<le> length bs \<Longrightarrow> mapped_range (memory_of a bs) a n"
  by (simp add: mapped_range_def memory_of_def)

theorem header_value_exact_witness:
  "\<exists>p. get_first_header_value (memory_of 5 (block [[0x47], [0x41, COLON, 0x42]])) 5
      (of_nat (length (block [[0x47], [0x41, COLON, 0x42]]))) [0x61] (of_nat (length [0x61 :: u8])) = Some (Some (p, 1))
    \<and> stands_at (memory_of 5 (block [[0x47], [0x41, COLON, 0x42]])) ([0x42] @ CRLF) p"
proof -
  have "names [0x61] [0x41, COLON, 0x42]" by (simp add: names_def to_lower_def)
  then have "header_value [0x61] [[0x41, COLON, 0x42]] = Some [0x42]" by (simp add: header_value_def)
  with header_value_exact [of "memory_of 5 (block [[0x47], [0x41, COLON, 0x42]])" "[0x47]" "[[0x41, COLON, 0x42]]" 5 "[0x61]",
      OF stands_at_memory]
  show ?thesis by (simp add: value_answer_def CR_def COLON_def to_lower_def)
qed

text \<open>No earlier place looks like the end of the headers.\<close>

lemma no_early_end:
  assumes "stands_at h (block ls) a" and "\<forall>l \<in> set ls. l \<noteq> [] \<and> CR \<notin> set l" and "j + 2 < length (block ls)"
  shows "\<not> stands_at h [CR, LF, CR, LF] (a + j)"
  using assms
proof (induction ls arbitrary: a j)
  case (Cons l ls)
  have parts: "stands_at h l a" "stands_at h CRLF (a + length l)" "stands_at h (block ls) (a + (length l + 2))"
    using Cons.prems(1) stands_at_append [of h "l @ CRLF" "block ls" a] by simp_all
  show ?case
  proof
    assume ended: "stands_at h [CR, LF, CR, LF] (a + j)"
    have cr: "h (a + j) = Some CR" "h (a + (j + 2)) = Some CR"
      using stands_at_nth [OF ended, of 0] stands_at_nth [OF ended, of 2] by (simp_all add: add.assoc)
    consider "j < length l" | "j = length l" | "j = Suc (length l)" | "length l + 2 \<le> j" by linarith
    then show False
    proof cases
      case 1
      then show False using cr(1) stands_at_nth [OF parts(1)] Cons.prems(2) nth_mem by fastforce
    next
      case 2
      with Cons.prems(3) obtain m ms where ls: "ls = m # ms" by (cases ls) auto
      then have "h (a + (length l + 2)) = Some (m ! 0)" "m \<noteq> []" "CR \<notin> set m"
        using parts(3) Cons.prems(2) stands_at_nth [of h m "a + (length l + 2)" 0] by auto
      then show False using cr(2) 2 nth_mem [of 0 m] by auto
    next
      case 3
      then show False using cr(1) stands_at_nth [OF parts(2), of 1] by simp
    next
      case 4
      then have "a + (length l + 2) + (j - (length l + 2)) = a + j" "j - (length l + 2) + 2 < length (block ls)"
        using Cons.prems(3) by simp_all
      moreover have "\<forall>l \<in> set ls. l \<noteq> [] \<and> CR \<notin> set l" using Cons.prems(2) by simp
      ultimately show False using Cons.IH [OF parts(3)] ended by metis
    qed
  qed
qed simp

lemma body_begins:
  assumes "stands_at h (block (ls @ [[]]) @ body) a" and "\<forall>l \<in> set ls. l \<noteq> [] \<and> CR \<notin> set l" and "ls \<noteq> []"
    and "unat (bv_len vec) = length (block (ls @ [[]]) @ body)" and "bv_data vec = Ptr a"
    and "mapped_range h a (unat (bv_len vec) + 3)"
  shows "body_beginning h vec = Some (Ptr (a + length (block (ls @ [[]]))))"
proof -
  let ?n = "unat (bv_len vec)" and ?stop = "[CR, LF, CR, LF]"
  have snoc: "block (ls @ [[]]) = block ls @ CRLF" by (simp add: block_def)
  obtain l ms where ls: "ls = ms @ [l]" using assms(3) by (cases ls rule: rev_cases) auto
  have long: "2 \<le> length (block ls)" by (simp add: ls block_def)
  have "block ls @ CRLF = (block ms @ l) @ ?stop" "length (block ms @ l) = length (block ls) - 2" by (simp_all add: ls block_def)
  then have stands: "stands_at h ?stop (a + (length (block ls) - 2))"
    using assms(1) stands_at_append [of h "block ms @ l" ?stop a] by (simp only: snoc stands_at_append)
  have "candidates_readable h a ?n ?stop"
    using assms(6) by (rule mapped_range_candidates) simp
  moreover have "\<not> stands_at h ?stop (a + j)" if "j < length (block ls) - 2" for j
    using that assms(1,2) by (intro no_early_end) (auto simp: snoc)
  ultimately have "memmem h (Ptr a) ?n ?stop (length ?stop) = Some (Ptr (a + (length (block ls) - 2)))"
    using long assms(4) stands by (intro memmem_finds) (auto simp: snoc)
  moreover have "a + (length (block ls) - 2) + 4 = a + length (block (ls @ [[]]))" using long by (simp add: snoc)
  ultimately show ?thesis using assms(5) by (simp add: body_beginning_def numeral_eq_Suc)
qed

text \<open>
  \<open>body_beginning\<close> returns the place after the empty line that ends the headers, for a buffer that holds header lines, the
  empty line and a part of the body, and has three more readable bytes.
\<close>

theorem body_beginning_exact:
  assumes "stands_at h (block (ls @ [[]]) @ body) a" and "\<forall>l \<in> set ls. l \<noteq> [] \<and> CR \<notin> set l" and "ls \<noteq> []"
    and "unat (bv_len vec) = length (block (ls @ [[]]) @ body)" and "bv_data vec = Ptr a"
    and "mapped_range h a (unat (bv_len vec) + 3)"
  shows "body_beginning h vec = Some (Ptr (a + length (block (ls @ [[]]))))"
  using assms by (rule body_begins)

theorem body_beginning_exact_witness:
  "body_beginning (memory_of 5 (block [[0x47], []] @ [0x62] @ [0, 0, 0])) \<lparr>bv_data = Ptr 5, bv_len = 6, bv_capacity = 9\<rparr> = Some (Ptr 10)"
proof -
  let ?h = "memory_of 5 (block [[0x47], []] @ [0x62] @ [0, 0, 0])"
  have "stands_at ?h ((block ([[0x47]] @ [[]]) @ [0x62]) @ [0, 0, 0]) 5"
    using stands_at_memory [of 5 "block [[0x47], []] @ [0x62] @ [0, 0, 0]"] by simp
  then have at: "stands_at ?h (block ([[0x47]] @ [[]]) @ [0x62]) 5" by (simp only: stands_at_append)
  have "mapped_range ?h 5 (unat (6 :: usize) + 3)" by (rule mapped_range_memory) simp
  then show ?thesis
    using body_beginning_exact [OF at, of "\<lparr>bv_data = Ptr 5, bv_len = 6, bv_capacity = 9\<rparr>"] by (simp add: CR_def)
qed

lemma memchr_first:
  assumes "\<And>r. p \<le> r \<Longrightarrow> r < q \<Longrightarrow> \<exists>b. h r = Some b \<and> b \<noteq> c" and "h q = Some c" and "p \<le> q" and "q < p + n"
  shows "memchr h p c n = Some (Ptr q)"
  using assms
proof (induction n arbitrary: p)
  case (Suc n)
  show ?case
  proof (cases "p = q")
    case False
    then obtain b where "h p = Some b" "b \<noteq> c" using Suc.prems(1) [of p] Suc.prems(3) by auto
    moreover have "memchr h (Suc p) c n = Some (Ptr q)" using Suc.prems False by (intro Suc.IH) auto
    ultimately show ?thesis by simp
  qed (use Suc.prems(2) in simp)
qed simp

lemma half_needle:
  assumes "CR \<notin> set bs" and "2 \<le> length bs" and "h = memory_of a (bs @ CRLF @ rest)"
  shows "memmem h (Ptr a) (length (bs @ CRLF)) [CR, LF, CR, LF] 4 =
    (case memcmp_equal h (a + length bs) [CR, LF, CR, LF] 4 of
       None \<Rightarrow> None
     | Some True \<Rightarrow> Some (Ptr (a + length bs))
     | Some False \<Rightarrow> memmem_loop h a (length (bs @ CRLF)) [CR, LF, CR, LF] 4 (Suc (a + length bs)))"
proof -
  have "memchr h a CR (length (bs @ CRLF)) = Some (Ptr (a + length bs))"
  proof (rule memchr_first)
    fix r assume "a \<le> r" "r < a + length bs"
    then have "h r = Some (bs ! (r - a))" "r - a < length bs" by (auto simp: assms(3) memory_of_def nth_append)
    then show "\<exists>b. h r = Some b \<and> b \<noteq> CR" using assms(1) nth_mem by fastforce
  qed (simp_all add: assms(3) memory_of_def)
  then show ?thesis
    using assms(2) by (simp add: memmem_def memmem_loop.simps [of h a _ _ _ a] split: option.splits)
qed

text \<open>
  C35. The search is exact when its comparisons stay inside readable memory: it returns the first place where the needle stands,
  and null when it stands nowhere. Without that assumption it is not memory safe, because the comparison at the last bytes of
  the haystack reads beyond its end: on a buffer that ends with half of the needle its behaviour is undefined, or it
  finds a needle of which the second half is not part of the haystack.
\<close>

theorem memmem_first_occurrence:
  "(needle \<noteq> [] \<and> candidates_readable h a n needle \<longrightarrow>
      search_answer h (a + n) needle a (memmem h (Ptr a) n needle (length needle)))
   \<and> (CR \<notin> set bs \<and> 2 \<le> length bs \<longrightarrow>
      memmem (memory_of a (bs @ CRLF)) (Ptr a) (length (bs @ CRLF)) [CR, LF, CR, LF] 4 = None
      \<and> memmem (memory_of a (bs @ CRLF @ CRLF)) (Ptr a) (length (bs @ CRLF)) [CR, LF, CR, LF] 4 = Some (Ptr (a + length bs)))"
proof (intro conjI impI)
  show "search_answer h (a + n) needle a (memmem h (Ptr a) n needle (length needle))"
    if "needle \<noteq> [] \<and> candidates_readable h a n needle"
    using that by (blast intro: memmem_exact)
  assume bs: "CR \<notin> set bs \<and> 2 \<le> length bs"
  have "read_range (memory_of a (bs @ CRLF)) (a + length bs) 4 \<noteq> Some ys" for ys
    by (auto simp: read_range_Some_iff memory_of_def intro!: exI [of _ 3])
  then have "read_range (memory_of a (bs @ CRLF)) (a + length bs) 4 = None" by (metis not_None_eq)
  then show "memmem (memory_of a (bs @ CRLF)) (Ptr a) (length (bs @ CRLF)) [CR, LF, CR, LF] 4 = None"
    using half_needle [of bs "memory_of a (bs @ CRLF)" a "[]"] bs by (simp add: memcmp_equal_def)
  have "stands_at (memory_of a (bs @ CRLF @ CRLF)) [CR, LF, CR, LF] (a + length bs)"
    using stands_at_memory [of a "bs @ CRLF @ CRLF"] stands_at_append [of _ bs "[CR, LF, CR, LF]" a] by simp
  then show "memmem (memory_of a (bs @ CRLF @ CRLF)) (Ptr a) (length (bs @ CRLF)) [CR, LF, CR, LF] 4 = Some (Ptr (a + length bs))"
    using half_needle [of bs "memory_of a (bs @ CRLF @ CRLF)" a CRLF] bs
    by (simp add: memcmp_equal_def stands_at_def numeral_eq_Suc)
qed

theorem memmem_first_occurrence_witness:
  "memmem (memory_of 7 ([1, 2] @ CRLF)) (Ptr 7) (length ([1, 2] @ CRLF)) [CR, LF, CR, LF] 4 = None"
  using memmem_first_occurrence [THEN conjunct2, rule_format, of "[1, 2]" 7] by (simp add: CR_def)

end
