(* ===== verification/Ffi_Demo_Buffer.thy ===== *)
theory Ffi_Demo_Buffer
  imports Ffi_Demo_Http Ffi_Connection
begin

text \<open>
  The buffers of the test programs (\<open>tests/common.c\<close>): the growable byte vector on the C heap, and the loop that moves all
  plaintext of a connection into it through \<open>rustls_connection_read\<close>.

  The state of a C program is the state of the library together with the blocks it has allocated. Whether an allocation fails is
  an argument. Addresses of local variables that are passed to the library are arguments, too. Diagnostics on stderr are not
  part of the state.
\<close>

datatype crustls_demo_result = CRUSTLS_DEMO_OK | CRUSTLS_DEMO_ERROR | CRUSTLS_DEMO_AGAIN | CRUSTLS_DEMO_EOF

record conndata =
  cd_fd :: c_int
  cd_verify_arg :: "bytes option"
  cd_program_name :: bytes
  cd_data :: bytevec
  cd_rconn :: "Connection ptr"

section \<open>The C heap\<close>

record c_program =
  lib :: world
  blocks :: "nat \<rightharpoonup> nat"
  heap_top :: nat

definition in_lib :: "(world, 'a) comp \<Rightarrow> (c_program, 'a) comp" where
  "in_lib m s =
     (case m (lib s) of
        Returned r w \<Rightarrow> Returned r (s\<lparr>lib := w\<rparr>)
      | Unwound w \<Rightarrow> Unwound (s\<lparr>lib := w\<rparr>)
      | Undefined \<Rightarrow> Undefined)"

text \<open>
  \<open>realloc\<close>: a new block with the bytes of the old one, as many as fit, followed by bytes without a defined value (here 0).
  The old block is gone. When it fails, nothing has changed. A pointer that is not a block is undefined behaviour.
\<close>

definition place :: "nat \<Rightarrow> bytes \<Rightarrow> (nat \<rightharpoonup> u8) \<Rightarrow> nat \<rightharpoonup> u8" where
  "place a bs h x = (if a \<le> x \<and> x < a + length bs then Some (bs ! (x - a)) else h x)"

definition unmap :: "nat \<Rightarrow> nat \<Rightarrow> (nat \<rightharpoonup> u8) \<Rightarrow> nat \<rightharpoonup> u8" where
  "unmap a n h x = (if a \<le> x \<and> x < a + n then None else h x)"

definition c_allocate :: "bytes \<Rightarrow> (c_program, u8 ptr) comp" where
  "c_allocate bs s =
     Returned (Ptr (heap_top s))
       (s\<lparr>lib := (lib s)\<lparr>m_u8 := place (heap_top s) bs (m_u8 (lib s))\<rparr>,
         blocks := (blocks s)(heap_top s \<mapsto> length bs), heap_top := heap_top s + length bs\<rparr>)"

definition c_free :: "u8 ptr \<Rightarrow> (c_program, unit) comp" where
  "c_free p s =
     (case p of
        Null \<Rightarrow> Returned () s
      | Ptr a \<Rightarrow>
          (case blocks s a of
             None \<Rightarrow> Undefined
           | Some k \<Rightarrow> Returned () (s\<lparr>lib := (lib s)\<lparr>m_u8 := unmap a k (m_u8 (lib s))\<rparr>, blocks := (blocks s)(a := None)\<rparr>)))"

definition block_bytes :: "u8 ptr \<Rightarrow> c_program \<Rightarrow> bytes option" where
  "block_bytes p s =
     (case p of
        Null \<Rightarrow> Some []
      | Ptr a \<Rightarrow> Option.bind (blocks s a) (read_range (m_u8 (lib s)) a))"

definition c_realloc :: "(usize \<Rightarrow> c_program \<Rightarrow> bool) \<Rightarrow> u8 ptr \<Rightarrow> usize \<Rightarrow> (c_program, u8 ptr) comp" where
  "c_realloc oom p n s =
     (case block_bytes p s of
        None \<Rightarrow> Undefined
      | Some old \<Rightarrow>
          if oom n s then Returned Null s
          else and_then (c_free p s) (\<lambda>_.
            c_allocate (take (unat n) old @ replicate (unat n - length old) 0)))"

section \<open>Byte vectors\<close>

definition bytevec_available :: "bytevec \<Rightarrow> usize" where
  "bytevec_available vec = bv_capacity vec - bv_len vec"

definition bytevec_writeable :: "bytevec \<Rightarrow> u8 ptr" where
  "bytevec_writeable vec = (case bv_data vec of Null \<Rightarrow> Null | Ptr a \<Rightarrow> Ptr (a + unat (bv_len vec)))"

definition bytevec_consume :: "bytevec \<Rightarrow> usize \<Rightarrow> bytevec" where
  "bytevec_consume vec n = vec\<lparr>bv_len := bv_len vec + n\<rparr>"

definition bytevec_ensure_available ::
  "(usize \<Rightarrow> c_program \<Rightarrow> bool) \<Rightarrow> bytevec \<Rightarrow> usize \<Rightarrow> (c_program, crustls_demo_result \<times> bytevec) comp" where
  "bytevec_ensure_available oom vec n s =
     (let available = bv_capacity vec - bv_len vec
      in if available < n then
           let newsize = bv_len vec + n;
               newsize = (if newsize < bv_capacity vec * 2 then bv_capacity vec * 2 else newsize)
           in and_then (c_realloc oom (bv_data vec) newsize s) (\<lambda>newdata s.
                if is_null newdata then Returned (CRUSTLS_DEMO_ERROR, vec) s
                else Returned (CRUSTLS_DEMO_OK, vec\<lparr>bv_data := newdata, bv_capacity := newsize\<rparr>) s)
         else Returned (CRUSTLS_DEMO_OK, vec) s)"

section \<open>Copying the plaintext\<close>

type_synonym plaintext_read = "((rustls_Connection \<times> bytes) \<times> world, io_Error + usize) comp"

partial_function (option) copy_plaintext_loop ::
  "plaintext_read \<Rightarrow> (usize \<Rightarrow> c_program \<Rightarrow> bool) \<Rightarrow> nat \<Rightarrow> conndata \<Rightarrow> c_program \<Rightarrow>
   (crustls_demo_result \<times> conndata, c_program) outcome option" where
  "copy_plaintext_loop reader_read oom n_addr conn s =
     (let buf = bytevec_writeable (cd_data conn);
          avail = bytevec_available (cd_data conn)
      in case in_lib (rustls_connection_read reader_read (cd_rconn conn) buf avail (Ptr n_addr)) s of
           Undefined \<Rightarrow> Some Undefined
         | Unwound s \<Rightarrow> Some (Unwound s)
         | Returned result s \<Rightarrow>
             if result = PlaintextEmpty then Some (Returned (CRUSTLS_DEMO_OK, conn) s)
             else if result \<noteq> Ok then Some (Returned (CRUSTLS_DEMO_ERROR, conn) s)
             else (case m_usize (lib s) n_addr of
                None \<Rightarrow> Some Undefined
              | Some n \<Rightarrow>
                  if n = 0 then Some (Returned (CRUSTLS_DEMO_EOF, conn) s)
                  else (case bytevec_ensure_available oom (bytevec_consume (cd_data conn) n) 1024 s of
                     Undefined \<Rightarrow> Some Undefined
                   | Unwound s \<Rightarrow> Some (Unwound s)
                   | Returned (r, vec) s \<Rightarrow>
                       if r \<noteq> CRUSTLS_DEMO_OK then Some (Returned (CRUSTLS_DEMO_ERROR, conn\<lparr>cd_data := vec\<rparr>) s)
                       else copy_plaintext_loop reader_read oom n_addr (conn\<lparr>cd_data := vec\<rparr>) s)))"

definition copy_plaintext_to_buffer ::
  "plaintext_read \<Rightarrow> (usize \<Rightarrow> c_program \<Rightarrow> bool) \<Rightarrow> nat \<Rightarrow> conndata \<Rightarrow> c_program \<Rightarrow>
   (crustls_demo_result \<times> conndata, c_program) outcome option" where
  "copy_plaintext_to_buffer reader_read oom n_addr conn s =
     (case bytevec_ensure_available oom (cd_data conn) 1024 s of
        Undefined \<Rightarrow> Some Undefined
      | Unwound s \<Rightarrow> Some (Unwound s)
      | Returned (r, vec) s \<Rightarrow>
          if r \<noteq> CRUSTLS_DEMO_OK then Some (Returned (CRUSTLS_DEMO_ERROR, conn\<lparr>cd_data := vec\<rparr>) s)
          else copy_plaintext_loop reader_read oom n_addr (conn\<lparr>cd_data := vec\<rparr>) s)"

section \<open>Invariant of a vector\<close>

text \<open>The heap grows upwards into memory that is not mapped.\<close>

definition heap_ok :: "c_program \<Rightarrow> bool" where
  "heap_ok s = ((\<forall>x \<ge> heap_top s. m_u8 (lib s) x = None) \<and> (\<forall>a k. blocks s a = Some k \<longrightarrow> a + k \<le> heap_top s))"

text \<open>The vector owns a block of its capacity, which starts with the given bytes.\<close>

definition holds :: "c_program \<Rightarrow> bytevec \<Rightarrow> bytes \<Rightarrow> bool" where
  "holds s vec bs =
     (heap_ok s \<and> length bs = unat (bv_len vec) \<and> bv_len vec \<le> bv_capacity vec
      \<and> (case bv_data vec of
           Null \<Rightarrow> bv_capacity vec = 0
         | Ptr a \<Rightarrow> blocks s a = Some (unat (bv_capacity vec)) \<and> mapped_range (m_u8 (lib s)) a (unat (bv_capacity vec))
             \<and> stands_at (m_u8 (lib s)) bs a))"

lemma stands_at_place: "stands_at (place a bs h) bs a"
  by (simp add: stands_at_def read_range_Some_iff place_def)

lemma stands_at_cong:
  "stands_at h bs a \<Longrightarrow> (\<And>i. i < length bs \<Longrightarrow> h' (a + i) = h (a + i)) \<Longrightarrow> stands_at h' bs a"
  by (simp add: stands_at_def read_range_Some_iff)

lemma block_bytes_holds:
  assumes "holds s vec bs"
  obtains rest where "block_bytes (bv_data vec) s = Some (bs @ rest)" and "length (bs @ rest) = unat (bv_capacity vec)"
proof (cases "bv_data vec")
  case Null
  with assms have "bv_len vec = 0" by (auto simp: holds_def)
  with assms Null that [of "[]"] show ?thesis by (simp add: holds_def block_bytes_def)
next
  case (Ptr a)
  with assms obtain all where all: "read_range (m_u8 (lib s)) a (unat (bv_capacity vec)) = Some all"
    by (auto simp: holds_def mapped_range_read)
  then have len: "length all = unat (bv_capacity vec)" and at: "stands_at (m_u8 (lib s)) all a"
    by (auto simp: read_range_Some_iff stands_at_def)
  have short: "length bs \<le> length all" using assms len by (simp add: holds_def word_le_nat_alt)
  have "take (length bs) all = bs"
  proof (rule nth_equalityI)
    fix i assume "i < length (take (length bs) all)"
    then show "take (length bs) all ! i = bs ! i"
      using stands_at_nth [OF at, of i] stands_at_nth [of "m_u8 (lib s)" bs a i] assms Ptr by (simp add: holds_def)
  qed (use short in simp)
  then have "all = bs @ drop (length bs) all" by (metis append_take_drop_id)
  with that [of "drop (length bs) all"] all len Ptr assms show ?thesis by (simp add: block_bytes_def holds_def)
qed

text \<open>What an allocation step leaves of the library's state: everything but the bytes.\<close>

definition same_but_bytes :: "c_program \<Rightarrow> c_program \<Rightarrow> bool" where
  "same_but_bytes s s' = (\<exists>h. lib s' = (lib s)\<lparr>m_u8 := h\<rparr>)"

lemma same_but_bytes_refl [simp]: "same_but_bytes s s"
  by (auto simp: same_but_bytes_def intro!: exI [of _ "m_u8 (lib s)"])

lemma free_block:
  assumes "blocks s a = Some k" and "heap_ok s"
  shows "\<exists>s'. c_free (Ptr a) s = Returned () s' \<and> heap_ok s' \<and> heap_top s' = heap_top s \<and> same_but_bytes s s'"
  using assms by (auto simp: c_free_def heap_ok_def unmap_def same_but_bytes_def)

lemma free_vector:
  "holds s vec bs \<Longrightarrow>
     \<exists>s'. c_free (bv_data vec) s = Returned () s' \<and> heap_ok s' \<and> heap_top s' = heap_top s \<and> same_but_bytes s s'"
  using free_block by (cases "bv_data vec") (auto simp: holds_def c_free_def)

lemma allocate_ok:
  assumes "heap_ok s" and "c_allocate bs s = Returned p s'"
  shows "p = Ptr (heap_top s)" and "heap_ok s'" and "blocks s' (heap_top s) = Some (length bs)"
    and "stands_at (m_u8 (lib s')) bs (heap_top s)" and "same_but_bytes s s'"
proof -
  have s': "s' = s\<lparr>lib := (lib s)\<lparr>m_u8 := place (heap_top s) bs (m_u8 (lib s))\<rparr>,
      blocks := (blocks s)(heap_top s \<mapsto> length bs), heap_top := heap_top s + length bs\<rparr>"
    and "p = Ptr (heap_top s)" using assms(2) by (simp_all add: c_allocate_def)
  then show "p = Ptr (heap_top s)" by simp
  show "heap_ok s'" using assms(1) unfolding s' heap_ok_def by (simp add: place_def trans_le_add1)
  show "blocks s' (heap_top s) = Some (length bs)" "stands_at (m_u8 (lib s')) bs (heap_top s)" "same_but_bytes s s'"
    by (auto simp: s' stands_at_place same_but_bytes_def)
qed

lemma stands_at_mapped: "stands_at h bs a \<Longrightarrow> mapped_range h a (length bs)"
  by (auto simp: mapped_range_read stands_at_def)

lemma realloc_grows:
  assumes "holds s vec bs" and "\<not> oom n s" and "unat (bv_capacity vec) \<le> unat n"
  shows "\<exists>p s'. c_realloc oom (bv_data vec) n s = Returned (Ptr p) s'
    \<and> holds s' (vec\<lparr>bv_data := Ptr p, bv_capacity := n\<rparr>) bs \<and> same_but_bytes s s'"
proof -
  from assms(1) obtain rest where old: "block_bytes (bv_data vec) s = Some (bs @ rest)" "length (bs @ rest) = unat (bv_capacity vec)"
    by (rule block_bytes_holds)
  define new where "new = bs @ rest @ replicate (unat n - length (bs @ rest)) 0"
  have new: "take (unat n) (bs @ rest) @ replicate (unat n - length (bs @ rest)) 0 = new" "length new = unat n"
    using old(2) assms(3) by (simp_all add: new_def)
  obtain s1 where s1: "c_free (bv_data vec) s = Returned () s1" "heap_ok s1" "same_but_bytes s s1"
    using free_vector [OF assms(1)] by blast
  obtain p s' where run: "c_allocate new s1 = Returned p s'" by (simp add: c_allocate_def)
  note new_block = allocate_ok [OF s1(2) run]
  have "c_realloc oom (bv_data vec) n s = Returned (Ptr (heap_top s1)) s'"
    using old(1) assms(2) s1(1) run new_block(1) by (simp only: c_realloc_def option.case if_False new(1) and_then_simps)
  moreover have "stands_at (m_u8 (lib s')) bs (heap_top s1)" using new_block(4) by (simp add: new_def)
  moreover have "mapped_range (m_u8 (lib s')) (heap_top s1) (unat n)"
    using stands_at_mapped [OF new_block(4)] new(2) by simp
  moreover have "bv_len vec \<le> n" "length bs = unat (bv_len vec)"
    using assms(1,3) by (auto simp: holds_def word_le_nat_alt)
  moreover have "same_but_bytes s s'" using s1(3) new_block(5) by (auto simp: same_but_bytes_def)
  ultimately show ?thesis using new_block(2,3) new(2) by (simp add: holds_def)
qed

lemma ensure_available:
  assumes "holds s vec bs" and "length bs + unat n < 2 ^ 62"
  obtains r vec' s' where "bytevec_ensure_available oom vec n s = Returned (r, vec') s'" and "holds s' vec' bs"
    and "same_but_bytes s s'" and "r = CRUSTLS_DEMO_OK \<and> n \<le> bytevec_available vec' \<or> r = CRUSTLS_DEMO_ERROR \<and> (\<exists>m. oom m s)"
proof (cases "bv_capacity vec - bv_len vec < n")
  case False
  with assms that [of CRUSTLS_DEMO_OK vec s] show ?thesis by (simp add: bytevec_ensure_available_def bytevec_available_def)
next
  case True
  let ?new = "if bv_len vec + n < bv_capacity vec * 2 then bv_capacity vec * 2 else bv_len vec + n"
  have le: "bv_len vec \<le> bv_capacity vec" and len: "length bs = unat (bv_len vec)" using assms(1) by (simp_all add: holds_def)
  have room: "unat (bv_capacity vec) < unat (bv_len vec) + unat n"
    using True le by (simp add: word_less_nat_alt unat_sub word_le_nat_alt)
  have sum: "unat (bv_len vec + n) = unat (bv_len vec) + unat n"
    using assms(2) len by (intro unat_add_lem [THEN iffD1]) simp
  have dbl: "unat (bv_capacity vec * 2) = unat (bv_capacity vec) * 2"
    using unat_mult_lem [of "bv_capacity vec" 2] room assms(2) len by simp
  have new: "unat (bv_capacity vec) \<le> unat ?new" "unat (bv_len vec) + unat n \<le> unat ?new"
    using room by (auto simp: sum dbl word_less_nat_alt)
  show ?thesis
  proof (cases "oom ?new s")
    case oom: True
    from assms(1) obtain rest where "block_bytes (bv_data vec) s = Some (bs @ rest)" by (rule block_bytes_holds)
    then have "bytevec_ensure_available oom vec n s = Returned (CRUSTLS_DEMO_ERROR, vec) s"
      using True oom by (simp add: bytevec_ensure_available_def c_realloc_def Let_def)
    with oom assms(1) show ?thesis by (intro that [of CRUSTLS_DEMO_ERROR vec s]) auto
  next
    case False
    from realloc_grows [of s vec bs oom ?new, OF assms(1) this new(1)] obtain p s' where run:
      "c_realloc oom (bv_data vec) ?new s = Returned (Ptr p) s'" "holds s' (vec\<lparr>bv_data := Ptr p, bv_capacity := ?new\<rparr>) bs" "same_but_bytes s s'"
      by blast
    have ensured: "bytevec_ensure_available oom vec n s = Returned (CRUSTLS_DEMO_OK, vec\<lparr>bv_data := Ptr p, bv_capacity := ?new\<rparr>) s'"
      using True run(1) by (simp only: bytevec_ensure_available_def Let_def if_True and_then_simps is_null.simps if_False)
    have "n \<le> ?new - bv_len vec"
      using new le by (simp only: word_le_nat_alt unat_sub)
    then have "n \<le> bytevec_available (vec\<lparr>bv_data := Ptr p, bv_capacity := ?new\<rparr>)"
      by (simp add: bytevec_available_def)
    with ensured run(2,3) show ?thesis by (intro that) (assumption | rule disjI1 conjI refl)+
  qed
qed

section \<open>The plaintext of a connection\<close>

text \<open>
  What rustls documents of its \<open>Reader\<close>: it hands out the plaintext it has received in order, as much as it likes but not
  nothing while there is some; then the end of the stream is an error \<open>WouldBlock\<close> while the connection is open, a read of 0
  bytes after \<open>close_notify\<close>, and the error \<open>UnexpectedEof\<close> when the transport was closed without it.
\<close>

datatype stream_end = StillOpen | CloseNotify | Truncated

primrec end_of_stream :: "stream_end \<Rightarrow> io_Error + usize" where
  "end_of_stream StillOpen = Inl (from_kind WouldBlockKind)"
| "end_of_stream CloseNotify = Inr 0"
| "end_of_stream Truncated = Inl (from_kind UnexpectedEofKind)"

definition plaintext_reader ::
  "(rustls_Connection \<Rightarrow> bytes) \<Rightarrow> (rustls_Connection \<Rightarrow> stream_end) \<Rightarrow> plaintext_read \<Rightarrow> bool" where
  "plaintext_reader pending ending reader_read =
     (\<forall>i bs w.
        (pending i = [] \<longrightarrow> reader_read ((i, bs), w) = Returned (end_of_stream (ending i)) ((i, bs), w))
        \<and> (pending i \<noteq> [] \<and> bs \<noteq> [] \<longrightarrow>
             (\<exists>n i'. 0 < n \<and> n \<le> length bs \<and> n \<le> length (pending i)
                \<and> reader_read ((i, bs), w) = Returned (Inr (of_nat n)) ((i', take n (pending i) @ drop n bs), w)
                \<and> pending i' = drop n (pending i) \<and> ending i' = ending i)))"

primrec copy_verdict :: "stream_end \<Rightarrow> crustls_demo_result" where
  "copy_verdict StillOpen = CRUSTLS_DEMO_OK"
| "copy_verdict CloseNotify = CRUSTLS_DEMO_EOF"
| "copy_verdict Truncated = CRUSTLS_DEMO_ERROR"

lemma read_runs:
  assumes "h_connection w a = Some c" and "stands_at (m_u8 w) old b" and "length old = unat count" and "m_usize w o' \<noteq> None"
    and "reader_read ((conn_inner c, old), w\<lparr>h_connection := (h_connection w)(a := None)\<rparr>) =
      Returned r ((i, new), w\<lparr>h_connection := (h_connection w)(a := None)\<rparr>)" and "length new = length old"
  obtains h where "stands_at h new b" and "\<And>x. x \<notin> {b..<b + unat count} \<Longrightarrow> h x = m_u8 w x"
    and "rustls_connection_read reader_read (Ptr a) (Ptr b) count (Ptr o') w =
      Returned (case r of Inr n \<Rightarrow> Ok | Inl e \<Rightarrow> read_error e)
        (w\<lparr>h_connection := (h_connection w)(a \<mapsto> c\<lparr>conn_inner := i\<rparr>), m_u8 := h,
          m_usize := (case r of Inr n \<Rightarrow> (m_usize w)(o' \<mapsto> n) | Inl e \<Rightarrow> m_usize w)\<rparr>)"
proof -
  have bs: "read_range (m_u8 w) b (unat count) = Some old" using assms(2,3) by (simp add: stands_at_def)
  then have "\<forall>x < length new. m_u8 w (b + x) \<noteq> None" using assms(3,6) by (auto simp: read_range_Some_iff)
  then obtain h where h: "write_range (m_u8 w) b new = Some h" using write_range_defined by blast
  have "stands_at h new b" using write_then_read [OF h] by (simp add: stands_at_def)
  moreover have "h x = m_u8 w x" if "x \<notin> {b..<b + unat count}" for x
    using write_range_apply [OF h, of x] that assms(3,6) by auto
  moreover have "rustls_connection_read reader_read (Ptr a) (Ptr b) count (Ptr o') w =
      Returned (case r of Inr n \<Rightarrow> Ok | Inl e \<Rightarrow> read_error e)
        (w\<lparr>h_connection := (h_connection w)(a \<mapsto> c\<lparr>conn_inner := i\<rparr>), m_u8 := h,
          m_usize := (case r of Inr n \<Rightarrow> (m_usize w)(o' \<mapsto> n) | Inl e \<Rightarrow> m_usize w)\<rparr>)"
    using assms(1,3-6) bs h
    by (cases r) (auto simp: rustls_connection_read_def ffi_panic_boundary_def call_inner_buf_def Let_def copy_to_def write_cell_def
        deref_def deref_mut_def)
  ultimately show ?thesis by (rule that)
qed

section \<open>One read\<close>

lemma usize_bound: "unat (x :: usize) < 2 ^ 64"
  using unsigned_less [of x] by simp

lemma holds_write:
  assumes "holds s vec bs" and "bv_data vec = Ptr d" and "stands_at (m_u8 (lib s')) new (d + unat (bv_len vec))"
    and "length new = unat (bytevec_available vec)"
    and "\<And>x. x \<notin> {d + unat (bv_len vec)..<d + unat (bv_len vec) + unat (bytevec_available vec)} \<Longrightarrow> m_u8 (lib s') x = m_u8 (lib s) x"
    and "blocks s' = blocks s" and "heap_top s' = heap_top s" and "n \<le> length new"
  shows "holds s' (bytevec_consume vec (of_nat n)) (bs @ take n new)"
proof -
  have len: "length bs = unat (bv_len vec)" "bv_len vec \<le> bv_capacity vec" "blocks s d = Some (unat (bv_capacity vec))"
    "stands_at (m_u8 (lib s)) bs d" "heap_ok s" using assms(1,2) by (simp_all add: holds_def)
  have avail: "unat (bv_len vec) + unat (bytevec_available vec) = unat (bv_capacity vec)"
    using len(2) by (simp add: bytevec_available_def unat_sub word_le_nat_alt)
  have old: "stands_at (m_u8 (lib s')) bs d"
    using len(4) by (rule stands_at_cong) (use len(1) in \<open>simp add: assms(5)\<close>)
  have all: "stands_at (m_u8 (lib s')) (bs @ new) d" using old assms(3) len(1) by simp
  have "stands_at (m_u8 (lib s')) (bs @ take n new) d"
    using all stands_at_append [of _ "bs @ take n new" "drop n new" d] by simp
  moreover have "mapped_range (m_u8 (lib s')) d (unat (bv_capacity vec))"
    using stands_at_mapped [OF all] assms(4) len(1) avail by simp
  moreover have "heap_ok s'"
  proof -
    have "d + unat (bv_capacity vec) \<le> heap_top s" using len(3,5) by (auto simp: heap_ok_def)
    then have "m_u8 (lib s') x = None" if "heap_top s \<le> x" for x
      using assms(5) [of x] that len(5) avail by (auto simp: heap_ok_def)
    then show ?thesis using len(5) assms(6,7) by (auto simp: heap_ok_def)
  qed
  moreover have sum: "unat (bv_len vec + of_nat n) = unat (bv_len vec) + n"
  proof -
    have "unat (bv_len vec) + n < 2 ^ 64"
      using assms(4,8) avail usize_bound [of "bv_capacity vec"] by simp
    then show ?thesis by (simp add: unat_word_ariths unat_of_nat take_bit_nat_eq_self)
  qed
  moreover have "bv_len vec + of_nat n \<le> bv_capacity vec"
    using sum assms(4,8) avail by (simp add: word_le_nat_alt)
  ultimately show ?thesis using assms(2,6,8) len(1,3) by (simp add: holds_def bytevec_consume_def)
qed

text \<open>The free part of a vector, as a buffer that can be lent.\<close>

lemma vector_room:
  assumes "holds s vec bs" and "1024 \<le> bytevec_available vec"
  obtains d old where "bv_data vec = Ptr d" and "stands_at (m_u8 (lib s)) old (d + unat (bv_len vec))"
    and "length old = unat (bytevec_available vec)" and "old \<noteq> []"
proof -
  obtain d where d: "bv_data vec = Ptr d" using assms by (cases "bv_data vec") (auto simp: holds_def bytevec_available_def)
  have "unat (bv_len vec) + unat (bytevec_available vec) = unat (bv_capacity vec)"
    using assms(1) by (simp add: holds_def bytevec_available_def unat_sub word_le_nat_alt)
  then have "mapped_range (m_u8 (lib s)) (d + unat (bv_len vec)) (unat (bytevec_available vec))"
    using assms(1) d by (intro mapped_range_shift [of _ _ "unat (bv_capacity vec)"]) (simp_all add: holds_def)
  then obtain old where "stands_at (m_u8 (lib s)) old (d + unat (bv_len vec))" "length old = unat (bytevec_available vec)"
    by (auto simp: mapped_range_read stands_at_def read_range_Some_iff)
  moreover from this assms(2) have "old \<noteq> []" by (auto simp: word_le_nat_alt)
  ultimately show ?thesis using d that by blast
qed

definition read_call :: "plaintext_read \<Rightarrow> nat \<Rightarrow> nat \<Rightarrow> bytevec \<Rightarrow> (c_program, rustls_result) comp" where
  "read_call reader_read a n_addr vec =
     in_lib (rustls_connection_read reader_read (Ptr a) (bytevec_writeable vec) (bytevec_available vec) (Ptr n_addr))"

text \<open>A read whose buffer is the free part of a vector.\<close>

lemma read_call_runs:
  assumes "holds s vec bs" and "bv_data vec = Ptr d" and "stands_at (m_u8 (lib s)) old (d + unat (bv_len vec))"
    and "length old = unat (bytevec_available vec)" and "h_connection (lib s) a = Some c" and "m_usize (lib s) n_addr \<noteq> None"
    and "reader_read ((conn_inner c, old), (lib s)\<lparr>h_connection := (h_connection (lib s))(a := None)\<rparr>) =
      Returned r ((i, new), (lib s)\<lparr>h_connection := (h_connection (lib s))(a := None)\<rparr>)" and "length new = length old"
  obtains s' where "read_call reader_read a n_addr vec s = Returned (case r of Inr n \<Rightarrow> Ok | Inl e \<Rightarrow> read_error e) s'"
    and "h_connection (lib s') a = Some (c\<lparr>conn_inner := i\<rparr>)"
    and "m_usize (lib s') n_addr = (case r of Inr n \<Rightarrow> Some n | Inl e \<Rightarrow> m_usize (lib s) n_addr)"
    and "\<And>n. n \<le> length new \<Longrightarrow> holds s' (bytevec_consume vec (of_nat n)) (bs @ take n new)"
proof -
  from read_runs [where reader_read = reader_read, OF assms(5,3,4,6,7,8)] obtain h where h: "stands_at h new (d + unat (bv_len vec))"
    "\<And>x. x \<notin> {d + unat (bv_len vec)..<d + unat (bv_len vec) + unat (bytevec_available vec)} \<Longrightarrow> h x = m_u8 (lib s) x"
    "rustls_connection_read reader_read (Ptr a) (Ptr (d + unat (bv_len vec))) (bytevec_available vec) (Ptr n_addr) (lib s) =
      Returned (case r of Inr n \<Rightarrow> Ok | Inl e \<Rightarrow> read_error e)
        ((lib s)\<lparr>h_connection := (h_connection (lib s))(a \<mapsto> c\<lparr>conn_inner := i\<rparr>), m_u8 := h,
          m_usize := (case r of Inr n \<Rightarrow> (m_usize (lib s))(n_addr \<mapsto> n) | Inl e \<Rightarrow> m_usize (lib s))\<rparr>)"
    by blast
  let ?s' = "s\<lparr>lib := (lib s)\<lparr>h_connection := (h_connection (lib s))(a \<mapsto> c\<lparr>conn_inner := i\<rparr>), m_u8 := h,
      m_usize := (case r of Inr n \<Rightarrow> (m_usize (lib s))(n_addr \<mapsto> n) | Inl e \<Rightarrow> m_usize (lib s))\<rparr>\<rparr>"
  have "read_call reader_read a n_addr vec s = Returned (case r of Inr n \<Rightarrow> Ok | Inl e \<Rightarrow> read_error e) ?s'"
    using h(3) assms(2) by (simp add: read_call_def in_lib_def bytevec_writeable_def)
  moreover have "holds ?s' (bytevec_consume vec (of_nat n)) (bs @ take n new)" if "n \<le> length new" for n
    using h(1,2) assms(4,8) that by (intro holds_write [OF assms(1,2)]) auto
  ultimately show ?thesis by (intro that [of ?s']) (auto split: sum.splits)
qed

lemma read_drained:
  assumes "plaintext_reader pending ending reader_read" and "holds s vec bs" and "1024 \<le> bytevec_available vec"
    and "h_connection (lib s) a = Some c" and "m_usize (lib s) n_addr \<noteq> None" and "pending (conn_inner c) = []"
  obtains s' where "read_call reader_read a n_addr vec s =
      Returned (case end_of_stream (ending (conn_inner c)) of Inr n \<Rightarrow> Ok | Inl e \<Rightarrow> read_error e) s'"
    and "holds s' vec bs" and "h_connection (lib s') a = Some c"
    and "ending (conn_inner c) = CloseNotify \<Longrightarrow> m_usize (lib s') n_addr = Some 0"
proof -
  from assms(2,3) obtain d old where old: "bv_data vec = Ptr d" "stands_at (m_u8 (lib s)) old (d + unat (bv_len vec))"
    "length old = unat (bytevec_available vec)" by (rule vector_room)
  have "reader_read ((conn_inner c, old), (lib s)\<lparr>h_connection := (h_connection (lib s))(a := None)\<rparr>) =
      Returned (end_of_stream (ending (conn_inner c))) ((conn_inner c, old), (lib s)\<lparr>h_connection := (h_connection (lib s))(a := None)\<rparr>)"
    using assms(1,6) by (simp add: plaintext_reader_def)
  from read_call_runs [where reader_read = reader_read, OF assms(2) old assms(4,5) this refl] obtain s' where
    "read_call reader_read a n_addr vec s = Returned (case end_of_stream (ending (conn_inner c)) of Inr n \<Rightarrow> Ok | Inl e \<Rightarrow> read_error e) s'"
    "h_connection (lib s') a = Some (c\<lparr>conn_inner := conn_inner c\<rparr>)"
    "m_usize (lib s') n_addr = (case end_of_stream (ending (conn_inner c)) of Inr n \<Rightarrow> Some n | Inl e \<Rightarrow> m_usize (lib s) n_addr)"
    "holds s' (bytevec_consume vec (of_nat 0)) (bs @ take 0 old)" by blast
  then show ?thesis by (intro that [of s']) (simp_all add: bytevec_consume_def)
qed

lemma read_more:
  assumes "plaintext_reader pending ending reader_read" and "holds s vec bs" and "1024 \<le> bytevec_available vec"
    and "h_connection (lib s) a = Some c" and "m_usize (lib s) n_addr \<noteq> None" and "pending (conn_inner c) \<noteq> []"
  obtains n c' s' where "0 < n" and "n \<le> length (pending (conn_inner c))" and "unat (of_nat n :: usize) = n"
    and "read_call reader_read a n_addr vec s = Returned Ok s'" and "m_usize (lib s') n_addr = Some (of_nat n)"
    and "h_connection (lib s') a = Some c'"
    and "pending (conn_inner c') = drop n (pending (conn_inner c))" and "ending (conn_inner c') = ending (conn_inner c)"
    and "holds s' (bytevec_consume vec (of_nat n)) (bs @ take n (pending (conn_inner c)))"
proof -
  let ?i = "conn_inner c" and ?lent = "(lib s)\<lparr>h_connection := (h_connection (lib s))(a := None)\<rparr>"
  from assms(2,3) obtain d old where old: "bv_data vec = Ptr d" "stands_at (m_u8 (lib s)) old (d + unat (bv_len vec))"
    "length old = unat (bytevec_available vec)" "old \<noteq> []" by (rule vector_room)
  with assms(1,6) obtain n i' where n: "0 < n" "n \<le> length old" "n \<le> length (pending ?i)"
    "reader_read ((?i, old), ?lent) = Returned (Inr (of_nat n)) ((i', take n (pending ?i) @ drop n old), ?lent)"
    "pending i' = drop n (pending ?i)" "ending i' = ending ?i"
    unfolding plaintext_reader_def by blast
  have len: "length (take n (pending ?i) @ drop n old) = length old" using n by simp
  from read_call_runs [where reader_read = reader_read, OF assms(2) old(1-3) assms(4,5) n(4) len] obtain s' where
    run: "read_call reader_read a n_addr vec s = Returned Ok s'" "h_connection (lib s') a = Some (c\<lparr>conn_inner := i'\<rparr>)"
      "m_usize (lib s') n_addr = Some (of_nat n)"
      and held: "\<And>m. m \<le> length (take n (pending ?i) @ drop n old) \<Longrightarrow>
        holds s' (bytevec_consume vec (of_nat m)) (bs @ take m (take n (pending ?i) @ drop n old))"
    by auto
  from held [of n] have "holds s' (bytevec_consume vec (of_nat n)) (bs @ take n (pending ?i))" using n(2,3) by simp
  moreover have "unat (of_nat n :: usize) = n"
    using n(2) old(3) usize_bound [of "bytevec_available vec"] by (intro unat_usize) simp
  ultimately show ?thesis using run n by (intro that [of n s' "c\<lparr>conn_inner := i'\<rparr>"]) simp_all
qed

end
