(* ===== verification/Ffi_Demo_Copy.thy ===== *)
theory Ffi_Demo_Copy
  imports Ffi_Demo_Buffer
begin

text \<open>
  \<open>copy_plaintext_to_buffer\<close> ends: the loop moves all plaintext that the connection has into the vector and reports how the
  stream ends.
\<close>

section \<open>The whole loop\<close>

text \<open>The first \<open>k\<close> bytes of the plaintext of the connection have moved to the buffer; the others are still to be read.\<close>

definition copied ::
  "(rustls_Connection \<Rightarrow> bytes) \<Rightarrow> (rustls_Connection \<Rightarrow> stream_end) \<Rightarrow> nat \<Rightarrow> Connection \<Rightarrow> bytes \<Rightarrow> nat \<Rightarrow> conndata \<Rightarrow> c_program \<Rightarrow> bool"
  where
  "copied pending ending a c bs k conn s =
     (k \<le> length (pending (conn_inner c)) \<and> holds s (cd_data conn) (bs @ take k (pending (conn_inner c)))
      \<and> (\<exists>c'. h_connection (lib s) a = Some c' \<and> pending (conn_inner c') = drop k (pending (conn_inner c))
           \<and> ending (conn_inner c') = ending (conn_inner c)))"

lemma copied_step:
  assumes "copied pending ending a c' (bs @ take n (pending (conn_inner c))) k conn s"
    and "pending (conn_inner c') = drop n (pending (conn_inner c))" and "ending (conn_inner c') = ending (conn_inner c)"
    and "n \<le> length (pending (conn_inner c))"
  shows "copied pending ending a c bs (n + k) conn s"
  using assms by (auto simp: copied_def take_add add.commute [of k n])

text \<open>The copy returns, having moved everything and with the verdict on the end of the stream, or because memory ran out.\<close>

definition copy_outcome ::
  "(rustls_Connection \<Rightarrow> bytes) \<Rightarrow> (rustls_Connection \<Rightarrow> stream_end) \<Rightarrow> (usize \<Rightarrow> c_program \<Rightarrow> bool) \<Rightarrow> nat \<Rightarrow> Connection \<Rightarrow> bytes \<Rightarrow>
   conndata \<Rightarrow> (crustls_demo_result \<times> conndata, c_program) outcome option \<Rightarrow> bool" where
  "copy_outcome pending ending oom a c bs conn result =
     (\<exists>r vec s k. result = Some (Returned (r, conn\<lparr>cd_data := vec\<rparr>) s) \<and> copied pending ending a c bs k (conn\<lparr>cd_data := vec\<rparr>) s
        \<and> (r = copy_verdict (ending (conn_inner c)) \<and> k = length (pending (conn_inner c)) \<and> 1024 \<le> bytevec_available vec
           \<or> r = CRUSTLS_DEMO_ERROR \<and> (\<exists>m t. oom m t)))"

lemma same_but_bytes_fields:
  "same_but_bytes s s' \<Longrightarrow> h_connection (lib s') = h_connection (lib s) \<and> m_usize (lib s') = m_usize (lib s)"
  by (auto simp: same_but_bytes_def)

lemma loop_drained:
  assumes "plaintext_reader pending ending reader_read" and "holds s (cd_data conn) bs" and "1024 \<le> bytevec_available (cd_data conn)"
    and "cd_rconn conn = Ptr a" and "h_connection (lib s) a = Some c" and "m_usize (lib s) n_addr \<noteq> None"
    and "pending (conn_inner c) = []"
  shows "copy_outcome pending ending oom a c bs conn (copy_plaintext_loop reader_read oom n_addr conn s)"
proof -
  from read_drained [OF assms(1,2,3,5,6,7)] obtain s' where s':
    "read_call reader_read a n_addr (cd_data conn) s =
      Returned (case end_of_stream (ending (conn_inner c)) of Inr n \<Rightarrow> Ok | Inl e \<Rightarrow> read_error e) s'"
    "holds s' (cd_data conn) bs" "h_connection (lib s') a = Some c"
    "ending (conn_inner c) = CloseNotify \<Longrightarrow> m_usize (lib s') n_addr = Some 0" by blast
  then have "copy_plaintext_loop reader_read oom n_addr conn s = Some (Returned (copy_verdict (ending (conn_inner c)), conn) s')"
    by (subst copy_plaintext_loop.simps)
      (cases "ending (conn_inner c)"; simp add: read_call_def [symmetric] assms(4) read_error_def Let_def)
  moreover have "copied pending ending a c bs 0 (conn\<lparr>cd_data := cd_data conn\<rparr>) s'" using s'(2,3) assms(7) by (simp add: copied_def)
  ultimately show ?thesis
    unfolding copy_outcome_def using assms(3,7)
    by (intro exI [of _ "copy_verdict (ending (conn_inner c))"] exI [of _ "cd_data conn"] exI [of _ s'] exI [of _ 0]) simp
qed

text \<open>One round of the loop that reads something.\<close>

lemma loop_more:
  assumes "plaintext_reader pending ending reader_read" and "holds s (cd_data conn) bs" and "1024 \<le> bytevec_available (cd_data conn)"
    and "cd_rconn conn = Ptr a" and "h_connection (lib s) a = Some c" and "m_usize (lib s) n_addr \<noteq> None"
    and "length bs + length (pending (conn_inner c)) < 2 ^ 61" and "pending (conn_inner c) \<noteq> []"
  obtains n c' r vec s' where "0 < n" and "n \<le> length (pending (conn_inner c))"
    and "pending (conn_inner c') = drop n (pending (conn_inner c))" and "ending (conn_inner c') = ending (conn_inner c)"
    and "copy_plaintext_loop reader_read oom n_addr conn s =
        (if r \<noteq> CRUSTLS_DEMO_OK then Some (Returned (CRUSTLS_DEMO_ERROR, conn\<lparr>cd_data := vec\<rparr>) s')
         else copy_plaintext_loop reader_read oom n_addr (conn\<lparr>cd_data := vec\<rparr>) s')"
    and "holds s' vec (bs @ take n (pending (conn_inner c)))" and "h_connection (lib s') a = Some c'" and "m_usize (lib s') n_addr \<noteq> None"
    and "r = CRUSTLS_DEMO_OK \<and> 1024 \<le> bytevec_available vec \<or> r = CRUSTLS_DEMO_ERROR \<and> (\<exists>m t. oom m t)"
proof -
  from read_more [OF assms(1,2,3,5,6,8)] obtain n c' s1 where s1: "0 < n" "n \<le> length (pending (conn_inner c))"
    "unat (of_nat n :: usize) = n" "read_call reader_read a n_addr (cd_data conn) s = Returned Ok s1"
    "m_usize (lib s1) n_addr = Some (of_nat n)" "h_connection (lib s1) a = Some c'"
    "pending (conn_inner c') = drop n (pending (conn_inner c))" "ending (conn_inner c') = ending (conn_inner c)"
    "holds s1 (bytevec_consume (cd_data conn) (of_nat n)) (bs @ take n (pending (conn_inner c)))" .
  have nonzero: "of_nat n \<noteq> (0 :: usize)" using s1(1,3) by auto
  have size: "length (bs @ take n (pending (conn_inner c))) + unat (1024 :: usize) < 2 ^ 62" using assms(7) s1(2) by simp
  from ensure_available [OF s1(9) size, of oom] obtain r vec s2 where s2:
    "bytevec_ensure_available oom (bytevec_consume (cd_data conn) (of_nat n)) 1024 s1 = Returned (r, vec) s2"
    "holds s2 vec (bs @ take n (pending (conn_inner c)))" "same_but_bytes s1 s2"
    "r = CRUSTLS_DEMO_OK \<and> 1024 \<le> bytevec_available vec \<or> r = CRUSTLS_DEMO_ERROR \<and> (\<exists>m. oom m s1)" .
  have loop: "copy_plaintext_loop reader_read oom n_addr conn s =
      (if r \<noteq> CRUSTLS_DEMO_OK then Some (Returned (CRUSTLS_DEMO_ERROR, conn\<lparr>cd_data := vec\<rparr>) s2)
       else copy_plaintext_loop reader_read oom n_addr (conn\<lparr>cd_data := vec\<rparr>) s2)"
    by (subst copy_plaintext_loop.simps)
      (simp add: Let_def assms(4) read_call_def [symmetric] s1(4,5) s2(1) nonzero)
  have here: "h_connection (lib s2) a = Some c'" "m_usize (lib s2) n_addr \<noteq> None"
    using same_but_bytes_fields [OF s2(3)] s1(5,6) by simp_all
  have "r = CRUSTLS_DEMO_OK \<and> 1024 \<le> bytevec_available vec \<or> r = CRUSTLS_DEMO_ERROR \<and> (\<exists>m t. oom m t)" using s2(4) by blast
  from that [OF s1(1,2,7,8) loop s2(2) here this] show ?thesis .
qed

lemma copy_outcome_step:
  assumes "copy_outcome pending ending oom a c' (bs @ take n (pending (conn_inner c))) (conn\<lparr>cd_data := vec\<rparr>) result"
    and "pending (conn_inner c') = drop n (pending (conn_inner c))" and "ending (conn_inner c') = ending (conn_inner c)"
    and "n \<le> length (pending (conn_inner c))"
  shows "copy_outcome pending ending oom a c bs conn result"
proof -
  from assms(1) obtain r vec' s k where raw: "result = Some (Returned (r, conn\<lparr>cd_data := vec, cd_data := vec'\<rparr>) s)"
    "copied pending ending a c' (bs @ take n (pending (conn_inner c))) k (conn\<lparr>cd_data := vec, cd_data := vec'\<rparr>) s"
    "r = copy_verdict (ending (conn_inner c')) \<and> k = length (pending (conn_inner c')) \<and> 1024 \<le> bytevec_available vec'
       \<or> r = CRUSTLS_DEMO_ERROR \<and> (\<exists>m t. oom m t)"
    unfolding copy_outcome_def by blast
  note run = raw(1) [simplified] raw(2) [simplified] raw(3)
  from copied_step [OF run(2) assms(2-4)] run(1,3) assms(2-4) show ?thesis
    unfolding copy_outcome_def by (intro exI [of _ r] exI [of _ vec'] exI [of _ s] exI [of _ "n + k"]) auto
qed

lemma copy_loop_returns:
  assumes "plaintext_reader pending ending reader_read" and "holds s (cd_data conn) bs" and "1024 \<le> bytevec_available (cd_data conn)"
    and "cd_rconn conn = Ptr a" and "h_connection (lib s) a = Some c" and "m_usize (lib s) n_addr \<noteq> None"
    and "length bs + length (pending (conn_inner c)) < 2 ^ 61"
  shows "copy_outcome pending ending oom a c bs conn (copy_plaintext_loop reader_read oom n_addr conn s)"
  using assms(2-7)
proof (induction "length (pending (conn_inner c))" arbitrary: conn s c bs rule: less_induct)
  case less
  show ?case
  proof (cases "pending (conn_inner c) = []")
    case True
    with loop_drained [OF assms(1) less.prems(1-5)] show ?thesis by blast
  next
    case False
    from loop_more [OF assms(1) less.prems False] obtain n c' r vec s' where run: "0 < n" "n \<le> length (pending (conn_inner c))"
      "pending (conn_inner c') = drop n (pending (conn_inner c))" "ending (conn_inner c') = ending (conn_inner c)"
      "copy_plaintext_loop reader_read oom n_addr conn s =
        (if r \<noteq> CRUSTLS_DEMO_OK then Some (Returned (CRUSTLS_DEMO_ERROR, conn\<lparr>cd_data := vec\<rparr>) s')
         else copy_plaintext_loop reader_read oom n_addr (conn\<lparr>cd_data := vec\<rparr>) s')"
      "holds s' vec (bs @ take n (pending (conn_inner c)))" "h_connection (lib s') a = Some c'" "m_usize (lib s') n_addr \<noteq> None"
      "r = CRUSTLS_DEMO_OK \<and> 1024 \<le> bytevec_available vec \<or> r = CRUSTLS_DEMO_ERROR \<and> (\<exists>m t. oom m t)" .
    show ?thesis
    proof (cases "r = CRUSTLS_DEMO_OK")
      case False
      moreover have "copied pending ending a c bs n (conn\<lparr>cd_data := vec\<rparr>) s'"
        using run(2,3,4,6,7) by (auto simp: copied_def)
      ultimately show ?thesis using run(5,9) unfolding copy_outcome_def by auto
    next
      case True
      have "copy_outcome pending ending oom a c' (bs @ take n (pending (conn_inner c))) (conn\<lparr>cd_data := vec\<rparr>)
          (copy_plaintext_loop reader_read oom n_addr (conn\<lparr>cd_data := vec\<rparr>) s')"
        using run True less.prems(3,6) by (intro less.hyps) auto
      from copy_outcome_step [OF this run(3,4,2)] show ?thesis using run(5) True by simp
    qed
  qed
qed

text \<open>With some room behind its bytes, the search for the end of the headers stays inside the block of a vector.\<close>

lemma spare_search:
  assumes "holds s vec bs" and "1024 \<le> bytevec_available vec"
  shows "body_beginning (m_u8 (lib s)) vec \<noteq> None"
proof -
  from assms obtain d where d: "bv_data vec = Ptr d" by (rule vector_room)
  have "unat (bv_len vec) + unat (bytevec_available vec) = unat (bv_capacity vec)"
    using assms(1) by (simp add: holds_def bytevec_available_def unat_sub word_le_nat_alt)
  moreover have "1024 \<le> unat (bytevec_available vec)" using assms(2) by (simp add: word_le_nat_alt)
  ultimately have "unat (bv_len vec) + 3 \<le> unat (bv_capacity vec)" by linarith
  then have "mapped_range (m_u8 (lib s)) d (unat (bv_len vec) + 3)"
    using assms(1) d mapped_range_shift [of "m_u8 (lib s)" d "unat (bv_capacity vec)" 0] by (simp add: holds_def)
  then have "candidates_readable (m_u8 (lib s)) d (unat (bv_len vec)) [CR, LF, CR, LF]"
    by (rule mapped_range_candidates) simp
  from memmem_exact [OF _ this] show ?thesis
    by (auto simp: body_beginning_def d search_answer_def numeral_eq_Suc split: option.splits ptr.splits)
qed

text \<open>A connection with a number of bytes to read, for the example.\<close>

primrec demo_pending :: "rustls_Connection \<Rightarrow> bytes" where
  "demo_pending (Client c) = (case c of ClientConnection n \<Rightarrow> replicate n 65)"
| "demo_pending (Server c) = []"

primrec demo_ending :: "rustls_Connection \<Rightarrow> stream_end" where
  "demo_ending (Client c) = StillOpen"
| "demo_ending (Server c) = CloseNotify"

fun demo_plaintext :: plaintext_read where
  "demo_plaintext ((Client (ClientConnection n), bs), w) =
     (if n = 0 then Returned (Inl (from_kind WouldBlockKind)) ((Client (ClientConnection n), bs), w)
      else Returned (Inr (of_nat (min n (length bs))))
             ((Client (ClientConnection (n - min n (length bs))), replicate (min n (length bs)) 65 @ drop (min n (length bs)) bs), w))"
| "demo_plaintext ((Server c, bs), w) = Returned (Inr 0) ((Server c, bs), w)"

lemma demo_plaintext_reader: "plaintext_reader demo_pending demo_ending demo_plaintext"
  unfolding plaintext_reader_def
proof (intro allI)
  fix i bs and w :: world
  show "(demo_pending i = [] \<longrightarrow> demo_plaintext ((i, bs), w) = Returned (end_of_stream (demo_ending i)) ((i, bs), w))
      \<and> (demo_pending i \<noteq> [] \<and> bs \<noteq> [] \<longrightarrow>
          (\<exists>n i'. 0 < n \<and> n \<le> length bs \<and> n \<le> length (demo_pending i)
             \<and> demo_plaintext ((i, bs), w) = Returned (Inr (of_nat n)) ((i', take n (demo_pending i) @ drop n bs), w)
             \<and> demo_pending i' = drop n (demo_pending i) \<and> demo_ending i' = demo_ending i))"
  proof (cases "((i, bs), w)" rule: demo_plaintext.cases)
    case (1 n bs w)
    then show ?thesis
      by (auto intro!: exI [of _ "min n (length bs)"] exI [of _ "Client (ClientConnection (n - min n (length bs)))"])
  qed simp
qed

definition demo_conndata :: conndata where
  "demo_conndata = \<lparr>cd_fd = 4, cd_verify_arg = None, cd_program_name = as_bytes ''client'',
     cd_data = \<lparr>bv_data = Null, bv_len = 0, bv_capacity = 0\<rparr>, cd_rconn = Ptr 3\<rparr>"

definition demo_program :: c_program where
  "demo_program = \<lparr>lib = empty_world\<lparr>h_connection := [3 \<mapsto> from_client (ClientConnection 2)], m_usize := [7 \<mapsto> 0]\<rparr>,
     blocks = Map.empty, heap_top = 100\<rparr>"

lemma copy_plaintext_outcome:
  assumes "plaintext_reader pending ending reader_read" and "holds s (cd_data conn) bs"
    and "cd_rconn conn = Ptr a" and "h_connection (lib s) a = Some c" and "m_usize (lib s) n_addr \<noteq> None"
    and "length bs + length (pending (conn_inner c)) < 2 ^ 61"
  shows "copy_outcome pending ending oom a c bs conn (copy_plaintext_to_buffer reader_read oom n_addr conn s)"
proof -
  have "length bs + unat (1024 :: usize) < 2 ^ 62" using assms(6) by simp
  from ensure_available [OF assms(2) this, of oom] obtain r vec s1 where s1:
    "bytevec_ensure_available oom (cd_data conn) 1024 s = Returned (r, vec) s1" "holds s1 vec bs" "same_but_bytes s s1"
    "r = CRUSTLS_DEMO_OK \<and> 1024 \<le> bytevec_available vec \<or> r = CRUSTLS_DEMO_ERROR \<and> (\<exists>m. oom m s)" .
  have here: "h_connection (lib s1) a = Some c" "m_usize (lib s1) n_addr \<noteq> None"
    using same_but_bytes_fields [OF s1(3)] assms(4,5) by simp_all
  show ?thesis
  proof (cases "r = CRUSTLS_DEMO_OK")
    case True
    then have "1024 \<le> bytevec_available vec" using s1(4) by simp
    then have "copy_outcome pending ending oom a c bs (conn\<lparr>cd_data := vec\<rparr>)
        (copy_plaintext_loop reader_read oom n_addr (conn\<lparr>cd_data := vec\<rparr>) s1)"
      using s1(2) here assms(1,3,6) by (intro copy_loop_returns) auto
    from copy_outcome_step [of pending ending oom a c bs 0 c, simplified, OF this] True s1(1) show ?thesis
      by (simp add: copy_plaintext_to_buffer_def)
  next
    case False
    moreover have "copied pending ending a c bs 0 (conn\<lparr>cd_data := vec\<rparr>) s1" using s1(2) here by (simp add: copied_def)
    ultimately show ?thesis
      using s1(1,4) unfolding copy_outcome_def copy_plaintext_to_buffer_def by auto
  qed
qed

text \<open>
  C16. \<open>copy_plaintext_to_buffer\<close> always returns, for every rustls reader that keeps its documentation: with all plaintext of the
  connection appended to the buffer in order, nothing lost and no memory touched that is not mapped, and
  \<open>OK\<close>, \<open>EOF\<close> or \<open>ERROR\<close> by the way the stream ends; only when an allocation fails it stops earlier, with \<open>ERROR\<close> and the
  bytes it has read so far. In the other cases the search for the end of the headers that follows it in both programs is
  memory safe, although it reads beyond the bytes of the buffer.
\<close>

theorem copy_plaintext_returns:
  assumes "plaintext_reader pending ending reader_read" and "holds s (cd_data conn) bs"
    and "cd_rconn conn = Ptr a" and "h_connection (lib s) a = Some c" and "m_usize (lib s) n_addr \<noteq> None"
    and "length bs + length (pending (conn_inner c)) < 2 ^ 61"
  shows "\<exists>r vec s' k. copy_plaintext_to_buffer reader_read oom n_addr conn s = Some (Returned (r, conn\<lparr>cd_data := vec\<rparr>) s')
    \<and> copied pending ending a c bs k (conn\<lparr>cd_data := vec\<rparr>) s'
    \<and> (r = copy_verdict (ending (conn_inner c)) \<and> k = length (pending (conn_inner c)) \<and> body_beginning (m_u8 (lib s')) vec \<noteq> None
       \<or> r = CRUSTLS_DEMO_ERROR \<and> (\<exists>m t. oom m t))"
proof -
  from copy_plaintext_outcome [OF assms, of oom] obtain r vec s' k where
    "copy_plaintext_to_buffer reader_read oom n_addr conn s = Some (Returned (r, conn\<lparr>cd_data := vec\<rparr>) s')"
    "copied pending ending a c bs k (conn\<lparr>cd_data := vec\<rparr>) s'"
    "r = copy_verdict (ending (conn_inner c)) \<and> k = length (pending (conn_inner c)) \<and> 1024 \<le> bytevec_available vec
       \<or> r = CRUSTLS_DEMO_ERROR \<and> (\<exists>m t. oom m t)" unfolding copy_outcome_def by blast
  moreover from this(2) have "1024 \<le> bytevec_available vec \<Longrightarrow> body_beginning (m_u8 (lib s')) vec \<noteq> None"
    using spare_search by (auto simp: copied_def)
  ultimately show ?thesis by (intro exI [of _ r] exI [of _ vec] exI [of _ s'] exI [of _ k]) metis
qed

theorem copy_plaintext_returns_witness:
  "\<exists>vec s'. copy_plaintext_to_buffer demo_plaintext (\<lambda>_ _. False) 7 demo_conndata demo_program =
      Some (Returned (CRUSTLS_DEMO_OK, demo_conndata\<lparr>cd_data := vec\<rparr>) s') \<and> holds s' vec [65, 65]"
proof -
  have "holds demo_program (cd_data demo_conndata) []" "cd_rconn demo_conndata = Ptr 3"
    "h_connection (lib demo_program) 3 = Some (from_client (ClientConnection 2))" "m_usize (lib demo_program) 7 \<noteq> None"
    by (simp_all add: holds_def heap_ok_def demo_program_def demo_conndata_def empty_world_def)
  moreover have "replicate 2 65 = [65, 65 :: u8]" by (simp add: numeral_2_eq_2)
  ultimately show ?thesis
    using copy_plaintext_returns [OF demo_plaintext_reader, of demo_program demo_conndata "[]" 3 _ 7 "\<lambda>_ _. False"]
    by (fastforce simp: from_client_def copied_def)
qed

end
