(* ===== verification/Ffi_Demo_Programs.thy ===== *)
theory Ffi_Demo_Programs
  imports Ffi_Demo_Copy Ffi_Protocol
begin

text \<open>
  The client and the server of the test suite (\<open>tests/common.c\<close>, \<open>tests/client.c\<close>, \<open>tests/server.c\<close>): their callbacks, one
  round of reading, the response of the server and how the client finds its end, and the loading of a key.

  System calls are arguments; the error number they leave is part of their result. Addresses of local variables are arguments.
  Messages on \<open>stderr\<close> are left out, except in \<open>print_error\<close>, whose result is the text. New memory has zeros in
  the model; the programs write it before they read it.
\<close>

section \<open>Callbacks\<close>

type_synonym ssize = "64 word"

text \<open>The file descriptor of the \<open>struct conndata\<close> that the userdata points to; \<open>None\<close> when it points to nothing.\<close>

type_synonym fd_table = "void_ptr \<Rightarrow> c_int option"

definition read_cb ::
  "(c_int \<Rightarrow> bytes \<Rightarrow> (world, bytes \<times> ssize \<times> c_int) comp) \<Rightarrow> fd_table \<Rightarrow> void_ptr \<Rightarrow> bytes \<Rightarrow> usize \<Rightarrow> (world, bytes \<times> usize \<times> c_int) comp"
  where
  "read_cb recv fd_of userdata buf out_n w =
     (case fd_of userdata of
        None \<Rightarrow> Undefined
      | Some fd \<Rightarrow> and_then (recv fd buf w) (\<lambda>(buf, n, errno) w.
          if n <s 0 then Returned (buf, out_n, errno) w else Returned (buf, n, 0) w))"

definition write_cb ::
  "(c_int \<Rightarrow> bytes \<Rightarrow> (world, ssize \<times> c_int) comp) \<Rightarrow> fd_table \<Rightarrow> void_ptr \<Rightarrow> bytes \<Rightarrow> usize \<Rightarrow> (world, usize \<times> c_int) comp" where
  "write_cb send fd_of userdata buf out_n w =
     (case fd_of userdata of
        None \<Rightarrow> Undefined
      | Some fd \<Rightarrow> and_then (send fd buf w) (\<lambda>(n, errno) w.
          if n <s 0 then Returned (out_n, errno) w else Returned (n, 0) w))"

definition write_vectored_cb ::
  "(c_int \<Rightarrow> bytes list \<Rightarrow> (world, ssize \<times> c_int) comp) \<Rightarrow> fd_table \<Rightarrow> void_ptr \<Rightarrow> bytes list \<Rightarrow> usize \<Rightarrow> (world, usize \<times> c_int) comp"
  where
  "write_vectored_cb writev fd_of userdata iov out_n w =
     (case fd_of userdata of
        None \<Rightarrow> Undefined
      | Some fd \<Rightarrow> and_then (writev fd iov w) (\<lambda>(n, errno) w.
          if n <s 0 then Returned (out_n, errno) w else Returned (n, 0) w))"

text \<open>\<open>write_tls\<close>, with the environment variable \<open>VECTORED_IO\<close> as an argument; the callbacks are at the given addresses.\<close>

definition demo_tls_write ::
  "foreign \<Rightarrow> bool \<Rightarrow> c_fn \<Rightarrow> c_fn \<Rightarrow> Connection ptr \<Rightarrow> void_ptr \<Rightarrow> usize ptr \<Rightarrow> (world, rustls_io_result) comp" where
  "demo_tls_write F VECTORED_IO write_vectored_addr write_addr rconn conn n =
     (if VECTORED_IO
      then rustls_connection_write_tls_vectored (r_write_tls (f_methods F)) (c_sendv (f_callbacks F)) rconn (Some write_vectored_addr) conn n
      else rustls_connection_write_tls (r_write_tls (f_methods F)) (c_send (f_callbacks F)) rconn (Some write_addr) conn n)"

section \<open>\<open>write_all\<close> and \<open>print_error\<close>\<close>

text \<open>\<open>write\<close> is given the \<open>n\<close> bytes at \<open>buf\<close>, which the loop does not advance.\<close>

partial_function (option) write_all :: "('s \<Rightarrow> bytes \<Rightarrow> int \<times> 's) \<Rightarrow> bytes \<Rightarrow> int \<Rightarrow> 's \<Rightarrow> (int \<times> 's) option" where
  "write_all write buf n s =
     (if 0 < n then
        (case write s (take (nat n) buf) of
           (m, s) \<Rightarrow> if m < 0 then Some (1, s) else write_all write buf (n - m) s)
      else Some (0, s))"

text \<open>\<open>printf\<close> of \<open>%.*s\<close>: at most so many bytes, up to a NUL.\<close>

fun printf_string :: "(nat \<rightharpoonup> u8) \<Rightarrow> nat \<Rightarrow> nat \<Rightarrow> bytes option" where
  "printf_string h p 0 = Some []"
| "printf_string h p (Suc k) =
     (case h p of
        None \<Rightarrow> None
      | Some b \<Rightarrow> if b = 0 then Some [] else map_option (Cons b) (printf_string h (Suc p) k))"

definition print_error ::
  "(rustls_Error \<Rightarrow> string) \<Rightarrow> bool \<Rightarrow> nat \<Rightarrow> nat \<Rightarrow> bytes \<Rightarrow> bytes \<Rightarrow> u32 \<Rightarrow> (world, bytes) comp" where
  "print_error fmt_Error overflow_checks buf n program_name prefix result w =
     and_then (rustls_error fmt_Error overflow_checks result (Ptr buf) 256 (Ptr n) w) (\<lambda>_ w.
     case m_usize w n of
       None \<Rightarrow> Undefined
     | Some len \<Rightarrow>
         (case printf_string (m_u8 w) buf (unat len) of
            None \<Rightarrow> Undefined
          | Some text \<Rightarrow> Returned (program_name @ as_bytes '': '' @ prefix @ as_bytes '': '' @ text @ [LF]) w))"

section \<open>One round of reading\<close>

definition then_run :: "('a, 'w) outcome option \<Rightarrow> ('a \<Rightarrow> 'w \<Rightarrow> ('b, 'w) outcome option) \<Rightarrow> ('b, 'w) outcome option" where
  "then_run m k =
     (case m of
        None \<Rightarrow> None
      | Some Undefined \<Rightarrow> Some Undefined
      | Some (Unwound w) \<Rightarrow> Some (Unwound w)
      | Some (Returned a w) \<Rightarrow> k a w)"

lemma then_run_simps [simp]:
  "then_run None k = None" "then_run (Some Undefined) k = Some Undefined" "then_run (Some (Unwound w)) k = Some (Unwound w)"
  "then_run (Some (Returned a w)) k = k a w"
  by (simp_all add: then_run_def)

text \<open>
  What the two programs share of \<open>do_read\<close>: processing the packets, copying the plaintext, and, after \<open>close_notify\<close>, the
  check that the peer closes the TCP connection as well (\<open>read_byte\<close> is \<open>read\<close> of one byte; \<open>EWOULDBLOCK\<close> is \<open>EAGAIN\<close>).
\<close>

definition finish_read ::
  "foreign \<Rightarrow> (usize \<Rightarrow> c_program \<Rightarrow> bool) \<Rightarrow> (c_int \<Rightarrow> (c_program, ssize \<times> c_int) comp) \<Rightarrow> nat \<Rightarrow> conndata \<Rightarrow> c_program \<Rightarrow>
   (crustls_demo_result \<times> conndata, c_program) outcome option" where
  "finish_read F oom read_byte n_addr conn s =
     then_run (Some (in_lib (rustls_connection_process_new_packets (r_process (f_methods F)) (cd_rconn conn)) s)) (\<lambda>result s.
     if result \<noteq> Ok then Some (Returned (CRUSTLS_DEMO_ERROR, conn) s)
     else then_run (copy_plaintext_to_buffer (r_read (f_methods F)) oom n_addr conn s) (\<lambda>(result, conn) s.
     if result \<noteq> CRUSTLS_DEMO_EOF then Some (Returned (result, conn) s)
     else then_run (Some (read_byte (cd_fd conn) s)) (\<lambda>(signed_n, errno) s.
     if 0 <s signed_n then Some (Returned (CRUSTLS_DEMO_ERROR, conn) s)
     else if signed_n <s 0 \<and> errno \<noteq> EAGAIN then Some (Returned (CRUSTLS_DEMO_ERROR, conn) s)
     else Some (Returned (CRUSTLS_DEMO_EOF, conn) s))))"

definition client_do_read ::
  "foreign \<Rightarrow> (usize \<Rightarrow> c_program \<Rightarrow> bool) \<Rightarrow> (c_int \<Rightarrow> (c_program, ssize \<times> c_int) comp) \<Rightarrow> c_fn \<Rightarrow> void_ptr \<Rightarrow> nat \<Rightarrow> nat \<Rightarrow>
   conndata \<Rightarrow> c_program \<Rightarrow> (crustls_demo_result \<times> conndata, c_program) outcome option" where
  "client_do_read F oom read_byte read_cb_addr userdata n_addr copy_n_addr conn s =
     then_run (Some (in_lib (rustls_connection_read_tls (r_read_tls (f_methods F)) (c_recv (f_callbacks F)) (cd_rconn conn)
         (Some read_cb_addr) userdata (Ptr n_addr)) s)) (\<lambda>err s.
     if err = EAGAIN then Some (Returned (CRUSTLS_DEMO_AGAIN, conn) s)
     else if err \<noteq> 0 then Some (Returned (CRUSTLS_DEMO_ERROR, conn) s)
     else finish_read F oom read_byte copy_n_addr conn s)"

text \<open>The server also takes a read of no bytes as the end.\<close>

definition server_do_read ::
  "foreign \<Rightarrow> (usize \<Rightarrow> c_program \<Rightarrow> bool) \<Rightarrow> (c_int \<Rightarrow> (c_program, ssize \<times> c_int) comp) \<Rightarrow> c_fn \<Rightarrow> void_ptr \<Rightarrow> nat \<Rightarrow> nat \<Rightarrow>
   conndata \<Rightarrow> c_program \<Rightarrow> (crustls_demo_result \<times> conndata, c_program) outcome option" where
  "server_do_read F oom read_byte read_cb_addr userdata n_addr copy_n_addr conn s =
     then_run (Some (in_lib (rustls_connection_read_tls (r_read_tls (f_methods F)) (c_recv (f_callbacks F)) (cd_rconn conn)
         (Some read_cb_addr) userdata (Ptr n_addr)) s)) (\<lambda>err s.
     if err = EAGAIN then Some (Returned (CRUSTLS_DEMO_AGAIN, conn) s)
     else if err \<noteq> 0 then Some (Returned (CRUSTLS_DEMO_ERROR, conn) s)
     else case m_usize (lib s) n_addr of
       None \<Rightarrow> Some Undefined
     | Some n \<Rightarrow>
         if n = 0 then Some (Returned (CRUSTLS_DEMO_EOF, conn) s)
         else finish_read F oom read_byte copy_n_addr conn s)"

section \<open>The response of the server\<close>

definition response_prefix :: bytes where
  "response_prefix = as_bytes ''HTTP/1.1 200 OK'' @ CRLF @ as_bytes ''Content-Length:''"

text \<open>\<open>sprintf(response, "%s %d\r\n\r\n", prefix, body_size)\<close>\<close>

definition response_head :: bytes where
  "response_head = response_prefix @ as_bytes '' 10000'' @ CRLF @ CRLF"

definition send_response ::
  "foreign \<Rightarrow> (usize \<Rightarrow> c_program \<Rightarrow> bool) \<Rightarrow> nat \<Rightarrow> conndata \<Rightarrow> (c_program, crustls_demo_result) comp" where
  "send_response F oom n_addr conn s =
     (let body_size = 10000;
          response_size = length response_prefix + 15 + body_size
      in if oom (of_nat response_size) s then Returned CRUSTLS_DEMO_ERROR s
         else and_then (c_allocate (replicate response_size 0) s) (\<lambda>response s.
           case response of
             Null \<Rightarrow> Undefined
           | Ptr p \<Rightarrow>
               let n = length response_head
               in and_then (in_lib (copy_to u8_mem (Ptr p) (response_head @ [0])) s) (\<lambda>_ s.
                  and_then (in_lib (write_cell usize_mem (Ptr n_addr) (of_nat n)) s) (\<lambda>_ s.
                  and_then (in_lib (copy_to u8_mem (Ptr (p + n)) (replicate body_size 0x61)) s) (\<lambda>_ s.
                  and_then (in_lib (copy_to u8_mem (Ptr (p + n + body_size)) [LF]) s) (\<lambda>_ s.
                  and_then (in_lib (copy_to u8_mem (Ptr (p + n + body_size + 1)) [0]) s) (\<lambda>_ s.
                  case cstr_bytes (m_u8 (lib s)) p of
                    None \<Rightarrow> Undefined
                  | Some text \<Rightarrow>
                      and_then (in_lib (rustls_connection_write (r_write (f_methods F)) (cd_rconn conn) (SMem p) (of_nat (length text)) (Ptr n_addr)) s) (\<lambda>_ s.
                      and_then (c_free (Ptr p) s) (\<lambda>_ s.
                      case m_usize (lib s) n_addr of
                        None \<Rightarrow> Undefined
                      | Some n \<Rightarrow>
                          if n \<noteq> of_nat (length text) then Returned CRUSTLS_DEMO_ERROR s
                          else Returned CRUSTLS_DEMO_OK s)))))))))"

section \<open>Loading a key\<close>

text \<open>
  \<open>read_file\<close>: \<open>content\<close> is that of the file, \<open>None\<close> when it cannot be opened. The end of the file is only seen when the buffer is
  larger than the file.
\<close>

definition read_file :: "bytes option \<Rightarrow> nat \<Rightarrow> nat \<Rightarrow> (world, crustls_demo_result \<times> usize) comp" where
  "read_file content buf buflen w =
     (case content of
        None \<Rightarrow> Returned (CRUSTLS_DEMO_ERROR, 0) w
      | Some bs \<Rightarrow>
          and_then (copy_to u8_mem (Ptr buf) (take buflen bs) w) (\<lambda>_ w.
          Returned (if length bs < buflen then CRUSTLS_DEMO_OK else CRUSTLS_DEMO_ERROR, of_nat (length (take buflen bs))) w))"

definition load_cert_and_key ::
  "foreign \<Rightarrow> (bytes \<Rightarrow> bytes option) \<Rightarrow> nat \<Rightarrow> nat \<Rightarrow> nat \<Rightarrow> bytes \<Rightarrow> bytes \<Rightarrow> (world, CertifiedKey ptr) comp" where
  "load_cert_and_key F file certbuf keybuf certified_key certfile keyfile w =
     and_then (read_file (file certfile) certbuf 10000 w) (\<lambda>(result, certbuf_len) w.
     if result \<noteq> CRUSTLS_DEMO_OK then Returned Null w
     else and_then (read_file (file keyfile) keybuf 10000 w) (\<lambda>(result, keybuf_len) w.
     if result \<noteq> CRUSTLS_DEMO_OK then Returned Null w
     else and_then (rustls_certified_key_build (f_pkcs8 F) (f_rsa F) (f_any_type F) (f_certs F) (f_CertifiedKey_new F)
         (SMem certbuf) certbuf_len (SMem keybuf) keybuf_len (Ptr certified_key) w) (\<lambda>result w.
     if result \<noteq> Ok then Returned Null w
     else case m_key_ptr w certified_key of None \<Rightarrow> Undefined | Some p \<Rightarrow> Returned p w)))"

section \<open>Writing into a block\<close>

lemma write_range_place: "mapped_range h a (length xs) \<Longrightarrow> write_range h a xs = Some (place a xs h)"
proof -
  assume "mapped_range h a (length xs)"
  then have "\<exists>h'. write_range h a xs = Some h'" unfolding write_range_defined mapped_range_def .
  then obtain h' where h': "write_range h a xs = Some h'" by blast
  then have "h' = place a xs h" using write_range_apply [OF h'] by (auto simp: place_def fun_eq_iff)
  with h' show ?thesis by simp
qed

definition in_memory :: "((nat \<rightharpoonup> u8) \<Rightarrow> nat \<rightharpoonup> u8) \<Rightarrow> c_program \<Rightarrow> c_program" where
  "in_memory f s = s\<lparr>lib := (lib s)\<lparr>m_u8 := f (m_u8 (lib s))\<rparr>\<rparr>"

lemma in_memory_simps [simp]:
  "m_u8 (lib (in_memory f s)) = f (m_u8 (lib s))" "h_connection (lib (in_memory f s)) = h_connection (lib s)"
  "m_usize (lib (in_memory f s)) = m_usize (lib s)" "blocks (in_memory f s) = blocks s" "heap_top (in_memory f s) = heap_top s"
  by (simp_all add: in_memory_def)

lemma in_lib_copy:
  "mapped_range (m_u8 (lib s)) b (length xs) \<Longrightarrow>
     in_lib (copy_to u8_mem (Ptr b) xs) s = Returned () (in_memory (place b xs) s)"
  by (simp add: in_lib_def copy_to_def write_range_place in_memory_def)

lemma mapped_place: "mapped_range h a n \<Longrightarrow> mapped_range (place b xs h) a n"
  by (simp add: mapped_range_def place_def)

lemma stands_at_elsewhere:
  "stands_at h bs a \<Longrightarrow> a + length bs \<le> b \<or> b + length xs \<le> a \<Longrightarrow> stands_at (place b xs h) bs a"
  by (erule stands_at_cong) (auto simp: place_def)

section \<open>The response\<close>

definition http_response :: bytes where
  "http_response = response_head @ replicate 10000 0x61 @ [LF]"

lemma response_lengths:
  "length response_prefix = 32" "length response_head = 42" "length http_response = 10043"
  by (simp_all add: response_prefix_def response_head_def http_response_def)

lemma response_no_nul: "0 \<notin> set http_response"
proof -
  have "0 \<notin> set response_head" by (simp add: response_head_def response_prefix_def as_bytes_def CR_def LF_def)
  then show ?thesis by (simp add: http_response_def LF_def)
qed

text \<open>The memory of the block after the calls of \<open>sprintf\<close>, \<open>memset\<close> and the two assignments.\<close>

definition response_memory :: "nat \<Rightarrow> (nat \<rightharpoonup> u8) \<Rightarrow> nat \<rightharpoonup> u8" where
  "response_memory p h =
     place (p + 10043) [0] (place (p + 10042) [LF] (place (p + 42) (replicate 10000 0x61)
       (place p (response_head @ [0]) (place p (replicate 10047 0) h))))"

lemma response_stands: "stands_at (response_memory p h) http_response p"
proof -
  let ?h1 = "place p (response_head @ [0]) (place p (replicate 10047 0) h)"
  let ?h2 = "place (p + 42) (replicate 10000 0x61) ?h1"
  let ?h3 = "place (p + 10042) [LF] ?h2"
  have "stands_at ?h1 (response_head @ [0]) p" by (rule stands_at_place)
  then have "stands_at ?h1 response_head p" by simp
  then have "stands_at ?h2 response_head p" by (rule stands_at_elsewhere) (simp add: response_lengths)
  moreover have "stands_at ?h2 (replicate 10000 0x61) (p + 42)" by (rule stands_at_place)
  ultimately have "stands_at ?h2 (response_head @ replicate 10000 0x61) p" by (simp add: response_lengths)
  then have "stands_at ?h3 (response_head @ replicate 10000 0x61) p" by (rule stands_at_elsewhere) (simp add: response_lengths)
  moreover have "stands_at ?h3 [LF] (p + 10042)" by (rule stands_at_place)
  ultimately have "stands_at ?h3 ((response_head @ replicate 10000 0x61) @ [LF]) p"
    unfolding stands_at_append [of ?h3 "response_head @ replicate 10000 0x61"] by (simp add: response_lengths)
  then have "stands_at ?h3 http_response p" by (simp only: http_response_def append_assoc)
  then show ?thesis
    unfolding response_memory_def by (rule stands_at_elsewhere) (simp add: response_lengths)
qed

lemma response_in_memory: "cstr_bytes (response_memory p h) p = Some http_response"
proof -
  have "response_memory p h (p + length http_response) = Some 0"
    by (simp add: response_lengths response_memory_def place_def)
  then show ?thesis
    using response_no_nul by (intro cstr_bytes_terminated) (auto simp: stands_at_nth [OF response_stands])
qed

lemma response_freed:
  assumes "\<forall>x \<ge> p. h x = None"
  shows "unmap p 10047 (response_memory p h) = h"
  using assms by (auto simp: fun_eq_iff unmap_def response_memory_def place_def response_lengths)

section \<open>Sending it\<close>

text \<open>The state in which the response has been composed in its block.\<close>

definition composed :: "nat \<Rightarrow> c_program \<Rightarrow> c_program" where
  "composed n_addr s =
     s\<lparr>lib := (lib s)\<lparr>m_u8 := response_memory (heap_top s) (m_u8 (lib s)), m_usize := (m_usize (lib s))(n_addr \<mapsto> 42)\<rparr>,
       blocks := (blocks s)(heap_top s \<mapsto> 10047), heap_top := heap_top s + 10047\<rparr>"

lemma compose_response:
  assumes "m_usize (lib s) n_addr \<noteq> None"
  shows "and_then (c_allocate (replicate 10047 0) s) (\<lambda>response s.
      case response of
        Null \<Rightarrow> Undefined
      | Ptr p \<Rightarrow>
          and_then (in_lib (copy_to u8_mem (Ptr p) (response_head @ [0])) s) (\<lambda>_ s.
          and_then (in_lib (write_cell usize_mem (Ptr n_addr) 42) s) (\<lambda>_ s.
          and_then (in_lib (copy_to u8_mem (Ptr (p + 42)) (replicate 10000 0x61)) s) (\<lambda>_ s.
          and_then (in_lib (copy_to u8_mem (Ptr (p + 10042)) [LF]) s) (\<lambda>_ s.
          and_then (in_lib (copy_to u8_mem (Ptr (p + 10043)) [0]) s) (\<lambda>_ s. k p s))))))
    = k (heap_top s) (composed n_addr s)"
proof -
  let ?p = "heap_top s" and ?cell = "\<lambda>s. s\<lparr>lib := (lib s)\<lparr>m_usize := (m_usize (lib s))(n_addr \<mapsto> 42)\<rparr>\<rparr>"
  obtain s1 where s1: "s1 = s\<lparr>lib := (lib s)\<lparr>m_u8 := place ?p (replicate 10047 0) (m_u8 (lib s))\<rparr>,
      blocks := (blocks s)(?p \<mapsto> 10047), heap_top := ?p + 10047\<rparr>" by simp
  have run: "c_allocate (replicate 10047 0) s = Returned (Ptr ?p) s1" by (simp add: c_allocate_def s1)
  have block: "mapped_range (m_u8 (lib s1)) ?p 10047" by (simp add: s1 mapped_range_def place_def)
  define s2 where "s2 = in_memory (place ?p (response_head @ [0])) s1"
  define s4 where "s4 = in_memory (place (?p + 42) (replicate 10000 0x61)) (?cell s2)"
  define s5 where "s5 = in_memory (place (?p + 10042) [LF]) s4"
  define s6 where "s6 = in_memory (place (?p + 10043) [0]) s5"
  have c2: "in_lib (copy_to u8_mem (Ptr ?p) (response_head @ [0])) s1 = Returned () s2"
    unfolding s2_def using mapped_range_shift [OF block, of 0 43] by (intro in_lib_copy) (simp add: response_lengths)
  have c3: "in_lib (write_cell usize_mem (Ptr n_addr) 42) s2 = Returned () (?cell s2)"
    using assms by (auto simp: in_lib_def write_cell_def s2_def s1)
  have m2: "mapped_range (m_u8 (lib (?cell s2))) ?p 10047" using block by (simp add: s2_def mapped_place)
  have c4: "in_lib (copy_to u8_mem (Ptr (?p + 42)) (replicate 10000 0x61)) (?cell s2) = Returned () s4"
    unfolding s4_def using mapped_range_shift [OF m2, of 42 10000] by (intro in_lib_copy) simp
  have m4: "mapped_range (m_u8 (lib s4)) ?p 10047" using m2 by (simp add: s4_def mapped_place)
  have c5: "in_lib (copy_to u8_mem (Ptr (?p + 10042)) [LF]) s4 = Returned () s5"
    unfolding s5_def using mapped_range_shift [OF m4, of 10042 1] by (intro in_lib_copy) simp
  have m5: "mapped_range (m_u8 (lib s5)) ?p 10047" using m4 by (simp add: s5_def mapped_place)
  have c6: "in_lib (copy_to u8_mem (Ptr (?p + 10043)) [0]) s5 = Returned () s6"
    unfolding s6_def using mapped_range_shift [OF m5, of 10043 1] by (intro in_lib_copy) simp
  have "s6 = composed n_addr s"
    by (simp add: s6_def s5_def s4_def s2_def s1 composed_def in_memory_def response_memory_def)
  then show ?thesis by (simp only: run c2 c3 c4 c5 c6 and_then_simps ptr.case)
qed

text \<open>
  \<open>send_response\<close> writes only inside the block it has allocated and hands rustls one response, whose body has one byte more
  than its \<open>Content-Length\<close> says. It reports success exactly when rustls has taken all of it, and gives its memory back.
\<close>

theorem send_response_exact:
  assumes "heap_ok s" and "m_usize (lib s) n_addr \<noteq> None" and "cd_rconn conn = Ptr a" and "h_connection (lib s) a = Some c"
    and "\<And>w. r_write (f_methods F) http_response (conn_inner c, w) = Returned r (i, w)" and "\<And>m. \<not> oom m s"
  shows "\<exists>s'. send_response F oom n_addr conn s = Returned (if r = Inr 10043 then CRUSTLS_DEMO_OK else CRUSTLS_DEMO_ERROR) s'
    \<and> lib s' = (lib s)\<lparr>h_connection := (h_connection (lib s))(a \<mapsto> c\<lparr>conn_inner := i\<rparr>),
        m_usize := (m_usize (lib s))(n_addr \<mapsto> (case r of Inr k \<Rightarrow> k | Inl e \<Rightarrow> 42))\<rparr>"
proof -
  let ?s = "composed n_addr s" and ?p = "heap_top s"
  let ?w = "(lib ?s)\<lparr>h_connection := (h_connection (lib s))(a \<mapsto> c\<lparr>conn_inner := i\<rparr>),
      m_usize := (m_usize (lib s))(n_addr \<mapsto> (case r of Inr k \<Rightarrow> k | Inl e \<Rightarrow> 42))\<rparr>"
  have body: "cstr_bytes (m_u8 (lib ?s)) ?p = Some http_response" by (simp add: composed_def response_in_memory)
  have "from_raw_parts u8_mem (lib ?s) (SMem ?p) 10043 = Some http_response"
    using response_stands [of ?p "m_u8 (lib s)"] by (simp add: from_raw_parts_def composed_def stands_at_def response_lengths)
  then have wrote: "in_lib (rustls_connection_write (r_write (f_methods F)) (cd_rconn conn) (SMem ?p) 10043 (Ptr n_addr)) ?s =
      Returned (case r of Inr k \<Rightarrow> Ok | Inl e \<Rightarrow> Io) (?s\<lparr>lib := ?w\<rparr>)"
    using assms(3-5) by (cases r) (simp_all add: in_lib_def rustls_connection_write_def ffi_panic_boundary_def call_inner_def
        write_cell_def deref_def deref_mut_def composed_def)
  have free: "\<exists>s'. c_free (Ptr ?p) (?s\<lparr>lib := ?w\<rparr>) = Returned () s' \<and> lib s' = ?w\<lparr>m_u8 := m_u8 (lib s)\<rparr>"
    using response_freed [of ?p "m_u8 (lib s)"] assms(1) by (simp add: c_free_def composed_def heap_ok_def)
  then obtain s' where s': "c_free (Ptr ?p) (?s\<lparr>lib := ?w\<rparr>) = Returned () s'" "lib s' = ?w\<lparr>m_u8 := m_u8 (lib s)\<rparr>" by blast
  have size: "length response_prefix + 15 + 10000 = 10047" "(of_nat (length http_response) :: usize) = 10043"
    by (simp_all add: response_lengths)
  have "send_response F oom n_addr conn s = Returned (if r = Inr 10043 then CRUSTLS_DEMO_OK else CRUSTLS_DEMO_ERROR) s'"
  proof -
    have addr: "q + 42 + 10000 = q + 10042" "q + 10042 + 1 = q + 10043" for q :: nat by simp_all
    have "m_usize (lib s') n_addr = Some (case r of Inr k \<Rightarrow> k | Inl e \<Rightarrow> 42)" by (simp add: s'(2))
    then show ?thesis
      unfolding send_response_def Let_def size(1) response_lengths(2) addr of_nat_numeral compose_response [OF assms(2)]
      using assms(6) body wrote s'(1) size(2) by (auto split: sum.splits)
  qed
  moreover have "lib s' = (lib s)\<lparr>h_connection := (h_connection (lib s))(a \<mapsto> c\<lparr>conn_inner := i\<rparr>),
        m_usize := (m_usize (lib s))(n_addr \<mapsto> (case r of Inr k \<Rightarrow> k | Inl e \<Rightarrow> 42))\<rparr>"
    by (simp add: s'(2) composed_def)
  ultimately show ?thesis by blast
qed

section \<open>Reading it\<close>

lemma digit_bytes:
  "as_bytes '' 10000'' = [0x20, 0x31, 0x30, 0x30, 0x30, 0x30]"
  by (simp add: as_bytes_def)

lemma strtoul_10000:
  assumes "stands_at h (as_bytes '' 10000'' @ CRLF) p"
  shows "strtoul h p = Some (10000, p + 6)"
proof -
  have at: "h p = Some 0x20" "h (Suc p) = Some 0x31" "h (Suc (Suc p)) = Some 0x30" "h (Suc (Suc (Suc p))) = Some 0x30"
    "h (Suc (Suc (Suc (Suc p)))) = Some 0x30" "h (Suc (Suc (Suc (Suc (Suc p))))) = Some 0x30"
    "h (Suc (Suc (Suc (Suc (Suc (Suc p)))))) = Some CR"
    using stands_at_nth [OF assms, of 0] stands_at_nth [OF assms, of 1] stands_at_nth [OF assms, of 2] stands_at_nth [OF assms, of 3]
      stands_at_nth [OF assms, of 4] stands_at_nth [OF assms, of 5] stands_at_nth [OF assms, of 6]
    by (simp_all add: digit_bytes eval_nat_numeral)
  have "skip_space h p = Some (Suc p)"
    by (subst skip_space.simps, simp add: at is_space_def, subst skip_space.simps, simp add: at is_space_def)
  moreover have "read_digits h (Suc p) 0 = Some (10000, Suc (Suc (Suc (Suc (Suc (Suc p))))))"
    by (subst read_digits.simps, simp add: at is_digit_def)+ (subst read_digits.simps, simp add: at is_digit_def CR_def)
  ultimately show ?thesis by (simp add: strtoul_def at)
qed

definition response_lines :: "bytes list" where
  "response_lines = [as_bytes ''HTTP/1.1 200 OK'', as_bytes ''Content-Length: 10000'']"

lemma response_head_lines: "response_head = block (response_lines @ [[]])"
  by (simp add: response_head_def response_prefix_def response_lines_def as_bytes_def)

lemma response_lines_plain: "\<forall>l \<in> set response_lines. l \<noteq> [] \<and> CR \<notin> set l"
  by (simp add: response_lines_def as_bytes_def CR_def)

lemma response_header:
  "header_value (as_bytes ''Content-Length'') (tl response_lines @ [[]]) = Some (as_bytes '' 10000'')"
  by (simp add: header_value_def names_def response_lines_def as_bytes_def to_lower_def COLON_def)



section \<open>\<open>write_all\<close>\<close>

text \<open>A file that takes the given numbers of bytes, one for each call, and what it has taken.\<close>

fun taking :: "nat list \<times> bytes \<Rightarrow> bytes \<Rightarrow> int \<times> (nat list \<times> bytes)" where
  "taking ([], out) bs = (0, ([], out))"
| "taking (k # ks, out) bs = (int (min k (length bs)), (ks, out @ take k bs))"

lemma write_all_taking:
  assumes "\<forall>k \<in> set ks. 0 < k" and "sum_list ks = n" and "n \<le> length buf"
  shows "write_all taking buf (int n) (ks, out) = Some (0, ([], out @ concat (map (\<lambda>k. take k buf) ks)))"
  using assms
proof (induction ks arbitrary: n out)
  case Nil
  then show ?case by (simp add: write_all.simps)
next
  case (Cons k ks)
  then have "0 < n" "k \<le> n" by auto
  then have "int n - int (min k (length (take n buf))) = int (n - k)" using Cons.prems(3) by simp
  moreover have "take k (take n buf) = take k buf" using \<open>k \<le> n\<close> by simp
  ultimately have "write_all taking buf (int n) (k # ks, out) = write_all taking buf (int (n - k)) (ks, out @ take k buf)"
    using \<open>0 < n\<close> by (subst write_all.simps) simp
  with Cons.IH [of "n - k" "out @ take k buf"] Cons.prems show ?case by simp
qed

text \<open>
  C38. \<open>write_all\<close> sends the beginning of the buffer again after every short write: what has been written is, for each call of
  \<open>write\<close>, a prefix of the buffer. It is the buffer when the first call takes all of it.
\<close>

theorem write_all_output:
  assumes "\<forall>k \<in> set ks. 0 < k" and "sum_list ks = length buf"
  shows "write_all taking buf (int (length buf)) (ks, []) = Some (0, ([], concat (map (\<lambda>k. take k buf) ks)))"
  using write_all_taking [OF assms, of buf "[]"] by simp

theorem write_all_output_witness:
  "write_all taking [1, 2, 3] 3 ([1, 2], []) = Some (0, ([], [1, 1, 2]))"
  using write_all_output [of "[1, 2]" "[1, 2, 3]"] by simp

section \<open>\<open>print_error\<close>\<close>

lemma printf_string_exact: "stands_at h bs p \<Longrightarrow> 0 \<notin> set bs \<Longrightarrow> printf_string h p (length bs) = Some bs"
proof (induction bs arbitrary: p)
  case (Cons b bs)
  then have "h p = Some b" "stands_at h bs (Suc p)"
    using stands_at_hd stands_at_append [of h "[b]" bs p] by auto
  with Cons show ?case by auto
qed simp

text \<open>
  \<open>print_error\<close> prints the whole message of a result of at most 255 bytes, and otherwise the first 255: its buffer of 256 bytes is
  never exceeded, and what it prints is never more than what \<open>rustls_error\<close> has written.
\<close>

theorem print_error_prints:
  assumes "mapped_range (m_u8 w) buf 256" and "m_usize w n \<noteq> None" and "length (error_message fmt_Error result) < 2 ^ 64"
    and "0 \<notin> set (error_message fmt_Error result)"
  shows "\<exists>w'. print_error fmt_Error overflow_checks buf n program_name prefix result w =
    Returned (program_name @ as_bytes '': '' @ prefix @ as_bytes '': '' @ take 255 (error_message fmt_Error result) @ [LF]) w'"
proof -
  let ?msg = "error_message fmt_Error result"
  let ?k = "min 255 (length ?msg)"
  have "?k = min (unat (256 :: usize) - 1) (length ?msg)" by simp
  from rustls_error_writes [OF _ assms(3) _ assms(2) this, of buf overflow_checks] assms(1)
  obtain w' where w': "rustls_error fmt_Error overflow_checks result (Ptr buf) 256 (Ptr n) w = Returned () w'"
    "m_usize w' n = Some (of_nat ?k)" "read_range (m_u8 w') buf ?k = Some (take ?k ?msg)"
    by (auto simp: mapped_range_def)
  have "take ?k ?msg = take 255 ?msg" by (simp add: min_def)
  then have "stands_at (m_u8 w') (take 255 ?msg) buf" using w'(3) by (simp add: stands_at_def min.commute)
  moreover have "0 \<notin> set (take 255 ?msg)" using assms(4) set_take_subset by fastforce
  ultimately have "printf_string (m_u8 w') buf (length (take 255 ?msg)) = Some (take 255 ?msg)" by (rule printf_string_exact)
  moreover have "unat (of_nat ?k :: usize) = length (take 255 ?msg)" by (subst unat_usize) (auto simp: min.commute)
  ultimately show ?thesis using w'(1,2) by (simp add: print_error_def)
qed

section \<open>Loading a key\<close>

lemma owned_bytes [simp]: "owned e C (w\<lparr>m_u8 := h\<rparr>) H = owned e C w H"
proof (rule owned_library)
  have "supply_of (w\<lparr>m_u8 := h\<rparr>) r = supply_of w r" for r by (cases r) simp_all
  then show "library_part (w\<lparr>m_u8 := h\<rparr>) = library_part w" by (simp add: library_part_def boxes_def fun_eq_iff)
qed

lemma read_file_returns:
  assumes "mapped_range (m_u8 w) buf n" and "n < 2 ^ 64"
  obtains r k h where "read_file content buf n w = Returned (r, k) (w\<lparr>m_u8 := h\<rparr>)" and "dom (m_u8 w) \<subseteq> dom h" and "unat k \<le> n"
proof (cases content)
  case None
  with that [of CRUSTLS_DEMO_ERROR 0 "m_u8 w"] show ?thesis by (simp add: read_file_def)
next
  case (Some bs)
  have "mapped_range (m_u8 w) buf (length (take n bs))"
    using mapped_range_shift [OF assms(1), of 0 "length (take n bs)"] by simp
  then have "read_file content buf n w = Returned (if length bs < n then CRUSTLS_DEMO_OK else CRUSTLS_DEMO_ERROR,
      of_nat (length (take n bs))) (w\<lparr>m_u8 := place buf (take n bs) (m_u8 w)\<rparr>)"
    by (simp add: read_file_def Some copy_to_def write_range_place)
  moreover have "unat (of_nat (length (take n bs)) :: usize) \<le> n" using assms(2) by (subst unat_usize) auto
  moreover have "dom (m_u8 w) \<subseteq> dom (place buf (take n bs) (m_u8 w))" by (auto simp: place_def)
  ultimately show ?thesis using that by blast
qed

lemma mapped_dom: "mapped_range h a n \<Longrightarrow> dom h \<subseteq> dom h' \<Longrightarrow> mapped_range h' a n"
  by (auto simp: mapped_range_def)

lemma mapped_readable: "mapped_range (m_u8 w) a n \<Longrightarrow> unat k \<le> n \<Longrightarrow> Ffi_Ownership_Api.readable u8_mem (SMem a) k w"
  using mapped_range_shift [of "m_u8 w" a n 0 "unat k"] by (auto simp: Ffi_Ownership_Api.readable_def from_raw_parts_def mapped_range_read)

lemma key_build_cell:
  assumes "owned e C w H" and "Ffi_Ownership_Api.readable u8_mem chain n w" and "Ffi_Ownership_Api.readable u8_mem key m w"
    and "\<And>cs k. ck_key (new cs k) = k"
    and "rustls_certified_key_build pkcs8 rsa any_type certs new chain n key m (Ptr o') w = Returned Ok w'"
  shows "m_key_ptr w' o' \<noteq> None"
proof -
  from certified_key_build_owned [where CertifiedKey_new = new, OF assms(1-4), of pkcs8 rsa any_type certs]
  obtain r w1 where run: "certified_key_build pkcs8 rsa any_type certs new chain n key m w = Returned r w1" "r \<noteq> Inl Ok"
    by (auto simp: returns_def)
  then show ?thesis
    using assms(5)
    by (cases r) (auto simp: rustls_certified_key_build_def ffi_panic_boundary_def try_macro_defs write_cell_def and_then_eq_Returned
      split: option.splits outcome.splits)
qed

text \<open>
  C21. \<open>load_cert_and_key\<close> returns, whatever the files contain: with a key that the server now owns, or with null when a file is missing,
  has 10000 bytes or more, or does not parse. Nothing is leaked in these cases, and its buffers are not exceeded.
\<close>

theorem load_cert_and_key_owned:
  assumes "owned e C w H" and "\<And>cs k. ck_key (f_CertifiedKey_new F cs k) = k"
    and "mapped_range (m_u8 w) certbuf 10000" and "mapped_range (m_u8 w) keybuf 10000" and "m_key_ptr w certified_key \<noteq> None"
  shows "returns (\<lambda>p w'. owned e C w' (H + ptr_refs RKey p)) (load_cert_and_key F file certbuf keybuf certified_key certfile keyfile w)"
proof -
  obtain r1 k1 h1 where 1: "read_file (file certfile) certbuf 10000 w = Returned (r1, k1) (w\<lparr>m_u8 := h1\<rparr>)" "dom (m_u8 w) \<subseteq> dom h1" "unat k1 \<le> 10000"
    using assms(3) by (rule read_file_returns [where content = "file certfile"]) simp
  obtain r2 k2 h2 where 2: "read_file (file keyfile) keybuf 10000 (w\<lparr>m_u8 := h1\<rparr>) = Returned (r2, k2) (w\<lparr>m_u8 := h2\<rparr>)" "dom h1 \<subseteq> dom h2" "unat k2 \<le> 10000"
    using read_file_returns [where content = "file keyfile" and w = "w\<lparr>m_u8 := h1\<rparr>" and buf = keybuf and n = 10000] mapped_dom [OF assms(4) 1(2)] by auto
  let ?w = "w\<lparr>m_u8 := h2\<rparr>"
  let ?build = "rustls_certified_key_build (f_pkcs8 F) (f_rsa F) (f_any_type F) (f_certs F) (f_CertifiedKey_new F)
      (SMem certbuf) k1 (SMem keybuf) k2 (Ptr certified_key) ?w"
  have mapped: "mapped_range h2 certbuf 10000" "mapped_range h2 keybuf 10000"
    using mapped_dom [OF mapped_dom [OF assms(3) 1(2)] 2(2)] mapped_dom [OF mapped_dom [OF assms(4) 1(2)] 2(2)] by simp_all
  have own: "owned e C ?w H" and chain: "Ffi_Ownership_Api.readable u8_mem (SMem certbuf) k1 ?w" and key: "Ffi_Ownership_Api.readable u8_mem (SMem keybuf) k2 ?w"
    using assms(1) mapped 1(3) 2(3) by (auto intro: mapped_readable)
  have "returns (\<lambda>r w'. owned e C w' (H + handed_out m_key_ptr RKey (Ptr certified_key) r w')) ?build"
    using own chain key assms(2,5) by (intro key_build_owned) auto
  then obtain r w' where built: "?build = Returned r w'" "owned e C w' (H + handed_out m_key_ptr RKey (Ptr certified_key) r w')"
    by (auto simp: returns_def)
  have cell: "m_key_ptr w' certified_key \<noteq> None" if "r = Ok"
    using key_build_cell [where new = "f_CertifiedKey_new F", OF own chain key assms(2)] built(1) that by blast
  have "returns (\<lambda>p w'. owned e C w' (H + ptr_refs RKey p))
      (if r \<noteq> Ok then Returned Null w' else case m_key_ptr w' certified_key of None \<Rightarrow> Undefined | Some p \<Rightarrow> Returned p w')"
    using built cell by (auto simp: handed_out_def split: option.splits)
  then show ?thesis
    using 1(1) 2(1) built(1) assms(1) by (simp add: load_cert_and_key_def)
qed

theorem load_cert_and_key_owned_witness:
  "\<exists>p w'. load_cert_and_key demo_foreign (\<lambda>_. Some [1]) 0 20000 5 [] []
      (empty_world\<lparr>m_u8 := (\<lambda>x. Some 0), m_key_ptr := [5 \<mapsto> Null]\<rparr>) = Returned p w' \<and> owned False demo_refs w' (ptr_refs RKey p)"
proof -
  let ?w = "empty_world\<lparr>m_u8 := (\<lambda>x. Some 0), m_key_ptr := [5 \<mapsto> Null]\<rparr>"
  have "owned False demo_refs ?w {#}" by (simp add: owned_empty)
  then have "returns (\<lambda>p w'. owned False demo_refs w' ({#} + ptr_refs RKey p)) (load_cert_and_key demo_foreign (\<lambda>_. Some [1]) 0 20000 5 [] [] ?w)"
    by (rule load_cert_and_key_owned) (simp_all add: demo_foreign_def demo_key_def mapped_range_def)
  then show ?thesis by (auto simp: returns_def)
qed

theorem send_response_exact_witness:
  "\<exists>s'. send_response demo_foreign (\<lambda>_ _. False) 7 demo_conndata demo_program = Returned CRUSTLS_DEMO_OK s'"
proof -
  have "heap_ok demo_program" "m_usize (lib demo_program) 7 \<noteq> None" "cd_rconn demo_conndata = Ptr 3"
    "h_connection (lib demo_program) 3 = Some (from_client (ClientConnection 2))"
    by (simp_all add: heap_ok_def demo_program_def demo_conndata_def empty_world_def)
  moreover have "r_write (f_methods demo_foreign) http_response (conn_inner (from_client (ClientConnection 2)), w) =
      Returned (Inr 10043) (conn_inner (from_client (ClientConnection 2)), w)" for w
    by (simp add: demo_foreign_def demo_methods_def response_lengths)
  ultimately show ?thesis
    using send_response_exact [of demo_program 7 demo_conndata 3 "from_client (ClientConnection 2)" demo_foreign "Inr 10043"
        "conn_inner (from_client (ClientConnection 2))" "\<lambda>_ _. False"] by auto
qed

theorem print_error_prints_witness:
  "\<exists>w'. print_error (\<lambda>_. []) True 0 7 [] [] 7000 (empty_world\<lparr>m_u8 := (\<lambda>x. Some 0), m_usize := [7 \<mapsto> 0]\<rparr>) =
     Returned (as_bytes '': '' @ as_bytes '': '' @ as_bytes ''OK'' @ [LF]) w'"
  using print_error_prints [of "empty_world\<lparr>m_u8 := (\<lambda>x. Some 0), m_usize := [7 \<mapsto> 0]\<rparr>" 0 7 "\<lambda>_. []" 7000 True "[]" "[]"]
  by (simp add: mapped_range_def error_message_ok as_bytes_def)

section \<open>A round of reading\<close>

text \<open>
  C19. One \<open>do_read\<close> of the client, when the socket gives TLS data and rustls processes it: it returns, the buffer has grown by all plaintext
  that this has made available, and the result tells the three ends apart. After \<open>close_notify\<close>, it is \<open>EOF\<close> only when the
  TCP connection has nothing more to read, otherwise an error.
\<close>

theorem client_do_read_exact:
  assumes "in_lib (rustls_connection_read_tls (r_read_tls (f_methods F)) (c_recv (f_callbacks F)) (cd_rconn conn)
      (Some read_cb_addr) userdata (Ptr n_addr)) s = Returned 0 s1"
    and "in_lib (rustls_connection_process_new_packets (r_process (f_methods F)) (cd_rconn conn)) s1 = Returned Ok s2"
    and "plaintext_reader pending ending (r_read (f_methods F))" and "holds s2 (cd_data conn) bs"
    and "cd_rconn conn = Ptr a" and "h_connection (lib s2) a = Some c" and "m_usize (lib s2) m_addr \<noteq> None"
    and "length bs + length (pending (conn_inner c)) < 2 ^ 61" and "\<And>m t. \<not> oom m t"
  shows "\<exists>vec s3. holds s3 vec (bs @ pending (conn_inner c))
    \<and> client_do_read F oom read_byte read_cb_addr userdata n_addr m_addr conn s =
      (case ending (conn_inner c) of
         StillOpen \<Rightarrow> Some (Returned (CRUSTLS_DEMO_OK, conn\<lparr>cd_data := vec\<rparr>) s3)
       | Truncated \<Rightarrow> Some (Returned (CRUSTLS_DEMO_ERROR, conn\<lparr>cd_data := vec\<rparr>) s3)
       | CloseNotify \<Rightarrow> then_run (Some (read_byte (cd_fd conn) s3)) (\<lambda>(n, errno) s.
           Some (Returned (if n = 0 \<or> n <s 0 \<and> errno = EAGAIN then CRUSTLS_DEMO_EOF else CRUSTLS_DEMO_ERROR, conn\<lparr>cd_data := vec\<rparr>) s)))"
proof -
  from copy_plaintext_outcome [OF assms(3-8), of oom] assms(9) obtain vec s3 where copy:
    "copy_plaintext_to_buffer (r_read (f_methods F)) oom m_addr conn s2 =
       Some (Returned (copy_verdict (ending (conn_inner c)), conn\<lparr>cd_data := vec\<rparr>) s3)"
    "holds s3 vec (bs @ pending (conn_inner c))"
    by (auto simp: copy_outcome_def copied_def)
  have sign: "0 <s n \<longleftrightarrow> \<not> (n = 0 \<or> n <s 0)" for n :: ssize
  proof -
    have "sint n = 0 \<longleftrightarrow> n = 0" by (rule signed_eq_0_iff)
    then show ?thesis by (auto simp: word_sless_alt)
  qed
  have "finish_read F oom read_byte m_addr conn s1 =
      (case ending (conn_inner c) of
         StillOpen \<Rightarrow> Some (Returned (CRUSTLS_DEMO_OK, conn\<lparr>cd_data := vec\<rparr>) s3)
       | Truncated \<Rightarrow> Some (Returned (CRUSTLS_DEMO_ERROR, conn\<lparr>cd_data := vec\<rparr>) s3)
       | CloseNotify \<Rightarrow> then_run (Some (read_byte (cd_fd conn) s3)) (\<lambda>(n, errno) s.
           Some (Returned (if n = 0 \<or> n <s 0 \<and> errno = EAGAIN then CRUSTLS_DEMO_EOF else CRUSTLS_DEMO_ERROR, conn\<lparr>cd_data := vec\<rparr>) s)))"
    using assms(2) copy(1)
    by (cases "ending (conn_inner c)"; cases "read_byte (cd_fd conn) s3") (auto simp: finish_read_def sign)
  then show ?thesis using assms(1) copy(2) by (intro exI [of _ vec] exI [of _ s3]) (simp add: client_do_read_def EAGAIN_def)
qed

text \<open>The callbacks of the programs, on a socket from which one byte can be read.\<close>

definition socket_callbacks :: c_callbacks where
  "socket_callbacks = \<lparr>c_recv = (\<lambda>_. read_cb (\<lambda>fd buf. Returned (buf, 1, 0)) (\<lambda>_. Some 4)), c_send = demo_send, c_sendv = demo_sendv\<rparr>"

theorem client_do_read_exact_witness:
  "\<exists>vec s3. holds s3 vec [65, 65]
    \<and> client_do_read (demo_foreign\<lparr>f_methods := demo_methods\<lparr>r_read := demo_plaintext\<rparr>, f_callbacks := socket_callbacks\<rparr>) (\<lambda>_ _. False) (\<lambda>_. Returned (0, 0)) 1 Null 7 7
        demo_conndata demo_program = Some (Returned (CRUSTLS_DEMO_OK, demo_conndata\<lparr>cd_data := vec\<rparr>) s3)"
proof -
  let ?F = "demo_foreign\<lparr>f_methods := demo_methods\<lparr>r_read := demo_plaintext\<rparr>, f_callbacks := socket_callbacks\<rparr>" and ?c = "from_client (ClientConnection 2)"
  let ?s1 = "demo_program\<lparr>lib := (lib demo_program)\<lparr>m_usize := [7 \<mapsto> 1]\<rparr>\<rparr>"
  have s1: "in_lib (rustls_connection_read_tls (r_read_tls (f_methods ?F)) (c_recv (f_callbacks ?F)) (cd_rconn demo_conndata)
      (Some 1) Null (Ptr 7)) demo_program = Returned 0 ?s1"
    by (simp add: demo_foreign_def demo_methods_def demo_conndata_def demo_program_def in_lib_def tls_io_entries tls_io_def
        ffi_panic_boundary_def call_inner_def demo_read_tls_def socket_callbacks_def read_cb_def on_world_def CallbackReader_read_def write_cell_def
        empty_world_def deref_def deref_mut_def from_client_def word_sless_alt)
  have s2: "in_lib (rustls_connection_process_new_packets (r_process (f_methods ?F)) (cd_rconn demo_conndata)) ?s1 = Returned Ok ?s1"
    by (auto simp: demo_foreign_def demo_methods_def demo_conndata_def demo_program_def in_lib_def
        rustls_connection_process_new_packets_def ffi_panic_boundary_def call_inner_def userdata_defs empty_world_def deref_def deref_mut_def from_client_def)
  have "holds ?s1 (cd_data demo_conndata) []" "h_connection (lib ?s1) 3 = Some ?c" "m_usize (lib ?s1) 7 \<noteq> None"
    by (auto simp: holds_def heap_ok_def demo_program_def demo_conndata_def empty_world_def)
  moreover have "plaintext_reader demo_pending demo_ending (r_read (f_methods ?F))" using demo_plaintext_reader by simp
  moreover have "replicate 2 65 = [65, 65 :: u8]" by (simp add: numeral_2_eq_2)
  ultimately show ?thesis
    using client_do_read_exact [OF s1 s2, of demo_pending demo_ending "[]" 3 ?c 7 "\<lambda>_ _. False" "\<lambda>_. Returned (0, 0)"]
    by (auto simp: demo_conndata_def from_client_def)
qed

end
