(* ===== verification/Spec2Isabelle.thy ===== *)
theory Spec2Isabelle
  imports Ffi_Reentrancy Ffi_Build Ffi_Demo_Programs
begin

text \<open>
  A verification of rustls-ffi, the C interface of the TLS library rustls.

  \<^bold>\<open>The program.\<close> A C program makes configurations and connections through \<open>extern "C"\<close> functions,
  feeds TLS bytes through I/O callbacks (\<open>src/io.rs\<close>), and has rustls process them
  (\<open>src/connection.rs\<close>). While rustls processes a connection it may call back into the C program: to
  verify a server certificate (\<open>src/client.rs\<close>), to choose a certificate for a client hello
  (\<open>src/server.rs\<close>), to store or load a session (\<open>src/session.rs\<close>), to log (\<open>src/log.rs\<close>). The
  connection's userdata pointer reaches these callbacks through a thread-local stack (\<open>src/lib.rs\<close>).
  Keys, certificates and root stores are made separately (\<open>src/cipher.rs\<close>) and shared by reference
  counts. Errors of rustls become numbers (\<open>src/error.rs\<close>), strings and slices become
  pointer and length (\<open>src/rslice.rs\<close>), and a panic becomes a return value (\<open>src/panic.rs\<close>).

  \<^bold>\<open>The embedding.\<close> An entry point is a function from the state \<open>world\<close> to an outcome: it returns a value in a
  new state, it unwinds (a panic) in a new state, or its behaviour is undefined (a pointer that does
  not point to a live object, a freed reference count, a slice out of memory). Undefined
  behaviour is thus a value of the model and a theorem of the form \<open>f w = Returned ..\<close> says it does not happen. Machine
  integers are words of their width. Pointers are \<open>Null\<close> or an address; each C pointer type has a
  lens into the state that says what it points to. What belongs to other crates (rustls, webpki, rustls_pemfile,
  the log crate) or to the C program is a parameter: a method of rustls that may change the connection and the whole
  state, or panic, is an arbitrary function, and where a theorem needs something of it, this is a
  hypothesis. While such a method runs the connection is taken out of the heap, so a use of the same
  connection from a callback is undefined, as is the aliased \<open>&mut\<close> in Rust.

  \<^bold>\<open>The theories.\<close>
  \<^item> \<open>Ffi_Prelude\<close>: outcomes, pointers, heaps as lenses, slices from raw parts, and their shared lemmas;
    the locale \<open>typed_heap\<close> is the interface of a heap. \<open>Ffi_Std\<close>: what is used of the standard library.
  \<^item> \<open>Ffi_Rslice\<close> (\<open>rslice.rs\<close>, \<open>rustls_version\<close>): borrowed slices and strings, and their accessors.
  \<^item> \<open>Ffi_Userdata\<close> (\<open>lib.rs\<close>, 42-187): the thread-local stack and its guards. The locale \<open>scoped_stack\<close> is what callers
    rely on; a transition system of guards in several threads has the invariant that the stack is
    exactly the live guards of the thread.
  \<^item> \<open>Ffi_World\<close>: the structs and the state. \<open>Ffi_Panic\<close> (\<open>panic.rs\<close>, macros of \<open>lib.rs\<close>): the panic
    boundary and the pointer macros; the locale \<open>fallible_return\<close> tells success from a caught panic.
    \<open>Ffi_Casts\<close> (\<open>lib.rs\<close>, 292-497): boxes and reference counts across the boundary, with the locales
    \<open>box_cast\<close> and \<open>arc_cast\<close> interpreted for every type that the sources cast.
  \<^item> \<open>Ffi_Error\<close> (\<open>error.rs\<close>): all codes, their numbers, the translation from and to errors of rustls, messages.
  \<^item> \<open>Ffi_Cipher\<close> (\<open>cipher.rs\<close>): certificates, suites, certified keys, root stores, client verifiers.
  \<^item> \<open>Ffi_Enums\<close> (\<open>enums.rs\<close>), \<open>Ffi_Io\<close> (\<open>io.rs\<close>, locale \<open>callback_adapter\<close>), \<open>Ffi_Log\<close> (\<open>log.rs\<close>),
    \<open>Ffi_Session\<close> (\<open>session.rs\<close>, with the store it refines), \<open>Ffi_Connection\<close> (\<open>connection.rs\<close>).
  \<^item> \<open>Ffi_Config\<close>: the loops and the release of keys shared by the two configurations, and the locale \<open>key_selection\<close> of
    choosing a key; \<open>Ffi_Client\<close> (\<open>client.rs\<close>) and \<open>Ffi_Server\<close> (\<open>server.rs\<close>) interpret it.
  \<^item> \<open>Ffi_Reentrancy\<close>: how the entry points act on the thread-local stack, and callbacks that call entry points,
    to any depth.
  \<^item> \<open>Ffi_Ownership\<close>: who holds a reference to what. A resource is a box or a counted object of the heap; \<open>refs\<close> is
    the multiset of references that the objects of the heap hold and \<open>owned\<close> says that they and the handles of the C program
    are covered by the counts (or, in the exact form, that they are the counts). The locales \<open>resource_heap\<close>, \<open>box_resource\<close> and
    \<open>arc_resource\<close> carry the laws of allocating, borrowing, cloning and dropping and are interpreted for all ten kinds.
    \<open>Ffi_Ownership_Api\<close> and \<open>Ffi_Ownership_Connection\<close>: each entry point returns and keeps the ownership.
  \<^item> \<open>Ffi_Protocol\<close>: programs as sequences of calls on handles they own, and what holds of all of them.
    \<open>Ffi_Tests\<close>: the unit tests of the sources as computations of the model, with when they pass.
  \<^item> \<open>Ffi_Build\<close> (\<open>build.rs\<close>): the build script on a model of the file system, and the version string it generates.
  \<^item> The C programs of the integration tests (\<open>tests/\<close>), as clients of the entry points above. \<open>Ffi_Demo_Http\<close>: \<open>memmem\<close>,
    \<open>body_beginning\<close> and \<open>get_first_header_value\<close> of \<open>common.c\<close>, on memory that need not be mapped. \<open>Ffi_Demo_Buffer\<close>: the
    C heap, the growable buffer and \<open>copy_plaintext_to_buffer\<close>; \<open>Ffi_Demo_Copy\<close>: that it ends, and with what.
    \<open>Ffi_Demo_Programs\<close>: the socket callbacks, \<open>write_all\<close>, \<open>print_error\<close>, one round of reading (\<open>do_read\<close> of \<open>client.c\<close> and
    \<open>server.c\<close>), \<open>send_response\<close> and \<open>load_cert_and_key\<close>.
  \<^item> This theory: properties that span components.

  \<^bold>\<open>What is shown.\<close> Processing is a scope: the stack is restored on success, error and panic, also when callbacks
  process other connections, and callbacks see the userdata of their own connection. The
  certificate verifier accepts only on the callback's \<open>Ok\<close>; a new client configuration trusts nobody. Key
  selection for a client hello agrees with the resolver that rustls uses, and the callback-based server with the
  key-based one. Keys built from PEM are exactly the parsed ones, and failing calls change nothing. Setting keys on a
  builder takes one reference for each entry or none at all, so keys may be freed by the C program
  first; a configuration gives everything back at the end. I/O codes of callbacks pass through unchanged.
  Sessions round-trip through callbacks that obey their documentation. The translation of error codes is onto the
  numbers from 7100 and faithful where the code keeps the information. No entry point unwinds into C.
  Whatever calls a C program makes on handles it owns, the next one returns: there is no undefined behaviour, the counts
  cover the holders, the keys of a configuration stay alive as long as it does, and a program that gives all handles back leaks nothing.
  Some theorems show where the code differs from its intention: a leaked key, a zero-length error buffer,
  unchecked out pointers, and a unit test that cannot fail. The model passes the other unit tests.
  When the build script returns, the generated version is in place. In the test programs, the copy of plaintext ends
  and loses nothing, the client understands the response of the server, and loading a key neither leaks nor leaves its buffers; their search
  for a substring is safe only because the buffer has spare room, and \<open>write_all\<close> repeats bytes after a short write.

  \<^bold>\<open>Bounds.\<close> No definition needs fuel. All loops of the Rust sources run over finite lists. Loops of the C programs that need not
  end are partial functions, for which not ending is \<open>None\<close>, and the theorems say that they end. The buffer of the programs holds
  less than \<open>2 ^ 61\<close> bytes, so that doubling its capacity does not wrap around. A C string is read up to its
  terminator if the memory has one and is undefined otherwise. A session is read into 65 KiB, as in the source.

  \<^bold>\<open>Not modelled.\<close> The generation of the C header, the Python scripts, and of the C programs: \<open>main\<close>, the event loops
  around \<open>select\<close>, making a socket, the log and verify callbacks, and messages on \<open>stderr\<close> except those of \<open>print_error\<close>. TLS itself is rustls.
  In the library, allocation failure and the wrap-around of reference counts abort the process and are left out; in the C programs a failing allocation is a
  case of the model. The state is that of one thread; several threads occur in
  \<open>Ffi_Userdata\<close> only, where the code has thread-local state. The registration of the logger is state of the log crate and
  a parameter, so \<open>rustls_connection_set_log_callback\<close> is the one function left out of the theorem on unwinding.
  In \<open>Ffi_Protocol\<close>, what callbacks do during a call is part of the behaviour of rustls, which is assumed to keep
  the ownership while it uses the handles that the program lends to them; the client hello callback is covered where a hello is
  resolved. The accessors of static tables, slices and messages, which take no handle, are not calls of a program there.
\<close>

section \<open>Callbacks and userdata\<close>

text \<open>
  Callbacks that behave like \<open>call\<close> for one userdata pointer and in an arbitrary way for all others.
\<close>

definition only_for :: "void_ptr \<Rightarrow> 'b \<Rightarrow> (c_fn \<Rightarrow> void_ptr \<Rightarrow> 'b) \<Rightarrow> c_fn \<Rightarrow> void_ptr \<Rightarrow> 'b" where
  "only_for u other call cb u' = (if u' = u then call cb u' else other)"

lemma only_for_same [simp]: "only_for u other call cb u = call cb u"
  by (simp add: only_for_def)

lemma callbacks_get_top:
  assumes "userdata_get (USERDATA w) = Inr u" and "log_callback_get (USERDATA w) = Inr (log, u)"
  shows "store (only_for u p put) self key val w = store put self key val w"
    and "retrieve (only_for u g get) self key rm w = retrieve get self key rm w"
    and "Verifier_verify_server_cert (only_for u v verify) cb ee ims name ocsp w = Verifier_verify_server_cert verify cb ee ims name ocsp w"
    and "ClientHelloResolver_resolve get_u16 (only_for u h hello) cb ch w = ClientHelloResolver_resolve get_u16 hello cb ch w"
    and "Logger_log (only_for u l logger) rec w = Logger_log logger rec w"
  using assms
  by (auto simp: store_def retrieve_def Verifier_verify_server_cert_def ClientHelloResolver_resolve_def Logger_log_def Let_def
      split: option.split sum.split ServerName.split)

section \<open>Out pointers\<close>

lemma set_mut_ptr_null: "set_mut_ptr l m Null x w = Undefined"
  by (simp add: set_mut_ptr_def to_mut_ptr_def Let_def write_cell_def split: outcome.splits)

lemma and_then_undefined:
  assumes "and_then r k = Returned b w'" and "\<And>a w. k a w = Returned b w' \<Longrightarrow> k' a w = Undefined"
  shows "and_then r k' = Undefined"
  using assms by (cases r) auto

lemma boundary_undefined:
  assumes "ffi_panic_boundary rr_ret body w = Returned Ok w'" and "body w = Returned Ok w' \<Longrightarrow> body' w = Undefined"
  shows "ffi_panic_boundary rr_ret body' w = Undefined"
  using assms by (simp add: rr_fallible.success_means_completed) (simp add: ffi_panic_boundary_def)

lemma null_out_builders:
  "rustls_client_config_builder_new_custom eq all pv version with_versions suites ns vs nv (Ptr o') w = Returned Ok w' \<Longrightarrow>
     rustls_client_config_builder_new_custom eq all pv version with_versions suites ns vs nv Null w = Undefined"
  "rustls_server_config_builder_new_custom eq all pv version with_versions suites ns vs nv (Ptr o'') w = Returned Ok w' \<Longrightarrow>
     rustls_server_config_builder_new_custom eq all pv version with_versions suites ns vs nv Null w = Undefined"
  by (auto simp: rustls_client_config_builder_new_custom_def rustls_server_config_builder_new_custom_def
      ffi_panic_boundary_def try_slice_def set_mut_ptr_null Let_def collect_suites_not_Ok
      split: option.splits sum.splits outcome.splits if_splits)

lemma null_out_client:
  assumes "rustls_client_connection_new sn cnew cc hostname (Ptr o') w = Returned Ok w'"
  shows "rustls_client_connection_new sn cnew cc hostname Null w = Undefined"
  using assms unfolding rustls_client_connection_new_def try_arc_from_ptr_def
  by (rule boundary_undefined) (auto simp: set_mut_ptr_null elim!: and_then_undefined
      split: option.splits sum.splits if_splits ptr.splits, auto simp: and_then_eq_Returned)

lemma null_out_server:
  assumes "rustls_server_connection_new snew sc (Ptr o') w = Returned Ok w'"
  shows "rustls_server_connection_new snew sc Null w = Undefined"
  using assms unfolding rustls_server_connection_new_def try_arc_from_ptr_def
  by (rule boundary_undefined) (auto simp: set_mut_ptr_null elim!: and_then_undefined split: option.splits sum.splits)

section \<open>Properties\<close>

text \<open>
  C7. Userdata never crosses connections. At every point that code running inside the processing of a connection can
  reach, also after it has processed other connections, the session store, the certificate verifier, the
  client hello resolver and the logger call the C program with the userdata of this connection only: what the
  callbacks would do for any other userdata makes no difference.
\<close>

theorem callbacks_get_their_userdata:
  assumes "usable (USERDATA w)" and "app_run (processing a c w) w'"
  shows "store (only_for (conn_userdata c) p put) self key val w' = store put self key val w'
    \<and> retrieve (only_for (conn_userdata c) g get) self key rm w' = retrieve get self key rm w'
    \<and> Verifier_verify_server_cert (only_for (conn_userdata c) v verify) cb ee ims name ocsp w'
        = Verifier_verify_server_cert verify cb ee ims name ocsp w'
    \<and> ClientHelloResolver_resolve get_u16 (only_for (conn_userdata c) h hello) cb ch w'
        = ClientHelloResolver_resolve get_u16 hello cb ch w'
    \<and> Logger_log (only_for (conn_userdata c) l logger) rec w' = Logger_log logger rec w'"
  using processing_top [OF assms] by (intro conjI; intro callbacks_get_top; simp)

theorem callbacks_get_their_userdata_witness:
  "store (only_for (Ptr 9) (\<lambda>_ _ _. Undefined) demo_put) (SessionStoreBroker_new 1 2) [1] [2]
       (processing 3 demo_connection demo_nested_world)
   = store demo_put (SessionStoreBroker_new 1 2) [1] [2] (processing 3 demo_connection demo_nested_world)"
proof -
  have "usable (USERDATA demo_nested_world)" "conn_userdata demo_connection = Ptr 9"
    by (simp_all add: demo_nested_world_def demo_connection_def)
  with callbacks_get_their_userdata [of demo_nested_world 3 demo_connection "processing 3 demo_connection demo_nested_world"]
  show ?thesis by (metis app_local)
qed

text \<open>
  C33. Four functions do not check their out pointer: whenever a call succeeds, the same call with a null out
  pointer is undefined behaviour, not \<open>NullParameter\<close>.
\<close>

theorem null_out_pointer_undefined:
  "(rustls_client_config_builder_new_custom eq all pv version with_versions suites ns vs nv (Ptr o1) w = Returned Ok w' \<longrightarrow>
      rustls_client_config_builder_new_custom eq all pv version with_versions suites ns vs nv Null w = Undefined)
   \<and> (rustls_server_config_builder_new_custom eq all pv version with_versions suites ns vs nv (Ptr o2) w = Returned Ok w' \<longrightarrow>
      rustls_server_config_builder_new_custom eq all pv version with_versions suites ns vs nv Null w = Undefined)
   \<and> (rustls_client_connection_new sn cnew cc hostname (Ptr o3) w = Returned Ok w' \<longrightarrow>
      rustls_client_connection_new sn cnew cc hostname Null w = Undefined)
   \<and> (rustls_server_connection_new snew sc (Ptr o4) w = Returned Ok w' \<longrightarrow>
      rustls_server_connection_new snew sc Null w = Undefined)"
  by (intro conjI impI; erule null_out_builders null_out_client null_out_server)

theorem null_out_pointer_undefined_witness:
  "(\<exists>w'. rustls_client_connection_new (\<lambda>n. Some (DnsName n)) (\<lambda>c sn. Returned (Inr (ClientConnection 1)))
       (Ptr 6) (Ptr 20) (Ptr 8) demo_client_world = Returned Ok w')
   \<and> rustls_client_connection_new (\<lambda>n. Some (DnsName n)) (\<lambda>c sn. Returned (Inr (ClientConnection 1)))
       (Ptr 6) (Ptr 20) Null demo_client_world = Undefined"
proof -
  have "cstr_bytes (m_u8 demo_client_world) 20 = Some [97]"
    by (rule cstr_bytes_terminated) simp_all
  then have "\<exists>w'. rustls_client_connection_new (\<lambda>n. Some (DnsName n)) (\<lambda>c sn. Returned (Inr (ClientConnection 1)))
       (Ptr 6) (Ptr 20) (Ptr 8) demo_client_world = Returned Ok w'"
    by (simp add: rustls_client_connection_new_def ffi_panic_boundary_def try_arc_from_ptr_def to_arc_def
        set_mut_ptr_def to_mut_ptr_def Let_def write_cell_def)
  then show ?thesis
    using null_out_pointer_undefined [THEN conjunct2, THEN conjunct2, THEN conjunct1, rule_format] by (elim exE) (intro conjI exI)
qed

end
